(* ===== verification/Prelude.thy ===== *)
theory Prelude
  imports Main "HOL-Library.Word"
begin

text \<open>
  Shared vocabulary of the development: the fixed-width integer types that
  \<^verbatim>\<open>types_shim.h\<close> gives the BPF programs, the byte order the compiler was asked for, the
  byte-level encoding of an integer in either byte order, the window update
  of a C array, the outcome of a Go function that may panic, and the interface
  \<open>byte_codec\<close> that every fixed-length encoding of the development implements.
\<close>

unbundle bit_operations_syntax

named_theorems layout_simps \<open>closed sizes and offsets of the C and Go structs\<close>
named_theorems len_simps \<open>lengths of encodings and of updated buffers\<close>

section \<open>Fixed-width integers\<close>

type_synonym u8 = "8 word"
type_synonym u16 = "16 word"
type_synonym u32 = "32 word"
type_synonym u64 = "64 word"

datatype byte_order = Little | Big

section \<open>Integers as bytes\<close>

fun nat_le :: "nat \<Rightarrow> nat \<Rightarrow> u8 list" where
  "nat_le 0 v = []"
| "nat_le (Suc n) v = word_of_nat v # nat_le n (v div 256)"

fun le_nat :: "u8 list \<Rightarrow> nat" where
  "le_nat [] = 0"
| "le_nat (b # bs) = unat b + 256 * le_nat bs"

definition order_bytes :: "byte_order \<Rightarrow> u8 list \<Rightarrow> u8 list" where
  "order_bytes bo bs = (case bo of Little \<Rightarrow> bs | Big \<Rightarrow> rev bs)"

text \<open>
  \<open>enc bo n w\<close> is the word \<open>w\<close> stored in \<open>n\<close> bytes of memory of a machine of byte
  order \<open>bo\<close>; \<open>dec bo bs\<close> loads it again.
\<close>

definition enc :: "byte_order \<Rightarrow> nat \<Rightarrow> 'a::len word \<Rightarrow> u8 list" where
  "enc bo n w = order_bytes bo (nat_le n (unat w))"

definition dec :: "byte_order \<Rightarrow> u8 list \<Rightarrow> 'a::len word" where
  "dec bo bs = word_of_nat (le_nat (order_bytes bo bs))"

lemma length_nat_le [simp, len_simps]: "length (nat_le n v) = n"
  by (induction n arbitrary: v) auto

lemma length_order_bytes [simp, len_simps]: "length (order_bytes bo bs) = length bs"
  by (cases bo) (auto simp: order_bytes_def)

lemma length_enc [simp, len_simps]: "length (enc bo n w) = n"
  by (simp add: enc_def)

lemma order_bytes_twice [simp]: "order_bytes bo (order_bytes bo bs) = bs"
  by (cases bo) (auto simp: order_bytes_def)

lemma le_nat_nat_le: "le_nat (nat_le n v) = v mod 256 ^ n"
proof (induction n arbitrary: v)
  case 0
  then show ?case by simp
next
  case (Suc n)
  have "le_nat (nat_le (Suc n) v) = v mod 256 + 256 * (v div 256 mod 256 ^ n)"
    by (simp add: Suc unsigned_of_nat take_bit_eq_mod)
  also have "\<dots> = v mod 256 ^ Suc n"
    by (simp add: mod_mult2_eq)
  finally show ?case .
qed

lemma le_nat_bound: "le_nat bs < 256 ^ length bs"
proof (induction bs)
  case Nil
  then show ?case by simp
next
  case (Cons b bs)
  have "unat b < 256"
    using unsigned_less [of b] by simp
  moreover from Cons have "le_nat bs + 1 \<le> 256 ^ length bs"
    by simp
  then have "256 * (le_nat bs + 1) \<le> 256 * 256 ^ length bs"
    by (rule mult_le_mono2)
  ultimately show ?case by simp
qed

lemma nat_le_le_nat: "nat_le (length bs) (le_nat bs) = bs"
proof (induction bs)
  case Nil
  then show ?case by simp
next
  case (Cons b bs)
  have b: "unat b < 256"
    using unsigned_less [of b] by simp
  have "(256 :: u8) = 0"
    by simp
  then have "word_of_nat (unat b + 256 * le_nat bs) = b"
    by (simp only: of_nat_add of_nat_mult of_nat_numeral) simp
  with b Cons show ?case by simp
qed

lemma dec_enc [simp]:
  assumes "LENGTH('a) \<le> 8 * n"
  shows "dec bo (enc bo n (w :: 'a::len word)) = w"
proof -
  have "unat w < 2 ^ LENGTH('a)"
    by (rule unsigned_less)
  also have "(2::nat) ^ LENGTH('a) \<le> 2 ^ (8 * n)"
    using assms by (simp add: power_increasing)
  finally have "unat w < 256 ^ n"
    by (simp add: power_mult)
  then show ?thesis
    by (simp add: dec_def enc_def le_nat_nat_le)
qed

lemma enc_dec:
  assumes "length bs = n" and "LENGTH('a) = 8 * n"
  shows "enc bo n (dec bo bs :: 'a::len word) = bs"
proof -
  have "le_nat (order_bytes bo bs) < 256 ^ n"
    using le_nat_bound [of "order_bytes bo bs"] assms(1) by simp
  also have "(256::nat) ^ n = 2 ^ LENGTH('a)"
    by (simp add: assms(2) power_mult)
  finally have "unat (dec bo bs :: 'a word) = le_nat (order_bytes bo bs)"
    by (simp add: dec_def unsigned_of_nat take_bit_eq_mod)
  then show ?thesis
    using nat_le_le_nat [of "order_bytes bo bs"] assms(1) by (simp add: enc_def)
qed

subsection \<open>The bits of an encoding\<close>

lemma bit_of_nat_word: "bit (word_of_nat k :: 'a::len word) n \<longleftrightarrow> n < LENGTH('a) \<and> bit k n"
  by transfer (simp add: bit_simps)


lemma bit_le_nat: "bit (le_nat bs) k \<longleftrightarrow> k div 8 < length bs \<and> bit (bs ! (k div 8)) (k mod 8)"
proof (induction bs arbitrary: k)
  case Nil
  then show ?case by simp
next
  case (Cons b bs)
  have or: "unat b + 256 * le_nat bs = or (unat b) (push_bit 8 (le_nat bs))"
  proof -
    have "take_bit 8 (unat b) = unat b"
      using unsigned_less [where w = b and ?'a = nat] by (simp add: take_bit_eq_mod)
    then have "and (unat b) (push_bit 8 (le_nat bs)) = 0"
      by (intro bit_eqI) (auto simp: bit_and_iff bit_push_bit_iff bit_unsigned_iff dest: bit_imp_le_length)
    then have "unat b + push_bit 8 (le_nat bs) = or (unat b) (push_bit 8 (le_nat bs))"
      by (rule disjunctive_add_eq_or)
    then show ?thesis
      by (simp add: push_bit_eq_mult mult.commute)
  qed
  show ?case
  proof (cases "k < 8")
    case True
    then show ?thesis by (simp add: or bit_or_iff bit_push_bit_iff bit_unsigned_iff)
  next
    case False
    then obtain m where k: "k = m + 8"
      by (metis add.commute le_Suc_ex not_less)
    have "(m + 8) div 8 = Suc (m div 8)" "(m + 8) mod 8 = m mod 8"
      by simp_all
    with k Cons.IH [of m] show ?thesis
      by (auto simp: or bit_or_iff bit_push_bit_iff bit_unsigned_iff dest: bit_imp_le_length)
  qed
qed

lemma nth_nat_le: "i < n \<Longrightarrow> nat_le n v ! i = word_of_nat (v div 256 ^ i)"
proof (induction n arbitrary: v i)
  case 0
  then show ?case by simp
next
  case (Suc n)
  then show ?case by (cases i) (auto simp: div_mult2_eq)
qed

lemma bit_nat_le:
  assumes "i < n" and "j < 8"
  shows "bit (nat_le n (unat (w :: 'a::len word)) ! i) j \<longleftrightarrow> bit w (8 * i + j)"
proof -
  have "(256::nat) ^ i = 2 ^ (8 * i)"
    by (simp add: power_mult)
  then have "unat w div 256 ^ i = drop_bit (8 * i) (unat w)"
    by (simp add: drop_bit_eq_div)
  with assms show ?thesis
    by (auto simp: nth_nat_le bit_of_nat_word bit_drop_bit_eq bit_unsigned_iff add.commute
        dest: bit_imp_le_length)
qed

section \<open>Fixed-length encodings\<close>

text \<open>
  The contract of a fixed-length encoding: every value becomes exactly \<open>n\<close> bytes, decoding
  undoes encoding, and any \<open>n\<close> bytes are the encoding of what they decode to. The
  clients are the readers of records that another program wrote.
\<close>

locale byte_codec =
  fixes encode :: "'v \<Rightarrow> u8 list"
    and decode :: "u8 list \<Rightarrow> 'v"
    and valid :: "'v \<Rightarrow> bool"
    and n :: nat
  assumes length_encode: "valid v \<Longrightarrow> length (encode v) = n"
    and decode_encode: "valid v \<Longrightarrow> decode (encode v) = v"
    and encode_decode: "length bs = n \<Longrightarrow> encode (decode bs) = bs"
    and valid_decode: "length bs = n \<Longrightarrow> valid (decode bs)"
begin

lemma encode_inject: "valid v \<Longrightarrow> valid w \<Longrightarrow> encode v = encode w \<Longrightarrow> v = w"
  by (metis decode_encode)

lemma decode_prefix: "valid v \<Longrightarrow> decode (take n (encode v @ rest)) = v"
  by (simp add: length_encode decode_encode)

lemma drop_prefix: "valid v \<Longrightarrow> drop n (encode v @ rest) = rest"
  by (simp add: length_encode)

lemma decode_inject: "length bs = n \<Longrightarrow> length cs = n \<Longrightarrow> decode bs = decode cs \<Longrightarrow> bs = cs"
  by (metis encode_decode)

end

interpretation u16_codec: byte_codec "enc bo 2 :: u16 \<Rightarrow> u8 list" "dec bo" "\<lambda>_. True" 2 for bo
  by unfold_locales (auto simp: enc_dec)

interpretation u32_codec: byte_codec "enc bo 4 :: u32 \<Rightarrow> u8 list" "dec bo" "\<lambda>_. True" 4 for bo
  by unfold_locales (auto simp: enc_dec)

interpretation u64_codec: byte_codec "enc bo 8 :: u64 \<Rightarrow> u8 list" "dec bo" "\<lambda>_. True" 8 for bo
  by unfold_locales (auto simp: enc_dec)

section \<open>Array windows\<close>

text \<open>
  A C function that is handed \<^verbatim>\<open>&buf[off]\<close> and a size sees the window
  \<open>window off n buf\<close>; what it leaves there is put back by \<open>put_at\<close>. A window that
  is not inside the array is a memory error: \<open>None\<close>.
\<close>

definition window :: "nat \<Rightarrow> nat \<Rightarrow> 'a list \<Rightarrow> 'a list option" where
  "window off n buf = (if off + n \<le> length buf then Some (take n (drop off buf)) else None)"

definition put_at :: "nat \<Rightarrow> 'a list \<Rightarrow> 'a list \<Rightarrow> 'a list" where
  "put_at off w buf = take off buf @ w @ drop (off + length w) buf"

lemma length_put_at [len_simps]: "off + length w \<le> length buf \<Longrightarrow> length (put_at off w buf) = length buf"
  by (simp add: put_at_def)

lemma window_put_at: "off + length w \<le> length buf \<Longrightarrow> window off (length w) (put_at off w buf) = Some w"
  by (simp add: window_def put_at_def)

lemma take_put_at: "off + length w \<le> length buf \<Longrightarrow> m \<le> off \<Longrightarrow> take m (put_at off w buf) = take m buf"
  by (simp add: put_at_def min_def)

lemma take_through_put_at:
  assumes "off + length w \<le> length buf" and "m \<le> length w"
  shows "take (off + m) (put_at off w buf) = take off buf @ take m w"
  using assms by (simp add: put_at_def min_def)

section \<open>Go outcomes\<close>

text \<open>A Go call returns, or panics (an index or slice bound out of range).\<close>

datatype 'a go = Ret 'a | Panic

end
