(* ===== verification/Bpf_Types.thy ===== *)
theory Bpf_Types
  imports Prelude
begin

text \<open>
  \<^verbatim>\<open>bpf/types_shim.h\<close> and the C types the BPF sources are written in: the integer types
  of the BPF target (LP64), the typedef names of the shim, their sizes, alignments and
  signedness, and the layout rule of a C struct (each member at the next offset that its
  alignment divides; the size rounded up to the largest alignment).
\<close>

section \<open>Types\<close>

datatype c_type =
    CVoid | CChar | CSChar | CUChar | CShort | CUShort | CInt | CUInt | CLong | CULong | CLongLong | CULongLong
  | T_u8 | T_u16 | T_u32 | T_u64 | T_s8 | T_s16 | T_s32 | T_s64 | T_be16 | T_be32 | T_wsum
  | Const c_type | Ptr c_type | Array c_type nat | Struct string

text \<open>The typedefs of the shim, each unfolded to a type of the compiler.\<close>

fun resolve :: "c_type \<Rightarrow> c_type" where
  "resolve T_u8 = CUChar"
| "resolve T_u16 = CUShort"
| "resolve T_u32 = CUInt"
| "resolve T_u64 = CULongLong"
| "resolve T_s8 = CSChar"
| "resolve T_s16 = CShort"
| "resolve T_s32 = CInt"
| "resolve T_s64 = CLongLong"
| "resolve T_be16 = CUShort"
| "resolve T_be32 = CUInt"
| "resolve T_wsum = CUInt"
| "resolve (Const t) = resolve t"
| "resolve (Array t n) = Array (resolve t) n"
| "resolve t = t"

fun base_size :: "c_type \<Rightarrow> nat option" where
  "base_size CChar = Some 1"
| "base_size CSChar = Some 1"
| "base_size CUChar = Some 1"
| "base_size CShort = Some 2"
| "base_size CUShort = Some 2"
| "base_size CInt = Some 4"
| "base_size CUInt = Some 4"
| "base_size CLong = Some 8"
| "base_size CULong = Some 8"
| "base_size CLongLong = Some 8"
| "base_size CULongLong = Some 8"
| "base_size (Ptr t) = Some 8"
| "base_size (Array t n) = map_option (\<lambda>s. s * n) (base_size t)"
| "base_size _ = None"

text \<open>An incomplete type (\<^verbatim>\<open>void\<close>, a forward-declared struct) has no size.\<close>

definition c_sizeof :: "c_type \<Rightarrow> nat option" where
  "c_sizeof t = base_size (resolve t)"

fun base_align :: "c_type \<Rightarrow> nat" where
  "base_align (Array t n) = base_align t"
| "base_align t = (case base_size t of None \<Rightarrow> 1 | Some s \<Rightarrow> s)"

definition c_alignof :: "c_type \<Rightarrow> nat" where
  "c_alignof t = base_align (resolve t)"

fun signed_base :: "c_type \<Rightarrow> bool" where
  "signed_base CSChar = True"
| "signed_base CShort = True"
| "signed_base CInt = True"
| "signed_base CLong = True"
| "signed_base CLongLong = True"
| "signed_base _ = False"

definition c_signed :: "c_type \<Rightarrow> bool" where
  "c_signed t = signed_base (resolve t)"

fun is_ptr :: "c_type \<Rightarrow> bool" where
  "is_ptr (Ptr t) = True"
| "is_ptr (Const t) = is_ptr t"
| "is_ptr _ = False"

text \<open>The map types of \<^verbatim>\<open>linux/bpf.h\<close> that elmer uses.\<close>

definition BPF_MAP_TYPE_ARRAY :: nat where
  "BPF_MAP_TYPE_ARRAY = 1"

definition BPF_MAP_TYPE_RINGBUF :: nat where
  "BPF_MAP_TYPE_RINGBUF = 27"

section \<open>Struct layout\<close>

definition align_up :: "nat \<Rightarrow> nat \<Rightarrow> nat" where
  "align_up a n = (n + a - 1) div a * a"

text \<open>Members with their offsets, from an offset on; \<open>None\<close> if a member is incomplete.\<close>

fun layout_from :: "nat \<Rightarrow> (string \<times> c_type) list \<Rightarrow> ((string \<times> nat \<times> nat) list \<times> nat) option" where
  "layout_from off [] = Some ([], off)"
| "layout_from off ((f, t) # fs) =
     (case c_sizeof t of
        None \<Rightarrow> None
      | Some s \<Rightarrow>
          (let o' = align_up (c_alignof t) off in
           case layout_from (o' + s) fs of
             None \<Rightarrow> None
           | Some (rest, end) \<Rightarrow> Some ((f, o', s) # rest, end)))"

definition struct_align :: "(string \<times> c_type) list \<Rightarrow> nat" where
  "struct_align fs = fold max (map (c_alignof \<circ> snd) fs) 1"

definition struct_layout :: "(string \<times> c_type) list \<Rightarrow> (string \<times> nat \<times> nat) list option" where
  "struct_layout fs = map_option fst (layout_from 0 fs)"

definition struct_size :: "(string \<times> c_type) list \<Rightarrow> nat option" where
  "struct_size fs = map_option (\<lambda>p. align_up (struct_align fs) (snd p)) (layout_from 0 fs)"

text \<open>No byte of the struct is padding: every member starts where the last one ended.\<close>

fun packed_from :: "nat \<Rightarrow> (string \<times> nat \<times> nat) list \<Rightarrow> nat \<Rightarrow> bool" where
  "packed_from off [] end \<longleftrightarrow> off = end"
| "packed_from off ((f, o', s) # rest) end \<longleftrightarrow> o' = off \<and> packed_from (off + s) rest end"

definition unpadded :: "(string \<times> c_type) list \<Rightarrow> bool" where
  "unpadded fs = (case (struct_layout fs, struct_size fs) of
      (Some l, Some n) \<Rightarrow> packed_from 0 l n
    | _ \<Rightarrow> False)"

lemmas layout_defs [layout_simps] =
  struct_layout_def struct_size_def struct_align_def unpadded_def align_up_def
  c_sizeof_def c_alignof_def

lemma align_up_ge: "0 < a \<Longrightarrow> n \<le> align_up a n"
proof -
  assume "0 < a"
  then have "(n + a - 1) mod a < a" by simp
  moreover have "(n + a - 1) div a * a + (n + a - 1) mod a = n + a - 1"
    by simp
  ultimately show ?thesis unfolding align_up_def using \<open>0 < a\<close> by linarith
qed

lemma align_up_dvd: "a dvd align_up a n"
  by (simp add: align_up_def)

end
