(* ===== verification/Bpf_Endian.thy ===== *)
theory Bpf_Endian
  imports Prelude
begin

text \<open>
  \<^verbatim>\<open>bpf/include/bpf_endian.h\<close>: the byte-swap macros. Each conversion exists twice, as
  shifts and masks for compile-time constants and as a compiler builtin for run-time
  values, and each is the identity when the program is compiled for a big-endian CPU.
  The builtins are given here by what they are documented to do: reverse the bytes.
\<close>

section \<open>Swapping by shifts\<close>

text \<open>
  \<^verbatim>\<open>___bpf_mvb(x, b, n, m)\<close> moves byte \<open>n\<close> of a \<open>b\<close>-bit value to byte \<open>m\<close>. A 16-bit
  operand of a shift is promoted to \<^verbatim>\<open>int\<close> first, so that variant works on 32 bits.
\<close>

definition mvb16 :: "u16 \<Rightarrow> nat \<Rightarrow> nat \<Rightarrow> u32" where
  "mvb16 x n m = push_bit (m * 8) (drop_bit (16 - 8) (push_bit (16 - (n + 1) * 8) (ucast x)))"

definition mvb32 :: "u32 \<Rightarrow> nat \<Rightarrow> nat \<Rightarrow> u32" where
  "mvb32 x n m = push_bit (m * 8) (drop_bit (32 - 8) (push_bit (32 - (n + 1) * 8) x))"

definition mvb64 :: "u64 \<Rightarrow> nat \<Rightarrow> nat \<Rightarrow> u64" where
  "mvb64 x n m = push_bit (m * 8) (drop_bit (64 - 8) (push_bit (64 - (n + 1) * 8) x))"

definition swab16 :: "u16 \<Rightarrow> u16" where
  "swab16 x = ucast (mvb16 x 0 1 OR mvb16 x 1 0)"

definition swab32 :: "u32 \<Rightarrow> u32" where
  "swab32 x = mvb32 x 0 3 OR mvb32 x 1 2 OR mvb32 x 2 1 OR mvb32 x 3 0"

definition swab64 :: "u64 \<Rightarrow> u64" where
  "swab64 x = mvb64 x 0 7 OR mvb64 x 1 6 OR mvb64 x 2 5 OR mvb64 x 3 4 OR
     mvb64 x 4 3 OR mvb64 x 5 2 OR mvb64 x 6 1 OR mvb64 x 7 0"

definition builtin_bswap :: "nat \<Rightarrow> 'a::len word \<Rightarrow> 'a word" where
  "builtin_bswap n w = dec Little (rev (enc Little n w))"

section \<open>The conversions\<close>

definition rt_ntohs :: "byte_order \<Rightarrow> u16 \<Rightarrow> u16" where
  "rt_ntohs bo x = (case bo of Little \<Rightarrow> builtin_bswap 2 x | Big \<Rightarrow> x)"

definition rt_htons :: "byte_order \<Rightarrow> u16 \<Rightarrow> u16" where
  "rt_htons bo x = (case bo of Little \<Rightarrow> builtin_bswap 2 x | Big \<Rightarrow> x)"

definition const_ntohs :: "byte_order \<Rightarrow> u16 \<Rightarrow> u16" where
  "const_ntohs bo x = (case bo of Little \<Rightarrow> swab16 x | Big \<Rightarrow> x)"

definition const_htons :: "byte_order \<Rightarrow> u16 \<Rightarrow> u16" where
  "const_htons bo x = (case bo of Little \<Rightarrow> swab16 x | Big \<Rightarrow> x)"

definition rt_ntohl :: "byte_order \<Rightarrow> u32 \<Rightarrow> u32" where
  "rt_ntohl bo x = (case bo of Little \<Rightarrow> builtin_bswap 4 x | Big \<Rightarrow> x)"

definition rt_htonl :: "byte_order \<Rightarrow> u32 \<Rightarrow> u32" where
  "rt_htonl bo x = (case bo of Little \<Rightarrow> builtin_bswap 4 x | Big \<Rightarrow> x)"

definition const_ntohl :: "byte_order \<Rightarrow> u32 \<Rightarrow> u32" where
  "const_ntohl bo x = (case bo of Little \<Rightarrow> swab32 x | Big \<Rightarrow> x)"

definition const_htonl :: "byte_order \<Rightarrow> u32 \<Rightarrow> u32" where
  "const_htonl bo x = (case bo of Little \<Rightarrow> swab32 x | Big \<Rightarrow> x)"

definition rt_be64_to_cpu :: "byte_order \<Rightarrow> u64 \<Rightarrow> u64" where
  "rt_be64_to_cpu bo x = (case bo of Little \<Rightarrow> builtin_bswap 8 x | Big \<Rightarrow> x)"

definition rt_cpu_to_be64 :: "byte_order \<Rightarrow> u64 \<Rightarrow> u64" where
  "rt_cpu_to_be64 bo x = (case bo of Little \<Rightarrow> builtin_bswap 8 x | Big \<Rightarrow> x)"

definition const_be64_to_cpu :: "byte_order \<Rightarrow> u64 \<Rightarrow> u64" where
  "const_be64_to_cpu bo x = (case bo of Little \<Rightarrow> swab64 x | Big \<Rightarrow> x)"

definition const_cpu_to_be64 :: "byte_order \<Rightarrow> u64 \<Rightarrow> u64" where
  "const_cpu_to_be64 bo x = (case bo of Little \<Rightarrow> swab64 x | Big \<Rightarrow> x)"

text \<open>
  The macros programs use. The first argument is the answer of
  \<^verbatim>\<open>__builtin_constant_p(x)\<close>, which is the compiler's choice.
\<close>

definition bpf_htons :: "bool \<Rightarrow> byte_order \<Rightarrow> u16 \<Rightarrow> u16" where
  "bpf_htons const bo x = (if const then const_htons bo x else rt_htons bo x)"

definition bpf_ntohs :: "bool \<Rightarrow> byte_order \<Rightarrow> u16 \<Rightarrow> u16" where
  "bpf_ntohs const bo x = (if const then const_ntohs bo x else rt_ntohs bo x)"

definition bpf_htonl :: "bool \<Rightarrow> byte_order \<Rightarrow> u32 \<Rightarrow> u32" where
  "bpf_htonl const bo x = (if const then const_htonl bo x else rt_htonl bo x)"

definition bpf_ntohl :: "bool \<Rightarrow> byte_order \<Rightarrow> u32 \<Rightarrow> u32" where
  "bpf_ntohl const bo x = (if const then const_ntohl bo x else rt_ntohl bo x)"

definition bpf_cpu_to_be64 :: "bool \<Rightarrow> byte_order \<Rightarrow> u64 \<Rightarrow> u64" where
  "bpf_cpu_to_be64 const bo x = (if const then const_cpu_to_be64 bo x else rt_cpu_to_be64 bo x)"

definition bpf_be64_to_cpu :: "bool \<Rightarrow> byte_order \<Rightarrow> u64 \<Rightarrow> u64" where
  "bpf_be64_to_cpu const bo x = (if const then const_be64_to_cpu bo x else rt_be64_to_cpu bo x)"

lemmas endian_defs =
  rt_ntohs_def rt_htons_def const_ntohs_def const_htons_def
  rt_ntohl_def rt_htonl_def const_ntohl_def const_htonl_def
  rt_be64_to_cpu_def rt_cpu_to_be64_def const_be64_to_cpu_def const_cpu_to_be64_def
  bpf_htons_def bpf_ntohs_def bpf_htonl_def bpf_ntohl_def bpf_cpu_to_be64_def bpf_be64_to_cpu_def

section \<open>Shifts and builtins agree\<close>

lemma bit_builtin_bswap:
  "k < LENGTH('a) \<Longrightarrow> LENGTH('a) = 8 * n \<Longrightarrow>
   bit (builtin_bswap n (w :: 'a::len word)) k \<longleftrightarrow> bit w (8 * (n - 1 - k div 8) + k mod 8)"
  by (auto simp: builtin_bswap_def dec_def enc_def order_bytes_def bit_of_nat_word bit_le_nat
      rev_nth bit_nat_le less_mult_imp_div_less mult.commute)

text \<open>A bit index is a byte index and an offset in the byte.\<close>

lemma byte_index:
  assumes "k < 8 * n"
  obtains q r where "k = 8 * q + r" and "q < n" and "r < (8::nat)"
proof
  show "k = 8 * (k div 8) + k mod 8" by simp
  show "k div 8 < n" using assms by (simp add: less_mult_imp_div_less mult.commute)
  show "k mod 8 < 8" by simp
qed

text \<open>What one \<open>mvb\<close> contributes: byte \<open>n\<close> of the operand, at byte \<open>m\<close>.\<close>

lemma bit_mvb32:
  assumes "n < 4" and "m < 4" and "q < 4" and "r < 8"
  shows "bit (mvb32 x n m) (8 * q + r) \<longleftrightarrow> q = m \<and> bit x (8 * n + r)"
proof (cases q m rule: linorder_cases)
  case less
  with assms show ?thesis by (simp add: mvb32_def bit_simps)
next
  case equal
  with assms show ?thesis by (auto simp: mvb32_def bit_simps ac_simps)
next
  case greater
  with assms show ?thesis by (auto simp: mvb32_def bit_simps)
qed

lemma bit_mvb64:
  assumes "n < 8" and "m < 8" and "q < 8" and "r < 8"
  shows "bit (mvb64 x n m) (8 * q + r) \<longleftrightarrow> q = m \<and> bit x (8 * n + r)"
proof (cases q m rule: linorder_cases)
  case less
  with assms show ?thesis by (simp add: mvb64_def bit_simps)
next
  case equal
  with assms show ?thesis by (auto simp: mvb64_def bit_simps ac_simps)
next
  case greater
  with assms show ?thesis by (auto simp: mvb64_def bit_simps)
qed

lemma swab16_bswap: "swab16 x = builtin_bswap 2 x"
proof (rule bit_word_eqI)
  fix k assume k: "k < LENGTH(16)"
  then obtain q r where kq: "k = 8 * q + r" and q: "q < 2" and r: "r < 8"
    using byte_index [of k 2] by auto
  from q have "q \<in> {0, 1}" by auto
  with k r show "bit (swab16 x) k = bit (builtin_bswap 2 x) k"
    by (auto simp: kq bit_builtin_bswap swab16_def mvb16_def bit_simps dest: bit_imp_le_length)
qed

lemma swab32_bswap: "swab32 x = builtin_bswap 4 x"
proof (rule bit_word_eqI)
  fix k assume k: "k < LENGTH(32)"
  then obtain q r where kq: "k = 8 * q + r" and q: "q < 4" and r: "r < 8"
    using byte_index [of k 4] by auto
  have "bit (swab32 x) (8 * q + r) \<longleftrightarrow>
      q = 3 \<and> bit x (8 * 0 + r) \<or> q = 2 \<and> bit x (8 * 1 + r) \<or> q = 1 \<and> bit x (8 * 2 + r) \<or> q = 0 \<and> bit x (8 * 3 + r)"
    using q r by (simp add: swab32_def bit_or_iff bit_mvb32 disj_assoc)
  also have "\<dots> \<longleftrightarrow> bit x (8 * (4 - 1 - q) + r)"
  proof -
    from q have "q \<in> {0, 1, 2, 3}" by auto
    then show ?thesis by (elim insertE emptyE) simp_all
  qed
  finally show "bit (swab32 x) k = bit (builtin_bswap 4 x) k"
    using k r by (simp add: kq bit_builtin_bswap)
qed

lemma swab64_bswap: "swab64 x = builtin_bswap 8 x"
proof (rule bit_word_eqI)
  fix k assume k: "k < LENGTH(64)"
  then obtain q r where kq: "k = 8 * q + r" and q: "q < 8" and r: "r < 8"
    using byte_index [of k 8] by auto
  have "bit (swab64 x) (8 * q + r) \<longleftrightarrow>
      q = 7 \<and> bit x (8 * 0 + r) \<or> q = 6 \<and> bit x (8 * 1 + r) \<or> q = 5 \<and> bit x (8 * 2 + r) \<or> q = 4 \<and> bit x (8 * 3 + r) \<or>
      q = 3 \<and> bit x (8 * 4 + r) \<or> q = 2 \<and> bit x (8 * 5 + r) \<or> q = 1 \<and> bit x (8 * 6 + r) \<or> q = 0 \<and> bit x (8 * 7 + r)"
    using q r by (simp add: swab64_def bit_or_iff bit_mvb64 disj_assoc)
  also have "\<dots> \<longleftrightarrow> bit x (8 * (8 - 1 - q) + r)"
  proof -
    from q have "q \<in> {0, 1, 2, 3, 4, 5, 6, 7}" by auto
    then show ?thesis by (elim insertE emptyE) simp_all
  qed
  finally show "bit (swab64 x) k = bit (builtin_bswap 8 x) k"
    using k r by (simp add: kq bit_builtin_bswap)
qed

lemmas swab_bswap = swab16_bswap swab32_bswap swab64_bswap

section \<open>Network order\<close>

text \<open>Loading in the other byte order is loading and swapping.\<close>

lemma bswap_dec:
  assumes "length bs = n" and "LENGTH('a) = 8 * n"
  shows "builtin_bswap n (dec Little bs :: 'a::len word) = dec Big bs"
  using enc_dec [of bs n Little, where ?'a = 'a] assms
  by (simp add: builtin_bswap_def) (simp add: dec_def order_bytes_def)

lemma bswap_bswap:
  assumes "LENGTH('a) = 8 * n"
  shows "builtin_bswap n (builtin_bswap n (w :: 'a::len word)) = w"
  using assms by (simp add: builtin_bswap_def enc_dec)

lemma bswap_enc:
  assumes "LENGTH('a) = 8 * n"
  shows "enc Little n (builtin_bswap n (w :: 'a::len word)) = enc Big n w"
  using assms by (simp add: builtin_bswap_def enc_dec) (simp add: enc_def order_bytes_def)

text \<open>
  Whether the compiler takes a macro's operand for a compile-time
  constant never matters: for every conversion of the header, the shift-and-mask variant
  and the builtin variant give the same value, for both byte orders of the target.
\<close>

theorem endian_variants_agree:
  "bpf_ntohs True bo s = bpf_ntohs False bo s \<and> bpf_htons True bo s = bpf_htons False bo s \<and>
   bpf_ntohl True bo l = bpf_ntohl False bo l \<and> bpf_htonl True bo l = bpf_htonl False bo l \<and>
   bpf_be64_to_cpu True bo d = bpf_be64_to_cpu False bo d \<and>
   bpf_cpu_to_be64 True bo d = bpf_cpu_to_be64 False bo d"
  by (cases bo) (simp_all add: endian_defs swab_bswap)

text \<open>
  Loading a field that holds network-order bytes and converting it gives
  the number those bytes spell, most significant first, on a CPU of either byte order;
  storing a converted number puts its network-order bytes in memory.
\<close>

theorem endian_network_order:
  "bpf_ntohs c bo (dec bo [b0, b1]) = dec Big [b0, b1] \<and>
   bpf_ntohl c bo (dec bo [b0, b1, b2, b3]) = dec Big [b0, b1, b2, b3] \<and>
   bpf_be64_to_cpu c bo (dec bo [b0, b1, b2, b3, b4, b5, b6, b7]) =
     dec Big [b0, b1, b2, b3, b4, b5, b6, b7] \<and>
   enc bo 2 (bpf_htons c bo s) = enc Big 2 s \<and>
   enc bo 4 (bpf_htonl c bo l) = enc Big 4 l \<and>
   enc bo 8 (bpf_cpu_to_be64 c bo d) = enc Big 8 d"
  by (cases bo) (simp_all add: endian_defs swab_bswap bswap_dec bswap_enc)

end
