(* ===== verification/Bpf_Helper_Defs_A.thy ===== *)
theory Bpf_Helper_Defs_A
  imports Bpf_Types
begin

text \<open>
  \<^verbatim>\<open>bpf/include/bpf_helper_defs.h\<close>, first half: the declarations of the kernel's helper
  functions 1 to 90, one definition per declaration. A declaration
  \<^verbatim>\<open>static R (*f)(P, ...) = (void *) N\<close> says which call number \<open>N\<close> the BPF instruction of a
  call to \<open>f\<close> carries and which arguments it passes. The comment above each declaration
  states what the call returns; \<open>h_doc\<close> is the kind of result its \<^emph>\<open>Returns\<close>
  section promises and \<open>h_errors\<close> the error codes that section names.
\<close>

datatype ret_doc =
    NoDoc            \<comment> \<open>no \<^emph>\<open>Returns\<close> section\<close>
  | DocNothing       \<comment> \<open>\<^emph>\<open>Nothing. Always succeeds.\<close>\<close>
  | DocZero          \<comment> \<open>always 0\<close>
  | DocZeroOrNeg     \<comment> \<open>0 on success, a negative error otherwise\<close>
  | DocCountOrNeg    \<comment> \<open>a number on success, a negative error otherwise\<close>
  | DocLenOrNeg      \<comment> \<open>a strictly positive length on success, a negative error otherwise\<close>
  | DocTestOrNeg     \<comment> \<open>0 or 1 for the outcome of a test, or a negative error\<close>
  | DocTest          \<comment> \<open>0 or 1 for the outcome of a test\<close>
  | DocValue         \<comment> \<open>a value; no failure is mentioned\<close>
  | DocValueOrZero   \<comment> \<open>a value, or 0 when there is none\<close>
  | DocVerdict       \<comment> \<open>an action code of the program type (redirect, pass, drop, shot)\<close>
  | DocPtr           \<comment> \<open>a pointer\<close>
  | DocPtrOrNull     \<comment> \<open>a pointer, or NULL\<close>

record helper =
  h_name :: string
  h_ret :: c_type
  h_params :: "(string \<times> c_type) list"
  h_variadic :: bool
  h_id :: nat
  h_doc :: ret_doc
  h_errors :: "string list"

text \<open>The forward declarations at the top: structs the file names but does not define.\<close>

definition forward_structs :: "string list" where
  "forward_structs = [
     ''bpf_fib_lookup'', ''bpf_sk_lookup'', ''bpf_perf_event_data'', ''bpf_perf_event_value'',
     ''bpf_pidns_info'', ''bpf_redir_neigh'', ''bpf_sock'', ''bpf_sock_addr'',
     ''bpf_sock_ops'', ''bpf_sock_tuple'', ''bpf_spin_lock'', ''bpf_sysctl'', ''bpf_tcp_sock'',
     ''bpf_tunnel_key'', ''bpf_xfrm_state'', ''linux_binprm'', ''pt_regs'',
     ''sk_reuseport_md'', ''sockaddr'', ''tcphdr'', ''seq_file'', ''tcp6_sock'', ''tcp_sock'',
     ''tcp_timewait_sock'', ''tcp_request_sock'', ''udp6_sock'', ''unix_sock'',
     ''task_struct'', ''__sk_buff'', ''sk_msg_md'', ''xdp_md'', ''path'', ''btf_ptr'',
     ''inode'', ''socket'', ''file'', ''bpf_timer'']"

definition bpf_map_lookup_elem :: helper where
  "bpf_map_lookup_elem = \<lparr>h_name = ''bpf_map_lookup_elem'', h_ret = Ptr CVoid,
     h_params = [(''map'', Ptr CVoid), (''key'', Ptr (Const CVoid))],
     h_variadic = False, h_id = 1, h_doc = DocPtrOrNull,
     h_errors = []\<rparr>"

definition bpf_map_update_elem :: helper where
  "bpf_map_update_elem = \<lparr>h_name = ''bpf_map_update_elem'', h_ret = CLong,
     h_params = [(''map'', Ptr CVoid), (''key'', Ptr (Const CVoid)), (''value'', Ptr (Const CVoid)), (''flags'', T_u64)],
     h_variadic = False, h_id = 2, h_doc = DocZeroOrNeg,
     h_errors = []\<rparr>"

definition bpf_map_delete_elem :: helper where
  "bpf_map_delete_elem = \<lparr>h_name = ''bpf_map_delete_elem'', h_ret = CLong,
     h_params = [(''map'', Ptr CVoid), (''key'', Ptr (Const CVoid))],
     h_variadic = False, h_id = 3, h_doc = DocZeroOrNeg,
     h_errors = []\<rparr>"

definition bpf_probe_read :: helper where
  "bpf_probe_read = \<lparr>h_name = ''bpf_probe_read'', h_ret = CLong,
     h_params = [(''dst'', Ptr CVoid), (''size'', T_u32), (''unsafe_ptr'', Ptr (Const CVoid))],
     h_variadic = False, h_id = 4, h_doc = DocZeroOrNeg,
     h_errors = []\<rparr>"

definition bpf_ktime_get_ns :: helper where
  "bpf_ktime_get_ns = \<lparr>h_name = ''bpf_ktime_get_ns'', h_ret = T_u64,
     h_params = [],
     h_variadic = False, h_id = 5, h_doc = DocValue,
     h_errors = []\<rparr>"

definition bpf_trace_printk :: helper where
  "bpf_trace_printk = \<lparr>h_name = ''bpf_trace_printk'', h_ret = CLong,
     h_params = [(''fmt'', Ptr (Const CChar)), (''fmt_size'', T_u32)],
     h_variadic = True, h_id = 6, h_doc = DocCountOrNeg,
     h_errors = []\<rparr>"

definition bpf_get_prandom_u32 :: helper where
  "bpf_get_prandom_u32 = \<lparr>h_name = ''bpf_get_prandom_u32'', h_ret = T_u32,
     h_params = [],
     h_variadic = False, h_id = 7, h_doc = DocValue,
     h_errors = []\<rparr>"

definition bpf_get_smp_processor_id :: helper where
  "bpf_get_smp_processor_id = \<lparr>h_name = ''bpf_get_smp_processor_id'', h_ret = T_u32,
     h_params = [],
     h_variadic = False, h_id = 8, h_doc = DocValue,
     h_errors = []\<rparr>"

definition bpf_skb_store_bytes :: helper where
  "bpf_skb_store_bytes = \<lparr>h_name = ''bpf_skb_store_bytes'', h_ret = CLong,
     h_params = [(''skb'', Ptr (Struct ''__sk_buff'')), (''offset'', T_u32), (''from'', Ptr (Const CVoid)), (''len'', T_u32), (''flags'', T_u64)],
     h_variadic = False, h_id = 9, h_doc = DocZeroOrNeg,
     h_errors = []\<rparr>"

definition bpf_l3_csum_replace :: helper where
  "bpf_l3_csum_replace = \<lparr>h_name = ''bpf_l3_csum_replace'', h_ret = CLong,
     h_params = [(''skb'', Ptr (Struct ''__sk_buff'')), (''offset'', T_u32), (''from'', T_u64), (''to'', T_u64), (''size'', T_u64)],
     h_variadic = False, h_id = 10, h_doc = DocZeroOrNeg,
     h_errors = []\<rparr>"

definition bpf_l4_csum_replace :: helper where
  "bpf_l4_csum_replace = \<lparr>h_name = ''bpf_l4_csum_replace'', h_ret = CLong,
     h_params = [(''skb'', Ptr (Struct ''__sk_buff'')), (''offset'', T_u32), (''from'', T_u64), (''to'', T_u64), (''flags'', T_u64)],
     h_variadic = False, h_id = 11, h_doc = DocZeroOrNeg,
     h_errors = []\<rparr>"

definition bpf_tail_call :: helper where
  "bpf_tail_call = \<lparr>h_name = ''bpf_tail_call'', h_ret = CLong,
     h_params = [(''ctx'', Ptr CVoid), (''prog_array_map'', Ptr CVoid), (''index'', T_u32)],
     h_variadic = False, h_id = 12, h_doc = DocZeroOrNeg,
     h_errors = []\<rparr>"

definition bpf_clone_redirect :: helper where
  "bpf_clone_redirect = \<lparr>h_name = ''bpf_clone_redirect'', h_ret = CLong,
     h_params = [(''skb'', Ptr (Struct ''__sk_buff'')), (''ifindex'', T_u32), (''flags'', T_u64)],
     h_variadic = False, h_id = 13, h_doc = DocZeroOrNeg,
     h_errors = []\<rparr>"

definition bpf_get_current_pid_tgid :: helper where
  "bpf_get_current_pid_tgid = \<lparr>h_name = ''bpf_get_current_pid_tgid'', h_ret = T_u64,
     h_params = [],
     h_variadic = False, h_id = 14, h_doc = DocValue,
     h_errors = []\<rparr>"

definition bpf_get_current_uid_gid :: helper where
  "bpf_get_current_uid_gid = \<lparr>h_name = ''bpf_get_current_uid_gid'', h_ret = T_u64,
     h_params = [],
     h_variadic = False, h_id = 15, h_doc = DocValue,
     h_errors = []\<rparr>"

definition bpf_get_current_comm :: helper where
  "bpf_get_current_comm = \<lparr>h_name = ''bpf_get_current_comm'', h_ret = CLong,
     h_params = [(''buf'', Ptr CVoid), (''size_of_buf'', T_u32)],
     h_variadic = False, h_id = 16, h_doc = DocZeroOrNeg,
     h_errors = []\<rparr>"

definition bpf_get_cgroup_classid :: helper where
  "bpf_get_cgroup_classid = \<lparr>h_name = ''bpf_get_cgroup_classid'', h_ret = T_u32,
     h_params = [(''skb'', Ptr (Struct ''__sk_buff''))],
     h_variadic = False, h_id = 17, h_doc = DocValueOrZero,
     h_errors = []\<rparr>"

definition bpf_skb_vlan_push :: helper where
  "bpf_skb_vlan_push = \<lparr>h_name = ''bpf_skb_vlan_push'', h_ret = CLong,
     h_params = [(''skb'', Ptr (Struct ''__sk_buff'')), (''vlan_proto'', T_be16), (''vlan_tci'', T_u16)],
     h_variadic = False, h_id = 18, h_doc = DocZeroOrNeg,
     h_errors = []\<rparr>"

definition bpf_skb_vlan_pop :: helper where
  "bpf_skb_vlan_pop = \<lparr>h_name = ''bpf_skb_vlan_pop'', h_ret = CLong,
     h_params = [(''skb'', Ptr (Struct ''__sk_buff''))],
     h_variadic = False, h_id = 19, h_doc = DocZeroOrNeg,
     h_errors = []\<rparr>"

definition bpf_skb_get_tunnel_key :: helper where
  "bpf_skb_get_tunnel_key = \<lparr>h_name = ''bpf_skb_get_tunnel_key'', h_ret = CLong,
     h_params = [(''skb'', Ptr (Struct ''__sk_buff'')), (''key'', Ptr (Struct ''bpf_tunnel_key'')), (''size'', T_u32), (''flags'', T_u64)],
     h_variadic = False, h_id = 20, h_doc = DocZeroOrNeg,
     h_errors = []\<rparr>"

definition bpf_skb_set_tunnel_key :: helper where
  "bpf_skb_set_tunnel_key = \<lparr>h_name = ''bpf_skb_set_tunnel_key'', h_ret = CLong,
     h_params = [(''skb'', Ptr (Struct ''__sk_buff'')), (''key'', Ptr (Struct ''bpf_tunnel_key'')), (''size'', T_u32), (''flags'', T_u64)],
     h_variadic = False, h_id = 21, h_doc = DocZeroOrNeg,
     h_errors = []\<rparr>"

definition bpf_perf_event_read :: helper where
  "bpf_perf_event_read = \<lparr>h_name = ''bpf_perf_event_read'', h_ret = T_u64,
     h_params = [(''map'', Ptr CVoid), (''flags'', T_u64)],
     h_variadic = False, h_id = 22, h_doc = DocCountOrNeg,
     h_errors = []\<rparr>"

definition bpf_redirect :: helper where
  "bpf_redirect = \<lparr>h_name = ''bpf_redirect'', h_ret = CLong,
     h_params = [(''ifindex'', T_u32), (''flags'', T_u64)],
     h_variadic = False, h_id = 23, h_doc = DocVerdict,
     h_errors = []\<rparr>"

definition bpf_get_route_realm :: helper where
  "bpf_get_route_realm = \<lparr>h_name = ''bpf_get_route_realm'', h_ret = T_u32,
     h_params = [(''skb'', Ptr (Struct ''__sk_buff''))],
     h_variadic = False, h_id = 24, h_doc = DocValueOrZero,
     h_errors = []\<rparr>"

definition bpf_perf_event_output :: helper where
  "bpf_perf_event_output = \<lparr>h_name = ''bpf_perf_event_output'', h_ret = CLong,
     h_params = [(''ctx'', Ptr CVoid), (''map'', Ptr CVoid), (''flags'', T_u64), (''data'', Ptr CVoid), (''size'', T_u64)],
     h_variadic = False, h_id = 25, h_doc = DocZeroOrNeg,
     h_errors = []\<rparr>"

definition bpf_skb_load_bytes :: helper where
  "bpf_skb_load_bytes = \<lparr>h_name = ''bpf_skb_load_bytes'', h_ret = CLong,
     h_params = [(''skb'', Ptr (Const CVoid)), (''offset'', T_u32), (''to'', Ptr CVoid), (''len'', T_u32)],
     h_variadic = False, h_id = 26, h_doc = DocZeroOrNeg,
     h_errors = []\<rparr>"

definition bpf_get_stackid :: helper where
  "bpf_get_stackid = \<lparr>h_name = ''bpf_get_stackid'', h_ret = CLong,
     h_params = [(''ctx'', Ptr CVoid), (''map'', Ptr CVoid), (''flags'', T_u64)],
     h_variadic = False, h_id = 27, h_doc = DocCountOrNeg,
     h_errors = []\<rparr>"

definition bpf_csum_diff :: helper where
  "bpf_csum_diff = \<lparr>h_name = ''bpf_csum_diff'', h_ret = T_s64,
     h_params = [(''from'', Ptr T_be32), (''from_size'', T_u32), (''to'', Ptr T_be32), (''to_size'', T_u32), (''seed'', T_wsum)],
     h_variadic = False, h_id = 28, h_doc = DocCountOrNeg,
     h_errors = []\<rparr>"

definition bpf_skb_get_tunnel_opt :: helper where
  "bpf_skb_get_tunnel_opt = \<lparr>h_name = ''bpf_skb_get_tunnel_opt'', h_ret = CLong,
     h_params = [(''skb'', Ptr (Struct ''__sk_buff'')), (''opt'', Ptr CVoid), (''size'', T_u32)],
     h_variadic = False, h_id = 29, h_doc = DocValue,
     h_errors = []\<rparr>"

definition bpf_skb_set_tunnel_opt :: helper where
  "bpf_skb_set_tunnel_opt = \<lparr>h_name = ''bpf_skb_set_tunnel_opt'', h_ret = CLong,
     h_params = [(''skb'', Ptr (Struct ''__sk_buff'')), (''opt'', Ptr CVoid), (''size'', T_u32)],
     h_variadic = False, h_id = 30, h_doc = DocZeroOrNeg,
     h_errors = []\<rparr>"

definition bpf_skb_change_proto :: helper where
  "bpf_skb_change_proto = \<lparr>h_name = ''bpf_skb_change_proto'', h_ret = CLong,
     h_params = [(''skb'', Ptr (Struct ''__sk_buff'')), (''proto'', T_be16), (''flags'', T_u64)],
     h_variadic = False, h_id = 31, h_doc = DocZeroOrNeg,
     h_errors = []\<rparr>"

definition bpf_skb_change_type :: helper where
  "bpf_skb_change_type = \<lparr>h_name = ''bpf_skb_change_type'', h_ret = CLong,
     h_params = [(''skb'', Ptr (Struct ''__sk_buff'')), (''type'', T_u32)],
     h_variadic = False, h_id = 32, h_doc = DocZeroOrNeg,
     h_errors = []\<rparr>"

definition bpf_skb_under_cgroup :: helper where
  "bpf_skb_under_cgroup = \<lparr>h_name = ''bpf_skb_under_cgroup'', h_ret = CLong,
     h_params = [(''skb'', Ptr (Struct ''__sk_buff'')), (''map'', Ptr CVoid), (''index'', T_u32)],
     h_variadic = False, h_id = 33, h_doc = DocTestOrNeg,
     h_errors = []\<rparr>"

definition bpf_get_hash_recalc :: helper where
  "bpf_get_hash_recalc = \<lparr>h_name = ''bpf_get_hash_recalc'', h_ret = T_u32,
     h_params = [(''skb'', Ptr (Struct ''__sk_buff''))],
     h_variadic = False, h_id = 34, h_doc = DocValue,
     h_errors = []\<rparr>"

definition bpf_get_current_task :: helper where
  "bpf_get_current_task = \<lparr>h_name = ''bpf_get_current_task'', h_ret = T_u64,
     h_params = [],
     h_variadic = False, h_id = 35, h_doc = DocPtr,
     h_errors = []\<rparr>"

definition bpf_probe_write_user :: helper where
  "bpf_probe_write_user = \<lparr>h_name = ''bpf_probe_write_user'', h_ret = CLong,
     h_params = [(''dst'', Ptr CVoid), (''src'', Ptr (Const CVoid)), (''len'', T_u32)],
     h_variadic = False, h_id = 36, h_doc = DocZeroOrNeg,
     h_errors = []\<rparr>"

definition bpf_current_task_under_cgroup :: helper where
  "bpf_current_task_under_cgroup = \<lparr>h_name = ''bpf_current_task_under_cgroup'', h_ret = CLong,
     h_params = [(''map'', Ptr CVoid), (''index'', T_u32)],
     h_variadic = False, h_id = 37, h_doc = DocTestOrNeg,
     h_errors = []\<rparr>"

definition bpf_skb_change_tail :: helper where
  "bpf_skb_change_tail = \<lparr>h_name = ''bpf_skb_change_tail'', h_ret = CLong,
     h_params = [(''skb'', Ptr (Struct ''__sk_buff'')), (''len'', T_u32), (''flags'', T_u64)],
     h_variadic = False, h_id = 38, h_doc = DocZeroOrNeg,
     h_errors = []\<rparr>"

definition bpf_skb_pull_data :: helper where
  "bpf_skb_pull_data = \<lparr>h_name = ''bpf_skb_pull_data'', h_ret = CLong,
     h_params = [(''skb'', Ptr (Struct ''__sk_buff'')), (''len'', T_u32)],
     h_variadic = False, h_id = 39, h_doc = DocZeroOrNeg,
     h_errors = []\<rparr>"

definition bpf_csum_update :: helper where
  "bpf_csum_update = \<lparr>h_name = ''bpf_csum_update'', h_ret = T_s64,
     h_params = [(''skb'', Ptr (Struct ''__sk_buff'')), (''csum'', T_wsum)],
     h_variadic = False, h_id = 40, h_doc = DocCountOrNeg,
     h_errors = []\<rparr>"

definition bpf_set_hash_invalid :: helper where
  "bpf_set_hash_invalid = \<lparr>h_name = ''bpf_set_hash_invalid'', h_ret = CVoid,
     h_params = [(''skb'', Ptr (Struct ''__sk_buff''))],
     h_variadic = False, h_id = 41, h_doc = NoDoc,
     h_errors = []\<rparr>"

definition bpf_get_numa_node_id :: helper where
  "bpf_get_numa_node_id = \<lparr>h_name = ''bpf_get_numa_node_id'', h_ret = CLong,
     h_params = [],
     h_variadic = False, h_id = 42, h_doc = DocValue,
     h_errors = []\<rparr>"

definition bpf_skb_change_head :: helper where
  "bpf_skb_change_head = \<lparr>h_name = ''bpf_skb_change_head'', h_ret = CLong,
     h_params = [(''skb'', Ptr (Struct ''__sk_buff'')), (''len'', T_u32), (''flags'', T_u64)],
     h_variadic = False, h_id = 43, h_doc = DocZeroOrNeg,
     h_errors = []\<rparr>"

definition bpf_xdp_adjust_head :: helper where
  "bpf_xdp_adjust_head = \<lparr>h_name = ''bpf_xdp_adjust_head'', h_ret = CLong,
     h_params = [(''xdp_md'', Ptr (Struct ''xdp_md'')), (''delta'', CInt)],
     h_variadic = False, h_id = 44, h_doc = DocZeroOrNeg,
     h_errors = []\<rparr>"

definition bpf_probe_read_str :: helper where
  "bpf_probe_read_str = \<lparr>h_name = ''bpf_probe_read_str'', h_ret = CLong,
     h_params = [(''dst'', Ptr CVoid), (''size'', T_u32), (''unsafe_ptr'', Ptr (Const CVoid))],
     h_variadic = False, h_id = 45, h_doc = DocLenOrNeg,
     h_errors = []\<rparr>"

definition bpf_get_socket_cookie :: helper where
  "bpf_get_socket_cookie = \<lparr>h_name = ''bpf_get_socket_cookie'', h_ret = T_u64,
     h_params = [(''ctx'', Ptr CVoid)],
     h_variadic = False, h_id = 46, h_doc = DocValueOrZero,
     h_errors = []\<rparr>"

definition bpf_get_socket_uid :: helper where
  "bpf_get_socket_uid = \<lparr>h_name = ''bpf_get_socket_uid'', h_ret = T_u32,
     h_params = [(''skb'', Ptr (Struct ''__sk_buff''))],
     h_variadic = False, h_id = 47, h_doc = DocValue,
     h_errors = []\<rparr>"

definition bpf_set_hash :: helper where
  "bpf_set_hash = \<lparr>h_name = ''bpf_set_hash'', h_ret = CLong,
     h_params = [(''skb'', Ptr (Struct ''__sk_buff'')), (''hash'', T_u32)],
     h_variadic = False, h_id = 48, h_doc = DocZero,
     h_errors = []\<rparr>"

definition bpf_setsockopt :: helper where
  "bpf_setsockopt = \<lparr>h_name = ''bpf_setsockopt'', h_ret = CLong,
     h_params = [(''bpf_socket'', Ptr CVoid), (''level'', CInt), (''optname'', CInt), (''optval'', Ptr CVoid), (''optlen'', CInt)],
     h_variadic = False, h_id = 49, h_doc = DocZeroOrNeg,
     h_errors = []\<rparr>"

definition bpf_skb_adjust_room :: helper where
  "bpf_skb_adjust_room = \<lparr>h_name = ''bpf_skb_adjust_room'', h_ret = CLong,
     h_params = [(''skb'', Ptr (Struct ''__sk_buff'')), (''len_diff'', T_s32), (''mode'', T_u32), (''flags'', T_u64)],
     h_variadic = False, h_id = 50, h_doc = DocZeroOrNeg,
     h_errors = []\<rparr>"

definition bpf_redirect_map :: helper where
  "bpf_redirect_map = \<lparr>h_name = ''bpf_redirect_map'', h_ret = CLong,
     h_params = [(''map'', Ptr CVoid), (''key'', T_u32), (''flags'', T_u64)],
     h_variadic = False, h_id = 51, h_doc = DocVerdict,
     h_errors = []\<rparr>"

definition bpf_sk_redirect_map :: helper where
  "bpf_sk_redirect_map = \<lparr>h_name = ''bpf_sk_redirect_map'', h_ret = CLong,
     h_params = [(''skb'', Ptr (Struct ''__sk_buff'')), (''map'', Ptr CVoid), (''key'', T_u32), (''flags'', T_u64)],
     h_variadic = False, h_id = 52, h_doc = DocVerdict,
     h_errors = []\<rparr>"

definition bpf_sock_map_update :: helper where
  "bpf_sock_map_update = \<lparr>h_name = ''bpf_sock_map_update'', h_ret = CLong,
     h_params = [(''skops'', Ptr (Struct ''bpf_sock_ops'')), (''map'', Ptr CVoid), (''key'', Ptr CVoid), (''flags'', T_u64)],
     h_variadic = False, h_id = 53, h_doc = DocZeroOrNeg,
     h_errors = []\<rparr>"

definition bpf_xdp_adjust_meta :: helper where
  "bpf_xdp_adjust_meta = \<lparr>h_name = ''bpf_xdp_adjust_meta'', h_ret = CLong,
     h_params = [(''xdp_md'', Ptr (Struct ''xdp_md'')), (''delta'', CInt)],
     h_variadic = False, h_id = 54, h_doc = DocZeroOrNeg,
     h_errors = []\<rparr>"

definition bpf_perf_event_read_value :: helper where
  "bpf_perf_event_read_value = \<lparr>h_name = ''bpf_perf_event_read_value'', h_ret = CLong,
     h_params = [(''map'', Ptr CVoid), (''flags'', T_u64), (''buf'', Ptr (Struct ''bpf_perf_event_value'')), (''buf_size'', T_u32)],
     h_variadic = False, h_id = 55, h_doc = DocZeroOrNeg,
     h_errors = []\<rparr>"

definition bpf_perf_prog_read_value :: helper where
  "bpf_perf_prog_read_value = \<lparr>h_name = ''bpf_perf_prog_read_value'', h_ret = CLong,
     h_params = [(''ctx'', Ptr (Struct ''bpf_perf_event_data'')), (''buf'', Ptr (Struct ''bpf_perf_event_value'')), (''buf_size'', T_u32)],
     h_variadic = False, h_id = 56, h_doc = DocZeroOrNeg,
     h_errors = []\<rparr>"

definition bpf_getsockopt :: helper where
  "bpf_getsockopt = \<lparr>h_name = ''bpf_getsockopt'', h_ret = CLong,
     h_params = [(''bpf_socket'', Ptr CVoid), (''level'', CInt), (''optname'', CInt), (''optval'', Ptr CVoid), (''optlen'', CInt)],
     h_variadic = False, h_id = 57, h_doc = DocZeroOrNeg,
     h_errors = []\<rparr>"

definition bpf_override_return :: helper where
  "bpf_override_return = \<lparr>h_name = ''bpf_override_return'', h_ret = CLong,
     h_params = [(''regs'', Ptr (Struct ''pt_regs'')), (''rc'', T_u64)],
     h_variadic = False, h_id = 58, h_doc = DocZero,
     h_errors = []\<rparr>"

definition bpf_sock_ops_cb_flags_set :: helper where
  "bpf_sock_ops_cb_flags_set = \<lparr>h_name = ''bpf_sock_ops_cb_flags_set'', h_ret = CLong,
     h_params = [(''bpf_sock'', Ptr (Struct ''bpf_sock_ops'')), (''argval'', CInt)],
     h_variadic = False, h_id = 59, h_doc = DocCountOrNeg,
     h_errors = [''EINVAL'']\<rparr>"

definition bpf_msg_redirect_map :: helper where
  "bpf_msg_redirect_map = \<lparr>h_name = ''bpf_msg_redirect_map'', h_ret = CLong,
     h_params = [(''msg'', Ptr (Struct ''sk_msg_md'')), (''map'', Ptr CVoid), (''key'', T_u32), (''flags'', T_u64)],
     h_variadic = False, h_id = 60, h_doc = DocVerdict,
     h_errors = []\<rparr>"

definition bpf_msg_apply_bytes :: helper where
  "bpf_msg_apply_bytes = \<lparr>h_name = ''bpf_msg_apply_bytes'', h_ret = CLong,
     h_params = [(''msg'', Ptr (Struct ''sk_msg_md'')), (''bytes'', T_u32)],
     h_variadic = False, h_id = 61, h_doc = DocZero,
     h_errors = []\<rparr>"

definition bpf_msg_cork_bytes :: helper where
  "bpf_msg_cork_bytes = \<lparr>h_name = ''bpf_msg_cork_bytes'', h_ret = CLong,
     h_params = [(''msg'', Ptr (Struct ''sk_msg_md'')), (''bytes'', T_u32)],
     h_variadic = False, h_id = 62, h_doc = DocZero,
     h_errors = []\<rparr>"

definition bpf_msg_pull_data :: helper where
  "bpf_msg_pull_data = \<lparr>h_name = ''bpf_msg_pull_data'', h_ret = CLong,
     h_params = [(''msg'', Ptr (Struct ''sk_msg_md'')), (''start'', T_u32), (''end'', T_u32), (''flags'', T_u64)],
     h_variadic = False, h_id = 63, h_doc = DocZeroOrNeg,
     h_errors = []\<rparr>"

definition bpf_bind :: helper where
  "bpf_bind = \<lparr>h_name = ''bpf_bind'', h_ret = CLong,
     h_params = [(''ctx'', Ptr (Struct ''bpf_sock_addr'')), (''addr'', Ptr (Struct ''sockaddr'')), (''addr_len'', CInt)],
     h_variadic = False, h_id = 64, h_doc = DocZeroOrNeg,
     h_errors = []\<rparr>"

definition bpf_xdp_adjust_tail :: helper where
  "bpf_xdp_adjust_tail = \<lparr>h_name = ''bpf_xdp_adjust_tail'', h_ret = CLong,
     h_params = [(''xdp_md'', Ptr (Struct ''xdp_md'')), (''delta'', CInt)],
     h_variadic = False, h_id = 65, h_doc = DocZeroOrNeg,
     h_errors = []\<rparr>"

definition bpf_skb_get_xfrm_state :: helper where
  "bpf_skb_get_xfrm_state = \<lparr>h_name = ''bpf_skb_get_xfrm_state'', h_ret = CLong,
     h_params = [(''skb'', Ptr (Struct ''__sk_buff'')), (''index'', T_u32), (''xfrm_state'', Ptr (Struct ''bpf_xfrm_state'')), (''size'', T_u32), (''flags'', T_u64)],
     h_variadic = False, h_id = 66, h_doc = DocZeroOrNeg,
     h_errors = []\<rparr>"

definition bpf_get_stack :: helper where
  "bpf_get_stack = \<lparr>h_name = ''bpf_get_stack'', h_ret = CLong,
     h_params = [(''ctx'', Ptr CVoid), (''buf'', Ptr CVoid), (''size'', T_u32), (''flags'', T_u64)],
     h_variadic = False, h_id = 67, h_doc = DocCountOrNeg,
     h_errors = []\<rparr>"

definition bpf_skb_load_bytes_relative :: helper where
  "bpf_skb_load_bytes_relative = \<lparr>h_name = ''bpf_skb_load_bytes_relative'', h_ret = CLong,
     h_params = [(''skb'', Ptr (Const CVoid)), (''offset'', T_u32), (''to'', Ptr CVoid), (''len'', T_u32), (''start_header'', T_u32)],
     h_variadic = False, h_id = 68, h_doc = DocZeroOrNeg,
     h_errors = []\<rparr>"

definition bpf_fib_lookup :: helper where
  "bpf_fib_lookup = \<lparr>h_name = ''bpf_fib_lookup'', h_ret = CLong,
     h_params = [(''ctx'', Ptr CVoid), (''params'', Ptr (Struct ''bpf_fib_lookup'')), (''plen'', CInt), (''flags'', T_u32)],
     h_variadic = False, h_id = 69, h_doc = DocCountOrNeg,
     h_errors = []\<rparr>"

definition bpf_sock_hash_update :: helper where
  "bpf_sock_hash_update = \<lparr>h_name = ''bpf_sock_hash_update'', h_ret = CLong,
     h_params = [(''skops'', Ptr (Struct ''bpf_sock_ops'')), (''map'', Ptr CVoid), (''key'', Ptr CVoid), (''flags'', T_u64)],
     h_variadic = False, h_id = 70, h_doc = DocZeroOrNeg,
     h_errors = []\<rparr>"

definition bpf_msg_redirect_hash :: helper where
  "bpf_msg_redirect_hash = \<lparr>h_name = ''bpf_msg_redirect_hash'', h_ret = CLong,
     h_params = [(''msg'', Ptr (Struct ''sk_msg_md'')), (''map'', Ptr CVoid), (''key'', Ptr CVoid), (''flags'', T_u64)],
     h_variadic = False, h_id = 71, h_doc = DocVerdict,
     h_errors = []\<rparr>"

definition bpf_sk_redirect_hash :: helper where
  "bpf_sk_redirect_hash = \<lparr>h_name = ''bpf_sk_redirect_hash'', h_ret = CLong,
     h_params = [(''skb'', Ptr (Struct ''__sk_buff'')), (''map'', Ptr CVoid), (''key'', Ptr CVoid), (''flags'', T_u64)],
     h_variadic = False, h_id = 72, h_doc = DocVerdict,
     h_errors = []\<rparr>"

definition bpf_lwt_push_encap :: helper where
  "bpf_lwt_push_encap = \<lparr>h_name = ''bpf_lwt_push_encap'', h_ret = CLong,
     h_params = [(''skb'', Ptr (Struct ''__sk_buff'')), (''type'', T_u32), (''hdr'', Ptr CVoid), (''len'', T_u32)],
     h_variadic = False, h_id = 73, h_doc = DocZeroOrNeg,
     h_errors = []\<rparr>"

definition bpf_lwt_seg6_store_bytes :: helper where
  "bpf_lwt_seg6_store_bytes = \<lparr>h_name = ''bpf_lwt_seg6_store_bytes'', h_ret = CLong,
     h_params = [(''skb'', Ptr (Struct ''__sk_buff'')), (''offset'', T_u32), (''from'', Ptr (Const CVoid)), (''len'', T_u32)],
     h_variadic = False, h_id = 74, h_doc = DocZeroOrNeg,
     h_errors = []\<rparr>"

definition bpf_lwt_seg6_adjust_srh :: helper where
  "bpf_lwt_seg6_adjust_srh = \<lparr>h_name = ''bpf_lwt_seg6_adjust_srh'', h_ret = CLong,
     h_params = [(''skb'', Ptr (Struct ''__sk_buff'')), (''offset'', T_u32), (''delta'', T_s32)],
     h_variadic = False, h_id = 75, h_doc = DocZeroOrNeg,
     h_errors = []\<rparr>"

definition bpf_lwt_seg6_action :: helper where
  "bpf_lwt_seg6_action = \<lparr>h_name = ''bpf_lwt_seg6_action'', h_ret = CLong,
     h_params = [(''skb'', Ptr (Struct ''__sk_buff'')), (''action'', T_u32), (''param'', Ptr CVoid), (''param_len'', T_u32)],
     h_variadic = False, h_id = 76, h_doc = DocZeroOrNeg,
     h_errors = []\<rparr>"

definition bpf_rc_repeat :: helper where
  "bpf_rc_repeat = \<lparr>h_name = ''bpf_rc_repeat'', h_ret = CLong,
     h_params = [(''ctx'', Ptr CVoid)],
     h_variadic = False, h_id = 77, h_doc = DocZero,
     h_errors = []\<rparr>"

definition bpf_rc_keydown :: helper where
  "bpf_rc_keydown = \<lparr>h_name = ''bpf_rc_keydown'', h_ret = CLong,
     h_params = [(''ctx'', Ptr CVoid), (''protocol'', T_u32), (''scancode'', T_u64), (''toggle'', T_u32)],
     h_variadic = False, h_id = 78, h_doc = DocZero,
     h_errors = []\<rparr>"

definition bpf_skb_cgroup_id :: helper where
  "bpf_skb_cgroup_id = \<lparr>h_name = ''bpf_skb_cgroup_id'', h_ret = T_u64,
     h_params = [(''skb'', Ptr (Struct ''__sk_buff''))],
     h_variadic = False, h_id = 79, h_doc = DocValueOrZero,
     h_errors = []\<rparr>"

definition bpf_get_current_cgroup_id :: helper where
  "bpf_get_current_cgroup_id = \<lparr>h_name = ''bpf_get_current_cgroup_id'', h_ret = T_u64,
     h_params = [],
     h_variadic = False, h_id = 80, h_doc = DocValue,
     h_errors = []\<rparr>"

definition bpf_get_local_storage :: helper where
  "bpf_get_local_storage = \<lparr>h_name = ''bpf_get_local_storage'', h_ret = Ptr CVoid,
     h_params = [(''map'', Ptr CVoid), (''flags'', T_u64)],
     h_variadic = False, h_id = 81, h_doc = DocPtr,
     h_errors = []\<rparr>"

definition bpf_sk_select_reuseport :: helper where
  "bpf_sk_select_reuseport = \<lparr>h_name = ''bpf_sk_select_reuseport'', h_ret = CLong,
     h_params = [(''reuse'', Ptr (Struct ''sk_reuseport_md'')), (''map'', Ptr CVoid), (''key'', Ptr CVoid), (''flags'', T_u64)],
     h_variadic = False, h_id = 82, h_doc = DocZeroOrNeg,
     h_errors = []\<rparr>"

definition bpf_skb_ancestor_cgroup_id :: helper where
  "bpf_skb_ancestor_cgroup_id = \<lparr>h_name = ''bpf_skb_ancestor_cgroup_id'', h_ret = T_u64,
     h_params = [(''skb'', Ptr (Struct ''__sk_buff'')), (''ancestor_level'', CInt)],
     h_variadic = False, h_id = 83, h_doc = DocValueOrZero,
     h_errors = []\<rparr>"

definition bpf_sk_lookup_tcp :: helper where
  "bpf_sk_lookup_tcp = \<lparr>h_name = ''bpf_sk_lookup_tcp'', h_ret = Ptr (Struct ''bpf_sock''),
     h_params = [(''ctx'', Ptr CVoid), (''tuple'', Ptr (Struct ''bpf_sock_tuple'')), (''tuple_size'', T_u32), (''netns'', T_u64), (''flags'', T_u64)],
     h_variadic = False, h_id = 84, h_doc = DocPtrOrNull,
     h_errors = []\<rparr>"

definition bpf_sk_lookup_udp :: helper where
  "bpf_sk_lookup_udp = \<lparr>h_name = ''bpf_sk_lookup_udp'', h_ret = Ptr (Struct ''bpf_sock''),
     h_params = [(''ctx'', Ptr CVoid), (''tuple'', Ptr (Struct ''bpf_sock_tuple'')), (''tuple_size'', T_u32), (''netns'', T_u64), (''flags'', T_u64)],
     h_variadic = False, h_id = 85, h_doc = DocPtrOrNull,
     h_errors = []\<rparr>"

definition bpf_sk_release :: helper where
  "bpf_sk_release = \<lparr>h_name = ''bpf_sk_release'', h_ret = CLong,
     h_params = [(''sock'', Ptr CVoid)],
     h_variadic = False, h_id = 86, h_doc = DocZeroOrNeg,
     h_errors = []\<rparr>"

definition bpf_map_push_elem :: helper where
  "bpf_map_push_elem = \<lparr>h_name = ''bpf_map_push_elem'', h_ret = CLong,
     h_params = [(''map'', Ptr CVoid), (''value'', Ptr (Const CVoid)), (''flags'', T_u64)],
     h_variadic = False, h_id = 87, h_doc = DocZeroOrNeg,
     h_errors = []\<rparr>"

definition bpf_map_pop_elem :: helper where
  "bpf_map_pop_elem = \<lparr>h_name = ''bpf_map_pop_elem'', h_ret = CLong,
     h_params = [(''map'', Ptr CVoid), (''value'', Ptr CVoid)],
     h_variadic = False, h_id = 88, h_doc = DocZeroOrNeg,
     h_errors = []\<rparr>"

definition bpf_map_peek_elem :: helper where
  "bpf_map_peek_elem = \<lparr>h_name = ''bpf_map_peek_elem'', h_ret = CLong,
     h_params = [(''map'', Ptr CVoid), (''value'', Ptr CVoid)],
     h_variadic = False, h_id = 89, h_doc = DocZeroOrNeg,
     h_errors = []\<rparr>"

definition bpf_msg_push_data :: helper where
  "bpf_msg_push_data = \<lparr>h_name = ''bpf_msg_push_data'', h_ret = CLong,
     h_params = [(''msg'', Ptr (Struct ''sk_msg_md'')), (''start'', T_u32), (''len'', T_u32), (''flags'', T_u64)],
     h_variadic = False, h_id = 90, h_doc = DocZeroOrNeg,
     h_errors = []\<rparr>"

definition helpers_1_90 :: "helper list" where
  "helpers_1_90 = [
     bpf_map_lookup_elem, bpf_map_update_elem, bpf_map_delete_elem, bpf_probe_read,
     bpf_ktime_get_ns, bpf_trace_printk, bpf_get_prandom_u32, bpf_get_smp_processor_id,
     bpf_skb_store_bytes, bpf_l3_csum_replace, bpf_l4_csum_replace, bpf_tail_call,
     bpf_clone_redirect, bpf_get_current_pid_tgid, bpf_get_current_uid_gid,
     bpf_get_current_comm, bpf_get_cgroup_classid, bpf_skb_vlan_push, bpf_skb_vlan_pop,
     bpf_skb_get_tunnel_key, bpf_skb_set_tunnel_key, bpf_perf_event_read, bpf_redirect,
     bpf_get_route_realm, bpf_perf_event_output, bpf_skb_load_bytes, bpf_get_stackid,
     bpf_csum_diff, bpf_skb_get_tunnel_opt, bpf_skb_set_tunnel_opt, bpf_skb_change_proto,
     bpf_skb_change_type, bpf_skb_under_cgroup, bpf_get_hash_recalc, bpf_get_current_task,
     bpf_probe_write_user, bpf_current_task_under_cgroup, bpf_skb_change_tail,
     bpf_skb_pull_data, bpf_csum_update, bpf_set_hash_invalid, bpf_get_numa_node_id,
     bpf_skb_change_head, bpf_xdp_adjust_head, bpf_probe_read_str, bpf_get_socket_cookie,
     bpf_get_socket_uid, bpf_set_hash, bpf_setsockopt, bpf_skb_adjust_room, bpf_redirect_map,
     bpf_sk_redirect_map, bpf_sock_map_update, bpf_xdp_adjust_meta, bpf_perf_event_read_value,
     bpf_perf_prog_read_value, bpf_getsockopt, bpf_override_return, bpf_sock_ops_cb_flags_set,
     bpf_msg_redirect_map, bpf_msg_apply_bytes, bpf_msg_cork_bytes, bpf_msg_pull_data,
     bpf_bind, bpf_xdp_adjust_tail, bpf_skb_get_xfrm_state, bpf_get_stack,
     bpf_skb_load_bytes_relative, bpf_fib_lookup, bpf_sock_hash_update, bpf_msg_redirect_hash,
     bpf_sk_redirect_hash, bpf_lwt_push_encap, bpf_lwt_seg6_store_bytes,
     bpf_lwt_seg6_adjust_srh, bpf_lwt_seg6_action, bpf_rc_repeat, bpf_rc_keydown,
     bpf_skb_cgroup_id, bpf_get_current_cgroup_id, bpf_get_local_storage,
     bpf_sk_select_reuseport, bpf_skb_ancestor_cgroup_id, bpf_sk_lookup_tcp, bpf_sk_lookup_udp,
     bpf_sk_release, bpf_map_push_elem, bpf_map_pop_elem, bpf_map_peek_elem, bpf_msg_push_data]"

lemmas helpers_1_90_decls =
  bpf_map_lookup_elem_def bpf_map_update_elem_def bpf_map_delete_elem_def bpf_probe_read_def
  bpf_ktime_get_ns_def bpf_trace_printk_def bpf_get_prandom_u32_def
  bpf_get_smp_processor_id_def bpf_skb_store_bytes_def bpf_l3_csum_replace_def
  bpf_l4_csum_replace_def bpf_tail_call_def bpf_clone_redirect_def bpf_get_current_pid_tgid_def
  bpf_get_current_uid_gid_def bpf_get_current_comm_def bpf_get_cgroup_classid_def
  bpf_skb_vlan_push_def bpf_skb_vlan_pop_def bpf_skb_get_tunnel_key_def
  bpf_skb_set_tunnel_key_def bpf_perf_event_read_def bpf_redirect_def bpf_get_route_realm_def
  bpf_perf_event_output_def bpf_skb_load_bytes_def bpf_get_stackid_def bpf_csum_diff_def
  bpf_skb_get_tunnel_opt_def bpf_skb_set_tunnel_opt_def bpf_skb_change_proto_def
  bpf_skb_change_type_def bpf_skb_under_cgroup_def bpf_get_hash_recalc_def
  bpf_get_current_task_def bpf_probe_write_user_def bpf_current_task_under_cgroup_def
  bpf_skb_change_tail_def bpf_skb_pull_data_def bpf_csum_update_def bpf_set_hash_invalid_def
  bpf_get_numa_node_id_def bpf_skb_change_head_def bpf_xdp_adjust_head_def
  bpf_probe_read_str_def bpf_get_socket_cookie_def bpf_get_socket_uid_def bpf_set_hash_def
  bpf_setsockopt_def bpf_skb_adjust_room_def bpf_redirect_map_def bpf_sk_redirect_map_def
  bpf_sock_map_update_def bpf_xdp_adjust_meta_def bpf_perf_event_read_value_def
  bpf_perf_prog_read_value_def bpf_getsockopt_def bpf_override_return_def
  bpf_sock_ops_cb_flags_set_def bpf_msg_redirect_map_def bpf_msg_apply_bytes_def
  bpf_msg_cork_bytes_def bpf_msg_pull_data_def bpf_bind_def bpf_xdp_adjust_tail_def
  bpf_skb_get_xfrm_state_def bpf_get_stack_def bpf_skb_load_bytes_relative_def
  bpf_fib_lookup_def bpf_sock_hash_update_def bpf_msg_redirect_hash_def
  bpf_sk_redirect_hash_def bpf_lwt_push_encap_def bpf_lwt_seg6_store_bytes_def
  bpf_lwt_seg6_adjust_srh_def bpf_lwt_seg6_action_def bpf_rc_repeat_def bpf_rc_keydown_def
  bpf_skb_cgroup_id_def bpf_get_current_cgroup_id_def bpf_get_local_storage_def
  bpf_sk_select_reuseport_def bpf_skb_ancestor_cgroup_id_def bpf_sk_lookup_tcp_def
  bpf_sk_lookup_udp_def bpf_sk_release_def bpf_map_push_elem_def bpf_map_pop_elem_def
  bpf_map_peek_elem_def bpf_msg_push_data_def

end
