(* ===== verification/Bpf_Helper_Defs_B.thy ===== *)
theory Bpf_Helper_Defs_B
  imports Bpf_Helper_Defs_A
begin

text \<open>
  \<^verbatim>\<open>bpf/include/bpf_helper_defs.h\<close>, second half: the helper functions 91 to 180, in the
  form of \<^verbatim>\<open>Bpf_Helper_Defs_A\<close>. The helpers elmer calls to read user memory (112, 114)
  and to hand records to userspace (131, 132) are here.
\<close>

definition bpf_msg_pop_data :: helper where
  "bpf_msg_pop_data = \<lparr>h_name = ''bpf_msg_pop_data'', h_ret = CLong,
     h_params = [(''msg'', Ptr (Struct ''sk_msg_md'')), (''start'', T_u32), (''len'', T_u32), (''flags'', T_u64)],
     h_variadic = False, h_id = 91, h_doc = DocZeroOrNeg,
     h_errors = []\<rparr>"

definition bpf_rc_pointer_rel :: helper where
  "bpf_rc_pointer_rel = \<lparr>h_name = ''bpf_rc_pointer_rel'', h_ret = CLong,
     h_params = [(''ctx'', Ptr CVoid), (''rel_x'', T_s32), (''rel_y'', T_s32)],
     h_variadic = False, h_id = 92, h_doc = DocZero,
     h_errors = []\<rparr>"

definition bpf_spin_lock :: helper where
  "bpf_spin_lock = \<lparr>h_name = ''bpf_spin_lock'', h_ret = CLong,
     h_params = [(''lock'', Ptr (Struct ''bpf_spin_lock''))],
     h_variadic = False, h_id = 93, h_doc = DocZero,
     h_errors = []\<rparr>"

definition bpf_spin_unlock :: helper where
  "bpf_spin_unlock = \<lparr>h_name = ''bpf_spin_unlock'', h_ret = CLong,
     h_params = [(''lock'', Ptr (Struct ''bpf_spin_lock''))],
     h_variadic = False, h_id = 94, h_doc = DocZero,
     h_errors = []\<rparr>"

definition bpf_sk_fullsock :: helper where
  "bpf_sk_fullsock = \<lparr>h_name = ''bpf_sk_fullsock'', h_ret = Ptr (Struct ''bpf_sock''),
     h_params = [(''sk'', Ptr (Struct ''bpf_sock''))],
     h_variadic = False, h_id = 95, h_doc = DocPtrOrNull,
     h_errors = []\<rparr>"

definition bpf_tcp_sock :: helper where
  "bpf_tcp_sock = \<lparr>h_name = ''bpf_tcp_sock'', h_ret = Ptr (Struct ''bpf_tcp_sock''),
     h_params = [(''sk'', Ptr (Struct ''bpf_sock''))],
     h_variadic = False, h_id = 96, h_doc = DocPtrOrNull,
     h_errors = []\<rparr>"

definition bpf_skb_ecn_set_ce :: helper where
  "bpf_skb_ecn_set_ce = \<lparr>h_name = ''bpf_skb_ecn_set_ce'', h_ret = CLong,
     h_params = [(''skb'', Ptr (Struct ''__sk_buff''))],
     h_variadic = False, h_id = 97, h_doc = DocTest,
     h_errors = []\<rparr>"

definition bpf_get_listener_sock :: helper where
  "bpf_get_listener_sock = \<lparr>h_name = ''bpf_get_listener_sock'', h_ret = Ptr (Struct ''bpf_sock''),
     h_params = [(''sk'', Ptr (Struct ''bpf_sock''))],
     h_variadic = False, h_id = 98, h_doc = DocPtrOrNull,
     h_errors = []\<rparr>"

definition bpf_skc_lookup_tcp :: helper where
  "bpf_skc_lookup_tcp = \<lparr>h_name = ''bpf_skc_lookup_tcp'', h_ret = Ptr (Struct ''bpf_sock''),
     h_params = [(''ctx'', Ptr CVoid), (''tuple'', Ptr (Struct ''bpf_sock_tuple'')), (''tuple_size'', T_u32), (''netns'', T_u64), (''flags'', T_u64)],
     h_variadic = False, h_id = 99, h_doc = DocPtrOrNull,
     h_errors = []\<rparr>"

definition bpf_tcp_check_syncookie :: helper where
  "bpf_tcp_check_syncookie = \<lparr>h_name = ''bpf_tcp_check_syncookie'', h_ret = CLong,
     h_params = [(''sk'', Ptr CVoid), (''iph'', Ptr CVoid), (''iph_len'', T_u32), (''th'', Ptr (Struct ''tcphdr'')), (''th_len'', T_u32)],
     h_variadic = False, h_id = 100, h_doc = DocZeroOrNeg,
     h_errors = []\<rparr>"

definition bpf_sysctl_get_name :: helper where
  "bpf_sysctl_get_name = \<lparr>h_name = ''bpf_sysctl_get_name'', h_ret = CLong,
     h_params = [(''ctx'', Ptr (Struct ''bpf_sysctl'')), (''buf'', Ptr CChar), (''buf_len'', CULong), (''flags'', T_u64)],
     h_variadic = False, h_id = 101, h_doc = DocCountOrNeg,
     h_errors = [''E2BIG'']\<rparr>"

definition bpf_sysctl_get_current_value :: helper where
  "bpf_sysctl_get_current_value = \<lparr>h_name = ''bpf_sysctl_get_current_value'', h_ret = CLong,
     h_params = [(''ctx'', Ptr (Struct ''bpf_sysctl'')), (''buf'', Ptr CChar), (''buf_len'', CULong)],
     h_variadic = False, h_id = 102, h_doc = DocCountOrNeg,
     h_errors = [''E2BIG'', ''EINVAL'', ''EIO'']\<rparr>"

definition bpf_sysctl_get_new_value :: helper where
  "bpf_sysctl_get_new_value = \<lparr>h_name = ''bpf_sysctl_get_new_value'', h_ret = CLong,
     h_params = [(''ctx'', Ptr (Struct ''bpf_sysctl'')), (''buf'', Ptr CChar), (''buf_len'', CULong)],
     h_variadic = False, h_id = 103, h_doc = DocCountOrNeg,
     h_errors = [''E2BIG'', ''EINVAL'']\<rparr>"

definition bpf_sysctl_set_new_value :: helper where
  "bpf_sysctl_set_new_value = \<lparr>h_name = ''bpf_sysctl_set_new_value'', h_ret = CLong,
     h_params = [(''ctx'', Ptr (Struct ''bpf_sysctl'')), (''buf'', Ptr (Const CChar)), (''buf_len'', CULong)],
     h_variadic = False, h_id = 104, h_doc = DocZeroOrNeg,
     h_errors = [''E2BIG'', ''EINVAL'']\<rparr>"

definition bpf_strtol :: helper where
  "bpf_strtol = \<lparr>h_name = ''bpf_strtol'', h_ret = CLong,
     h_params = [(''buf'', Ptr (Const CChar)), (''buf_len'', CULong), (''flags'', T_u64), (''res'', Ptr CLong)],
     h_variadic = False, h_id = 105, h_doc = DocLenOrNeg,
     h_errors = [''EINVAL'', ''ERANGE'']\<rparr>"

definition bpf_strtoul :: helper where
  "bpf_strtoul = \<lparr>h_name = ''bpf_strtoul'', h_ret = CLong,
     h_params = [(''buf'', Ptr (Const CChar)), (''buf_len'', CULong), (''flags'', T_u64), (''res'', Ptr CULong)],
     h_variadic = False, h_id = 106, h_doc = DocLenOrNeg,
     h_errors = [''EINVAL'', ''ERANGE'']\<rparr>"

definition bpf_sk_storage_get :: helper where
  "bpf_sk_storage_get = \<lparr>h_name = ''bpf_sk_storage_get'', h_ret = Ptr CVoid,
     h_params = [(''map'', Ptr CVoid), (''sk'', Ptr CVoid), (''value'', Ptr CVoid), (''flags'', T_u64)],
     h_variadic = False, h_id = 107, h_doc = DocPtrOrNull,
     h_errors = []\<rparr>"

definition bpf_sk_storage_delete :: helper where
  "bpf_sk_storage_delete = \<lparr>h_name = ''bpf_sk_storage_delete'', h_ret = CLong,
     h_params = [(''map'', Ptr CVoid), (''sk'', Ptr CVoid)],
     h_variadic = False, h_id = 108, h_doc = DocZeroOrNeg,
     h_errors = [''ENOENT'', ''EINVAL'']\<rparr>"

definition bpf_send_signal :: helper where
  "bpf_send_signal = \<lparr>h_name = ''bpf_send_signal'', h_ret = CLong,
     h_params = [(''sig'', T_u32)],
     h_variadic = False, h_id = 109, h_doc = DocZeroOrNeg,
     h_errors = [''EBUSY'', ''EINVAL'', ''EPERM'', ''EAGAIN'']\<rparr>"

definition bpf_tcp_gen_syncookie :: helper where
  "bpf_tcp_gen_syncookie = \<lparr>h_name = ''bpf_tcp_gen_syncookie'', h_ret = T_s64,
     h_params = [(''sk'', Ptr CVoid), (''iph'', Ptr CVoid), (''iph_len'', T_u32), (''th'', Ptr (Struct ''tcphdr'')), (''th_len'', T_u32)],
     h_variadic = False, h_id = 110, h_doc = DocCountOrNeg,
     h_errors = [''EINVAL'', ''ENOENT'', ''EOPNOTSUPP'', ''EPROTONOSUPPORT'']\<rparr>"

definition bpf_skb_output :: helper where
  "bpf_skb_output = \<lparr>h_name = ''bpf_skb_output'', h_ret = CLong,
     h_params = [(''ctx'', Ptr CVoid), (''map'', Ptr CVoid), (''flags'', T_u64), (''data'', Ptr CVoid), (''size'', T_u64)],
     h_variadic = False, h_id = 111, h_doc = DocZeroOrNeg,
     h_errors = []\<rparr>"

definition bpf_probe_read_user :: helper where
  "bpf_probe_read_user = \<lparr>h_name = ''bpf_probe_read_user'', h_ret = CLong,
     h_params = [(''dst'', Ptr CVoid), (''size'', T_u32), (''unsafe_ptr'', Ptr (Const CVoid))],
     h_variadic = False, h_id = 112, h_doc = DocZeroOrNeg,
     h_errors = []\<rparr>"

definition bpf_probe_read_kernel :: helper where
  "bpf_probe_read_kernel = \<lparr>h_name = ''bpf_probe_read_kernel'', h_ret = CLong,
     h_params = [(''dst'', Ptr CVoid), (''size'', T_u32), (''unsafe_ptr'', Ptr (Const CVoid))],
     h_variadic = False, h_id = 113, h_doc = DocZeroOrNeg,
     h_errors = []\<rparr>"

definition bpf_probe_read_user_str :: helper where
  "bpf_probe_read_user_str = \<lparr>h_name = ''bpf_probe_read_user_str'', h_ret = CLong,
     h_params = [(''dst'', Ptr CVoid), (''size'', T_u32), (''unsafe_ptr'', Ptr (Const CVoid))],
     h_variadic = False, h_id = 114, h_doc = DocLenOrNeg,
     h_errors = []\<rparr>"

definition bpf_probe_read_kernel_str :: helper where
  "bpf_probe_read_kernel_str = \<lparr>h_name = ''bpf_probe_read_kernel_str'', h_ret = CLong,
     h_params = [(''dst'', Ptr CVoid), (''size'', T_u32), (''unsafe_ptr'', Ptr (Const CVoid))],
     h_variadic = False, h_id = 115, h_doc = DocLenOrNeg,
     h_errors = []\<rparr>"

definition bpf_tcp_send_ack :: helper where
  "bpf_tcp_send_ack = \<lparr>h_name = ''bpf_tcp_send_ack'', h_ret = CLong,
     h_params = [(''tp'', Ptr CVoid), (''rcv_nxt'', T_u32)],
     h_variadic = False, h_id = 116, h_doc = DocZeroOrNeg,
     h_errors = []\<rparr>"

definition bpf_send_signal_thread :: helper where
  "bpf_send_signal_thread = \<lparr>h_name = ''bpf_send_signal_thread'', h_ret = CLong,
     h_params = [(''sig'', T_u32)],
     h_variadic = False, h_id = 117, h_doc = DocZeroOrNeg,
     h_errors = [''EBUSY'', ''EINVAL'', ''EPERM'', ''EAGAIN'']\<rparr>"

definition bpf_jiffies64 :: helper where
  "bpf_jiffies64 = \<lparr>h_name = ''bpf_jiffies64'', h_ret = T_u64,
     h_params = [],
     h_variadic = False, h_id = 118, h_doc = DocValue,
     h_errors = []\<rparr>"

definition bpf_read_branch_records :: helper where
  "bpf_read_branch_records = \<lparr>h_name = ''bpf_read_branch_records'', h_ret = CLong,
     h_params = [(''ctx'', Ptr (Struct ''bpf_perf_event_data'')), (''buf'', Ptr CVoid), (''size'', T_u32), (''flags'', T_u64)],
     h_variadic = False, h_id = 119, h_doc = DocCountOrNeg,
     h_errors = [''EINVAL'', ''ENOENT'']\<rparr>"

definition bpf_get_ns_current_pid_tgid :: helper where
  "bpf_get_ns_current_pid_tgid = \<lparr>h_name = ''bpf_get_ns_current_pid_tgid'', h_ret = CLong,
     h_params = [(''dev'', T_u64), (''ino'', T_u64), (''nsdata'', Ptr (Struct ''bpf_pidns_info'')), (''size'', T_u32)],
     h_variadic = False, h_id = 120, h_doc = DocZeroOrNeg,
     h_errors = [''EINVAL'', ''ENOENT'']\<rparr>"

definition bpf_xdp_output :: helper where
  "bpf_xdp_output = \<lparr>h_name = ''bpf_xdp_output'', h_ret = CLong,
     h_params = [(''ctx'', Ptr CVoid), (''map'', Ptr CVoid), (''flags'', T_u64), (''data'', Ptr CVoid), (''size'', T_u64)],
     h_variadic = False, h_id = 121, h_doc = DocZeroOrNeg,
     h_errors = []\<rparr>"

definition bpf_get_netns_cookie :: helper where
  "bpf_get_netns_cookie = \<lparr>h_name = ''bpf_get_netns_cookie'', h_ret = T_u64,
     h_params = [(''ctx'', Ptr CVoid)],
     h_variadic = False, h_id = 122, h_doc = DocValue,
     h_errors = []\<rparr>"

definition bpf_get_current_ancestor_cgroup_id :: helper where
  "bpf_get_current_ancestor_cgroup_id = \<lparr>h_name = ''bpf_get_current_ancestor_cgroup_id'', h_ret = T_u64,
     h_params = [(''ancestor_level'', CInt)],
     h_variadic = False, h_id = 123, h_doc = DocValueOrZero,
     h_errors = []\<rparr>"

definition bpf_sk_assign :: helper where
  "bpf_sk_assign = \<lparr>h_name = ''bpf_sk_assign'', h_ret = CLong,
     h_params = [(''ctx'', Ptr CVoid), (''sk'', Ptr CVoid), (''flags'', T_u64)],
     h_variadic = False, h_id = 124, h_doc = DocZeroOrNeg,
     h_errors = [''EINVAL'', ''ENOENT'', ''ENETUNREACH'', ''EOPNOTSUPP'', ''ESOCKTNOSUPPORT'']\<rparr>"

definition bpf_ktime_get_boot_ns :: helper where
  "bpf_ktime_get_boot_ns = \<lparr>h_name = ''bpf_ktime_get_boot_ns'', h_ret = T_u64,
     h_params = [],
     h_variadic = False, h_id = 125, h_doc = DocValue,
     h_errors = []\<rparr>"

definition bpf_seq_printf :: helper where
  "bpf_seq_printf = \<lparr>h_name = ''bpf_seq_printf'', h_ret = CLong,
     h_params = [(''m'', Ptr (Struct ''seq_file'')), (''fmt'', Ptr (Const CChar)), (''fmt_size'', T_u32), (''data'', Ptr (Const CVoid)), (''data_len'', T_u32)],
     h_variadic = False, h_id = 126, h_doc = DocZeroOrNeg,
     h_errors = [''EBUSY'', ''EINVAL'', ''E2BIG'', ''EOVERFLOW'']\<rparr>"

definition bpf_seq_write :: helper where
  "bpf_seq_write = \<lparr>h_name = ''bpf_seq_write'', h_ret = CLong,
     h_params = [(''m'', Ptr (Struct ''seq_file'')), (''data'', Ptr (Const CVoid)), (''len'', T_u32)],
     h_variadic = False, h_id = 127, h_doc = DocZeroOrNeg,
     h_errors = [''EOVERFLOW'']\<rparr>"

definition bpf_sk_cgroup_id :: helper where
  "bpf_sk_cgroup_id = \<lparr>h_name = ''bpf_sk_cgroup_id'', h_ret = T_u64,
     h_params = [(''sk'', Ptr CVoid)],
     h_variadic = False, h_id = 128, h_doc = DocValueOrZero,
     h_errors = []\<rparr>"

definition bpf_sk_ancestor_cgroup_id :: helper where
  "bpf_sk_ancestor_cgroup_id = \<lparr>h_name = ''bpf_sk_ancestor_cgroup_id'', h_ret = T_u64,
     h_params = [(''sk'', Ptr CVoid), (''ancestor_level'', CInt)],
     h_variadic = False, h_id = 129, h_doc = DocValueOrZero,
     h_errors = []\<rparr>"

definition bpf_ringbuf_output :: helper where
  "bpf_ringbuf_output = \<lparr>h_name = ''bpf_ringbuf_output'', h_ret = CLong,
     h_params = [(''ringbuf'', Ptr CVoid), (''data'', Ptr CVoid), (''size'', T_u64), (''flags'', T_u64)],
     h_variadic = False, h_id = 130, h_doc = DocZeroOrNeg,
     h_errors = []\<rparr>"

definition bpf_ringbuf_reserve :: helper where
  "bpf_ringbuf_reserve = \<lparr>h_name = ''bpf_ringbuf_reserve'', h_ret = Ptr CVoid,
     h_params = [(''ringbuf'', Ptr CVoid), (''size'', T_u64), (''flags'', T_u64)],
     h_variadic = False, h_id = 131, h_doc = DocPtrOrNull,
     h_errors = []\<rparr>"

definition bpf_ringbuf_submit :: helper where
  "bpf_ringbuf_submit = \<lparr>h_name = ''bpf_ringbuf_submit'', h_ret = CVoid,
     h_params = [(''data'', Ptr CVoid), (''flags'', T_u64)],
     h_variadic = False, h_id = 132, h_doc = DocNothing,
     h_errors = []\<rparr>"

definition bpf_ringbuf_discard :: helper where
  "bpf_ringbuf_discard = \<lparr>h_name = ''bpf_ringbuf_discard'', h_ret = CVoid,
     h_params = [(''data'', Ptr CVoid), (''flags'', T_u64)],
     h_variadic = False, h_id = 133, h_doc = DocNothing,
     h_errors = []\<rparr>"

definition bpf_ringbuf_query :: helper where
  "bpf_ringbuf_query = \<lparr>h_name = ''bpf_ringbuf_query'', h_ret = T_u64,
     h_params = [(''ringbuf'', Ptr CVoid), (''flags'', T_u64)],
     h_variadic = False, h_id = 134, h_doc = DocValueOrZero,
     h_errors = []\<rparr>"

definition bpf_csum_level :: helper where
  "bpf_csum_level = \<lparr>h_name = ''bpf_csum_level'', h_ret = CLong,
     h_params = [(''skb'', Ptr (Struct ''__sk_buff'')), (''level'', T_u64)],
     h_variadic = False, h_id = 135, h_doc = DocZeroOrNeg,
     h_errors = [''EACCES'']\<rparr>"

definition bpf_skc_to_tcp6_sock :: helper where
  "bpf_skc_to_tcp6_sock = \<lparr>h_name = ''bpf_skc_to_tcp6_sock'', h_ret = Ptr (Struct ''tcp6_sock''),
     h_params = [(''sk'', Ptr CVoid)],
     h_variadic = False, h_id = 136, h_doc = DocPtrOrNull,
     h_errors = []\<rparr>"

definition bpf_skc_to_tcp_sock :: helper where
  "bpf_skc_to_tcp_sock = \<lparr>h_name = ''bpf_skc_to_tcp_sock'', h_ret = Ptr (Struct ''tcp_sock''),
     h_params = [(''sk'', Ptr CVoid)],
     h_variadic = False, h_id = 137, h_doc = DocPtrOrNull,
     h_errors = []\<rparr>"

definition bpf_skc_to_tcp_timewait_sock :: helper where
  "bpf_skc_to_tcp_timewait_sock = \<lparr>h_name = ''bpf_skc_to_tcp_timewait_sock'', h_ret = Ptr (Struct ''tcp_timewait_sock''),
     h_params = [(''sk'', Ptr CVoid)],
     h_variadic = False, h_id = 138, h_doc = DocPtrOrNull,
     h_errors = []\<rparr>"

definition bpf_skc_to_tcp_request_sock :: helper where
  "bpf_skc_to_tcp_request_sock = \<lparr>h_name = ''bpf_skc_to_tcp_request_sock'', h_ret = Ptr (Struct ''tcp_request_sock''),
     h_params = [(''sk'', Ptr CVoid)],
     h_variadic = False, h_id = 139, h_doc = DocPtrOrNull,
     h_errors = []\<rparr>"

definition bpf_skc_to_udp6_sock :: helper where
  "bpf_skc_to_udp6_sock = \<lparr>h_name = ''bpf_skc_to_udp6_sock'', h_ret = Ptr (Struct ''udp6_sock''),
     h_params = [(''sk'', Ptr CVoid)],
     h_variadic = False, h_id = 140, h_doc = DocPtrOrNull,
     h_errors = []\<rparr>"

definition bpf_get_task_stack :: helper where
  "bpf_get_task_stack = \<lparr>h_name = ''bpf_get_task_stack'', h_ret = CLong,
     h_params = [(''task'', Ptr (Struct ''task_struct'')), (''buf'', Ptr CVoid), (''size'', T_u32), (''flags'', T_u64)],
     h_variadic = False, h_id = 141, h_doc = DocCountOrNeg,
     h_errors = []\<rparr>"

definition bpf_load_hdr_opt :: helper where
  "bpf_load_hdr_opt = \<lparr>h_name = ''bpf_load_hdr_opt'', h_ret = CLong,
     h_params = [(''skops'', Ptr (Struct ''bpf_sock_ops'')), (''searchby_res'', Ptr CVoid), (''len'', T_u32), (''flags'', T_u64)],
     h_variadic = False, h_id = 142, h_doc = DocCountOrNeg,
     h_errors = [''EINVAL'', ''ENOMSG'', ''ENOENT'', ''ENOSPC'', ''EFAULT'', ''EPERM'']\<rparr>"

definition bpf_store_hdr_opt :: helper where
  "bpf_store_hdr_opt = \<lparr>h_name = ''bpf_store_hdr_opt'', h_ret = CLong,
     h_params = [(''skops'', Ptr (Struct ''bpf_sock_ops'')), (''from'', Ptr (Const CVoid)), (''len'', T_u32), (''flags'', T_u64)],
     h_variadic = False, h_id = 143, h_doc = DocZeroOrNeg,
     h_errors = [''EINVAL'', ''ENOSPC'', ''EEXIST'', ''EFAULT'', ''EPERM'']\<rparr>"

definition bpf_reserve_hdr_opt :: helper where
  "bpf_reserve_hdr_opt = \<lparr>h_name = ''bpf_reserve_hdr_opt'', h_ret = CLong,
     h_params = [(''skops'', Ptr (Struct ''bpf_sock_ops'')), (''len'', T_u32), (''flags'', T_u64)],
     h_variadic = False, h_id = 144, h_doc = DocZeroOrNeg,
     h_errors = [''EINVAL'', ''ENOSPC'', ''EPERM'']\<rparr>"

definition bpf_inode_storage_get :: helper where
  "bpf_inode_storage_get = \<lparr>h_name = ''bpf_inode_storage_get'', h_ret = Ptr CVoid,
     h_params = [(''map'', Ptr CVoid), (''inode'', Ptr CVoid), (''value'', Ptr CVoid), (''flags'', T_u64)],
     h_variadic = False, h_id = 145, h_doc = DocPtrOrNull,
     h_errors = []\<rparr>"

definition bpf_inode_storage_delete :: helper where
  "bpf_inode_storage_delete = \<lparr>h_name = ''bpf_inode_storage_delete'', h_ret = CInt,
     h_params = [(''map'', Ptr CVoid), (''inode'', Ptr CVoid)],
     h_variadic = False, h_id = 146, h_doc = DocZeroOrNeg,
     h_errors = [''ENOENT'']\<rparr>"

definition bpf_d_path :: helper where
  "bpf_d_path = \<lparr>h_name = ''bpf_d_path'', h_ret = CLong,
     h_params = [(''path'', Ptr (Struct ''path'')), (''buf'', Ptr CChar), (''sz'', T_u32)],
     h_variadic = False, h_id = 147, h_doc = DocLenOrNeg,
     h_errors = []\<rparr>"

definition bpf_copy_from_user :: helper where
  "bpf_copy_from_user = \<lparr>h_name = ''bpf_copy_from_user'', h_ret = CLong,
     h_params = [(''dst'', Ptr CVoid), (''size'', T_u32), (''user_ptr'', Ptr (Const CVoid))],
     h_variadic = False, h_id = 148, h_doc = DocZeroOrNeg,
     h_errors = []\<rparr>"

definition bpf_snprintf_btf :: helper where
  "bpf_snprintf_btf = \<lparr>h_name = ''bpf_snprintf_btf'', h_ret = CLong,
     h_params = [(''str'', Ptr CChar), (''str_size'', T_u32), (''ptr'', Ptr (Struct ''btf_ptr'')), (''btf_ptr_size'', T_u32), (''flags'', T_u64)],
     h_variadic = False, h_id = 149, h_doc = DocCountOrNeg,
     h_errors = []\<rparr>"

definition bpf_seq_printf_btf :: helper where
  "bpf_seq_printf_btf = \<lparr>h_name = ''bpf_seq_printf_btf'', h_ret = CLong,
     h_params = [(''m'', Ptr (Struct ''seq_file'')), (''ptr'', Ptr (Struct ''btf_ptr'')), (''ptr_size'', T_u32), (''flags'', T_u64)],
     h_variadic = False, h_id = 150, h_doc = DocZeroOrNeg,
     h_errors = []\<rparr>"

definition bpf_skb_cgroup_classid :: helper where
  "bpf_skb_cgroup_classid = \<lparr>h_name = ''bpf_skb_cgroup_classid'', h_ret = T_u64,
     h_params = [(''skb'', Ptr (Struct ''__sk_buff''))],
     h_variadic = False, h_id = 151, h_doc = DocValueOrZero,
     h_errors = []\<rparr>"

definition bpf_redirect_neigh :: helper where
  "bpf_redirect_neigh = \<lparr>h_name = ''bpf_redirect_neigh'', h_ret = CLong,
     h_params = [(''ifindex'', T_u32), (''params'', Ptr (Struct ''bpf_redir_neigh'')), (''plen'', CInt), (''flags'', T_u64)],
     h_variadic = False, h_id = 152, h_doc = DocVerdict,
     h_errors = []\<rparr>"

definition bpf_per_cpu_ptr :: helper where
  "bpf_per_cpu_ptr = \<lparr>h_name = ''bpf_per_cpu_ptr'', h_ret = Ptr CVoid,
     h_params = [(''percpu_ptr'', Ptr (Const CVoid)), (''cpu'', T_u32)],
     h_variadic = False, h_id = 153, h_doc = DocPtrOrNull,
     h_errors = []\<rparr>"

definition bpf_this_cpu_ptr :: helper where
  "bpf_this_cpu_ptr = \<lparr>h_name = ''bpf_this_cpu_ptr'', h_ret = Ptr CVoid,
     h_params = [(''percpu_ptr'', Ptr (Const CVoid))],
     h_variadic = False, h_id = 154, h_doc = DocPtr,
     h_errors = []\<rparr>"

definition bpf_redirect_peer :: helper where
  "bpf_redirect_peer = \<lparr>h_name = ''bpf_redirect_peer'', h_ret = CLong,
     h_params = [(''ifindex'', T_u32), (''flags'', T_u64)],
     h_variadic = False, h_id = 155, h_doc = DocVerdict,
     h_errors = []\<rparr>"

definition bpf_task_storage_get :: helper where
  "bpf_task_storage_get = \<lparr>h_name = ''bpf_task_storage_get'', h_ret = Ptr CVoid,
     h_params = [(''map'', Ptr CVoid), (''task'', Ptr (Struct ''task_struct'')), (''value'', Ptr CVoid), (''flags'', T_u64)],
     h_variadic = False, h_id = 156, h_doc = DocPtrOrNull,
     h_errors = []\<rparr>"

definition bpf_task_storage_delete :: helper where
  "bpf_task_storage_delete = \<lparr>h_name = ''bpf_task_storage_delete'', h_ret = CLong,
     h_params = [(''map'', Ptr CVoid), (''task'', Ptr (Struct ''task_struct''))],
     h_variadic = False, h_id = 157, h_doc = DocZeroOrNeg,
     h_errors = [''ENOENT'']\<rparr>"

definition bpf_get_current_task_btf :: helper where
  "bpf_get_current_task_btf = \<lparr>h_name = ''bpf_get_current_task_btf'', h_ret = Ptr (Struct ''task_struct''),
     h_params = [],
     h_variadic = False, h_id = 158, h_doc = DocPtr,
     h_errors = []\<rparr>"

definition bpf_bprm_opts_set :: helper where
  "bpf_bprm_opts_set = \<lparr>h_name = ''bpf_bprm_opts_set'', h_ret = CLong,
     h_params = [(''bprm'', Ptr (Struct ''linux_binprm'')), (''flags'', T_u64)],
     h_variadic = False, h_id = 159, h_doc = DocZeroOrNeg,
     h_errors = [''EINVAL'']\<rparr>"

definition bpf_ktime_get_coarse_ns :: helper where
  "bpf_ktime_get_coarse_ns = \<lparr>h_name = ''bpf_ktime_get_coarse_ns'', h_ret = T_u64,
     h_params = [],
     h_variadic = False, h_id = 160, h_doc = DocValue,
     h_errors = []\<rparr>"

definition bpf_ima_inode_hash :: helper where
  "bpf_ima_inode_hash = \<lparr>h_name = ''bpf_ima_inode_hash'', h_ret = CLong,
     h_params = [(''inode'', Ptr (Struct ''inode'')), (''dst'', Ptr CVoid), (''size'', T_u32)],
     h_variadic = False, h_id = 161, h_doc = DocCountOrNeg,
     h_errors = [''EOPNOTSUP'', ''EINVAL'']\<rparr>"

definition bpf_sock_from_file :: helper where
  "bpf_sock_from_file = \<lparr>h_name = ''bpf_sock_from_file'', h_ret = Ptr (Struct ''socket''),
     h_params = [(''file'', Ptr (Struct ''file''))],
     h_variadic = False, h_id = 162, h_doc = DocPtrOrNull,
     h_errors = []\<rparr>"

definition bpf_check_mtu :: helper where
  "bpf_check_mtu = \<lparr>h_name = ''bpf_check_mtu'', h_ret = CLong,
     h_params = [(''ctx'', Ptr CVoid), (''ifindex'', T_u32), (''mtu_len'', Ptr T_u32), (''len_diff'', T_s32), (''flags'', T_u64)],
     h_variadic = False, h_id = 163, h_doc = DocCountOrNeg,
     h_errors = []\<rparr>"

definition bpf_for_each_map_elem :: helper where
  "bpf_for_each_map_elem = \<lparr>h_name = ''bpf_for_each_map_elem'', h_ret = CLong,
     h_params = [(''map'', Ptr CVoid), (''callback_fn'', Ptr CVoid), (''callback_ctx'', Ptr CVoid), (''flags'', T_u64)],
     h_variadic = False, h_id = 164, h_doc = DocCountOrNeg,
     h_errors = [''EINVAL'']\<rparr>"

definition bpf_snprintf :: helper where
  "bpf_snprintf = \<lparr>h_name = ''bpf_snprintf'', h_ret = CLong,
     h_params = [(''str'', Ptr CChar), (''str_size'', T_u32), (''fmt'', Ptr (Const CChar)), (''data'', Ptr T_u64), (''data_len'', T_u32)],
     h_variadic = False, h_id = 165, h_doc = DocLenOrNeg,
     h_errors = [''EBUSY'']\<rparr>"

definition bpf_sys_bpf :: helper where
  "bpf_sys_bpf = \<lparr>h_name = ''bpf_sys_bpf'', h_ret = CLong,
     h_params = [(''cmd'', T_u32), (''attr'', Ptr CVoid), (''attr_size'', T_u32)],
     h_variadic = False, h_id = 166, h_doc = DocValue,
     h_errors = []\<rparr>"

definition bpf_btf_find_by_name_kind :: helper where
  "bpf_btf_find_by_name_kind = \<lparr>h_name = ''bpf_btf_find_by_name_kind'', h_ret = CLong,
     h_params = [(''name'', Ptr CChar), (''name_sz'', CInt), (''kind'', T_u32), (''flags'', CInt)],
     h_variadic = False, h_id = 167, h_doc = DocValue,
     h_errors = []\<rparr>"

definition bpf_sys_close :: helper where
  "bpf_sys_close = \<lparr>h_name = ''bpf_sys_close'', h_ret = CLong,
     h_params = [(''fd'', T_u32)],
     h_variadic = False, h_id = 168, h_doc = DocValue,
     h_errors = []\<rparr>"

definition bpf_timer_init :: helper where
  "bpf_timer_init = \<lparr>h_name = ''bpf_timer_init'', h_ret = CLong,
     h_params = [(''timer'', Ptr (Struct ''bpf_timer'')), (''map'', Ptr CVoid), (''flags'', T_u64)],
     h_variadic = False, h_id = 169, h_doc = DocZeroOrNeg,
     h_errors = [''EBUSY'', ''EINVAL'', ''EPERM'']\<rparr>"

definition bpf_timer_set_callback :: helper where
  "bpf_timer_set_callback = \<lparr>h_name = ''bpf_timer_set_callback'', h_ret = CLong,
     h_params = [(''timer'', Ptr (Struct ''bpf_timer'')), (''callback_fn'', Ptr CVoid)],
     h_variadic = False, h_id = 170, h_doc = DocZeroOrNeg,
     h_errors = [''EINVAL'', ''EPERM'']\<rparr>"

definition bpf_timer_start :: helper where
  "bpf_timer_start = \<lparr>h_name = ''bpf_timer_start'', h_ret = CLong,
     h_params = [(''timer'', Ptr (Struct ''bpf_timer'')), (''nsecs'', T_u64), (''flags'', T_u64)],
     h_variadic = False, h_id = 171, h_doc = DocZeroOrNeg,
     h_errors = [''EINVAL'']\<rparr>"

definition bpf_timer_cancel :: helper where
  "bpf_timer_cancel = \<lparr>h_name = ''bpf_timer_cancel'', h_ret = CLong,
     h_params = [(''timer'', Ptr (Struct ''bpf_timer''))],
     h_variadic = False, h_id = 172, h_doc = DocTestOrNeg,
     h_errors = [''EINVAL'', ''EDEADLK'']\<rparr>"

definition bpf_get_func_ip :: helper where
  "bpf_get_func_ip = \<lparr>h_name = ''bpf_get_func_ip'', h_ret = T_u64,
     h_params = [(''ctx'', Ptr CVoid)],
     h_variadic = False, h_id = 173, h_doc = DocValue,
     h_errors = []\<rparr>"

definition bpf_get_attach_cookie :: helper where
  "bpf_get_attach_cookie = \<lparr>h_name = ''bpf_get_attach_cookie'', h_ret = T_u64,
     h_params = [(''ctx'', Ptr CVoid)],
     h_variadic = False, h_id = 174, h_doc = DocValueOrZero,
     h_errors = []\<rparr>"

definition bpf_task_pt_regs :: helper where
  "bpf_task_pt_regs = \<lparr>h_name = ''bpf_task_pt_regs'', h_ret = CLong,
     h_params = [(''task'', Ptr (Struct ''task_struct''))],
     h_variadic = False, h_id = 175, h_doc = DocPtr,
     h_errors = []\<rparr>"

definition bpf_get_branch_snapshot :: helper where
  "bpf_get_branch_snapshot = \<lparr>h_name = ''bpf_get_branch_snapshot'', h_ret = CLong,
     h_params = [(''entries'', Ptr CVoid), (''size'', T_u32), (''flags'', T_u64)],
     h_variadic = False, h_id = 176, h_doc = DocCountOrNeg,
     h_errors = [''EINVAL'', ''ENOENT'']\<rparr>"

definition bpf_trace_vprintk :: helper where
  "bpf_trace_vprintk = \<lparr>h_name = ''bpf_trace_vprintk'', h_ret = CLong,
     h_params = [(''fmt'', Ptr (Const CChar)), (''fmt_size'', T_u32), (''data'', Ptr (Const CVoid)), (''data_len'', T_u32)],
     h_variadic = False, h_id = 177, h_doc = DocCountOrNeg,
     h_errors = []\<rparr>"

definition bpf_skc_to_unix_sock :: helper where
  "bpf_skc_to_unix_sock = \<lparr>h_name = ''bpf_skc_to_unix_sock'', h_ret = Ptr (Struct ''unix_sock''),
     h_params = [(''sk'', Ptr CVoid)],
     h_variadic = False, h_id = 178, h_doc = DocPtrOrNull,
     h_errors = []\<rparr>"

definition bpf_kallsyms_lookup_name :: helper where
  "bpf_kallsyms_lookup_name = \<lparr>h_name = ''bpf_kallsyms_lookup_name'', h_ret = CLong,
     h_params = [(''name'', Ptr (Const CChar)), (''name_sz'', CInt), (''flags'', CInt), (''res'', Ptr T_u64)],
     h_variadic = False, h_id = 179, h_doc = DocZeroOrNeg,
     h_errors = [''EINVAL'', ''ENOENT'', ''EPERM'']\<rparr>"

definition bpf_find_vma :: helper where
  "bpf_find_vma = \<lparr>h_name = ''bpf_find_vma'', h_ret = CLong,
     h_params = [(''task'', Ptr (Struct ''task_struct'')), (''addr'', T_u64), (''callback_fn'', Ptr CVoid), (''callback_ctx'', Ptr CVoid), (''flags'', T_u64)],
     h_variadic = False, h_id = 180, h_doc = DocZeroOrNeg,
     h_errors = [''ENOENT'', ''EBUSY'', ''EINVAL'']\<rparr>"

definition helpers_91_180 :: "helper list" where
  "helpers_91_180 = [
     bpf_msg_pop_data, bpf_rc_pointer_rel, bpf_spin_lock, bpf_spin_unlock, bpf_sk_fullsock,
     bpf_tcp_sock, bpf_skb_ecn_set_ce, bpf_get_listener_sock, bpf_skc_lookup_tcp,
     bpf_tcp_check_syncookie, bpf_sysctl_get_name, bpf_sysctl_get_current_value,
     bpf_sysctl_get_new_value, bpf_sysctl_set_new_value, bpf_strtol, bpf_strtoul,
     bpf_sk_storage_get, bpf_sk_storage_delete, bpf_send_signal, bpf_tcp_gen_syncookie,
     bpf_skb_output, bpf_probe_read_user, bpf_probe_read_kernel, bpf_probe_read_user_str,
     bpf_probe_read_kernel_str, bpf_tcp_send_ack, bpf_send_signal_thread, bpf_jiffies64,
     bpf_read_branch_records, bpf_get_ns_current_pid_tgid, bpf_xdp_output,
     bpf_get_netns_cookie, bpf_get_current_ancestor_cgroup_id, bpf_sk_assign,
     bpf_ktime_get_boot_ns, bpf_seq_printf, bpf_seq_write, bpf_sk_cgroup_id,
     bpf_sk_ancestor_cgroup_id, bpf_ringbuf_output, bpf_ringbuf_reserve, bpf_ringbuf_submit,
     bpf_ringbuf_discard, bpf_ringbuf_query, bpf_csum_level, bpf_skc_to_tcp6_sock,
     bpf_skc_to_tcp_sock, bpf_skc_to_tcp_timewait_sock, bpf_skc_to_tcp_request_sock,
     bpf_skc_to_udp6_sock, bpf_get_task_stack, bpf_load_hdr_opt, bpf_store_hdr_opt,
     bpf_reserve_hdr_opt, bpf_inode_storage_get, bpf_inode_storage_delete, bpf_d_path,
     bpf_copy_from_user, bpf_snprintf_btf, bpf_seq_printf_btf, bpf_skb_cgroup_classid,
     bpf_redirect_neigh, bpf_per_cpu_ptr, bpf_this_cpu_ptr, bpf_redirect_peer,
     bpf_task_storage_get, bpf_task_storage_delete, bpf_get_current_task_btf,
     bpf_bprm_opts_set, bpf_ktime_get_coarse_ns, bpf_ima_inode_hash, bpf_sock_from_file,
     bpf_check_mtu, bpf_for_each_map_elem, bpf_snprintf, bpf_sys_bpf,
     bpf_btf_find_by_name_kind, bpf_sys_close, bpf_timer_init, bpf_timer_set_callback,
     bpf_timer_start, bpf_timer_cancel, bpf_get_func_ip, bpf_get_attach_cookie,
     bpf_task_pt_regs, bpf_get_branch_snapshot, bpf_trace_vprintk, bpf_skc_to_unix_sock,
     bpf_kallsyms_lookup_name, bpf_find_vma]"

lemmas helpers_91_180_decls =
  bpf_msg_pop_data_def bpf_rc_pointer_rel_def bpf_spin_lock_def bpf_spin_unlock_def
  bpf_sk_fullsock_def bpf_tcp_sock_def bpf_skb_ecn_set_ce_def bpf_get_listener_sock_def
  bpf_skc_lookup_tcp_def bpf_tcp_check_syncookie_def bpf_sysctl_get_name_def
  bpf_sysctl_get_current_value_def bpf_sysctl_get_new_value_def bpf_sysctl_set_new_value_def
  bpf_strtol_def bpf_strtoul_def bpf_sk_storage_get_def bpf_sk_storage_delete_def
  bpf_send_signal_def bpf_tcp_gen_syncookie_def bpf_skb_output_def bpf_probe_read_user_def
  bpf_probe_read_kernel_def bpf_probe_read_user_str_def bpf_probe_read_kernel_str_def
  bpf_tcp_send_ack_def bpf_send_signal_thread_def bpf_jiffies64_def bpf_read_branch_records_def
  bpf_get_ns_current_pid_tgid_def bpf_xdp_output_def bpf_get_netns_cookie_def
  bpf_get_current_ancestor_cgroup_id_def bpf_sk_assign_def bpf_ktime_get_boot_ns_def
  bpf_seq_printf_def bpf_seq_write_def bpf_sk_cgroup_id_def bpf_sk_ancestor_cgroup_id_def
  bpf_ringbuf_output_def bpf_ringbuf_reserve_def bpf_ringbuf_submit_def bpf_ringbuf_discard_def
  bpf_ringbuf_query_def bpf_csum_level_def bpf_skc_to_tcp6_sock_def bpf_skc_to_tcp_sock_def
  bpf_skc_to_tcp_timewait_sock_def bpf_skc_to_tcp_request_sock_def bpf_skc_to_udp6_sock_def
  bpf_get_task_stack_def bpf_load_hdr_opt_def bpf_store_hdr_opt_def bpf_reserve_hdr_opt_def
  bpf_inode_storage_get_def bpf_inode_storage_delete_def bpf_d_path_def bpf_copy_from_user_def
  bpf_snprintf_btf_def bpf_seq_printf_btf_def bpf_skb_cgroup_classid_def bpf_redirect_neigh_def
  bpf_per_cpu_ptr_def bpf_this_cpu_ptr_def bpf_redirect_peer_def bpf_task_storage_get_def
  bpf_task_storage_delete_def bpf_get_current_task_btf_def bpf_bprm_opts_set_def
  bpf_ktime_get_coarse_ns_def bpf_ima_inode_hash_def bpf_sock_from_file_def bpf_check_mtu_def
  bpf_for_each_map_elem_def bpf_snprintf_def bpf_sys_bpf_def bpf_btf_find_by_name_kind_def
  bpf_sys_close_def bpf_timer_init_def bpf_timer_set_callback_def bpf_timer_start_def
  bpf_timer_cancel_def bpf_get_func_ip_def bpf_get_attach_cookie_def bpf_task_pt_regs_def
  bpf_get_branch_snapshot_def bpf_trace_vprintk_def bpf_skc_to_unix_sock_def
  bpf_kallsyms_lookup_name_def bpf_find_vma_def

end
