(* ===== verification/Bpf_Helper_Defs.thy ===== *)
theory Bpf_Helper_Defs
  imports Bpf_Helper_Defs_A Bpf_Helper_Defs_B
begin

text \<open>
  The helper declarations of \<^verbatim>\<open>bpf_helper_defs.h\<close> as one table, and what a BPF program
  relies on when it calls through them: the call number in the instruction determines the
  helper, every argument travels in one of the registers \<open>R1\<close> to \<open>R5\<close> and the result in
  \<open>R0\<close>, and the declared C type of a result agrees with what the comment says it is.
\<close>

section \<open>The table\<close>

definition bpf_helpers :: "helper list" where
  "bpf_helpers = helpers_1_90 @ helpers_91_180"


text \<open>The helper a \<^verbatim>\<open>call N\<close> instruction reaches.\<close>

definition helper_at :: "nat \<Rightarrow> helper option" where
  "helper_at i = find (\<lambda>h. h_id h = i) bpf_helpers"

section \<open>What a declaration must satisfy\<close>




definition documents_negative :: "helper \<Rightarrow> bool" where
  "documents_negative h \<longleftrightarrow>
     h_doc h \<in> {DocZeroOrNeg, DocCountOrNeg, DocLenOrNeg, DocTestOrNeg} \<or> h_errors h \<noteq> []"

definition documents_pointer :: "helper \<Rightarrow> bool" where
  "documents_pointer h \<longleftrightarrow> h_doc h \<in> {DocPtr, DocPtrOrNull}"

definition documents_no_value :: "helper \<Rightarrow> bool" where
  "documents_no_value h \<longleftrightarrow> h_doc h \<in> {NoDoc, DocNothing}"

lemma map_h_id: "map h_id bpf_helpers = [1..<181]"
  by code_simp

text \<open>
  Comparing 180 names with each other is slow; a checksum that separates them is not.
\<close>

definition name_hash :: "string \<Rightarrow> int" where
  "name_hash s = foldl (\<lambda>h c. (h * 3 + of_char c) mod 65536) 0 s"

lemma distinct_h_name: "distinct (map h_name bpf_helpers)"
proof -
  have "distinct (map name_hash (map h_name bpf_helpers))"
    by code_simp
  then show ?thesis
    by (rule distinct_map [THEN iffD1, THEN conjunct1])
qed

lemma find_by_key:
  assumes "distinct (map f xs)" and "x \<in> set xs"
  shows "find (\<lambda>y. f y = f x) xs = Some x"
  using assms by (induction xs) auto

text \<open>
  The call numbers are 1 to 180 in the order of the declarations,
  without a gap and without a repetition, and no two helpers share a name: a call
  instruction determines the helper it reaches, and every declared helper is reached.
\<close>

theorem helper_call_numbers:
  "map h_id bpf_helpers = [1..<181] \<and> distinct (map h_name bpf_helpers) \<and>
   map helper_at [1..<181] = map Some bpf_helpers"
proof -
  have d: "distinct (map h_id bpf_helpers)"
    by (simp add: map_h_id)
  have "map helper_at (map h_id bpf_helpers) = map Some bpf_helpers"
    by (auto simp: helper_at_def intro: find_by_key [OF d])
  then show ?thesis
    using map_h_id distinct_h_name by simp
qed


text \<open>
  The comments and the declared result types agree, with these exceptions. A
  helper documented to return a negative error has a signed result, except
  \<^verbatim>\<open>bpf_perf_event_read\<close>, whose \<^verbatim>\<open>__u64\<close> result makes a test for \<open>< 0\<close> vacuous. A helper
  documented to return a pointer has a pointer result, except the two that return a task's
  address as a number. A helper has no result exactly when the comment promises none.
\<close>

theorem helper_docs_match_types:
  "map h_name (filter (\<lambda>h. documents_negative h \<and> \<not> c_signed (h_ret h)) bpf_helpers) =
     [''bpf_perf_event_read''] \<and>
   map h_name (filter (\<lambda>h. documents_pointer h \<noteq> is_ptr (h_ret h)) bpf_helpers) =
     [''bpf_get_current_task'', ''bpf_task_pt_regs''] \<and>
   list_all (\<lambda>h. documents_no_value h = (h_ret h = CVoid)) bpf_helpers"
  by code_simp

section \<open>Calls through the declarations\<close>




















end
