(* ===== verification/Bpf_Helpers.thy ===== *)
theory Bpf_Helpers
  imports Bpf_Helper_Defs_A Bpf_Helper_Defs_B
begin

text \<open>
  \<^verbatim>\<open>bpf/include/bpf_helpers.h\<close>: the macros around the helper declarations. Macro
  expansion is modelled on lists of arguments: a macro that selects another macro by the
  number of its arguments computes that number first, and an expansion that would name a
  macro that does not exist, or leave a required argument out, is \<open>None\<close> (a program that
  does not compile).
\<close>

section \<open>Map members, versions, offsets\<close>

text \<open>
  \<^verbatim>\<open>__uint\<close>, \<^verbatim>\<open>__type\<close> and \<^verbatim>\<open>__array\<close> put a number or a type into the type of a member, where
  the loader finds it in the debug information.
\<close>

definition bpf_uint :: "string \<Rightarrow> nat \<Rightarrow> string \<times> c_type" where
  "bpf_uint name val = (name, Ptr (Array CInt val))"

definition bpf_type :: "string \<Rightarrow> c_type \<Rightarrow> string \<times> c_type" where
  "bpf_type name val = (name, Ptr val)"

definition bpf_array :: "string \<Rightarrow> c_type \<Rightarrow> string \<times> c_type" where
  "bpf_array name val = (name, Array (Ptr val) 0)" \<comment> \<open>\<^verbatim>\<open>name[]\<close>: no elements of its own\<close>

fun uint_member :: "(string \<times> c_type) list \<Rightarrow> string \<Rightarrow> nat option" where
  "uint_member ms f = (case map_of ms f of Some (Ptr (Array CInt n)) \<Rightarrow> Some n | _ \<Rightarrow> None)"

definition KERNEL_VERSION :: "nat \<Rightarrow> nat \<Rightarrow> nat \<Rightarrow> nat" where
  "KERNEL_VERSION a b c = push_bit 16 a + push_bit 8 b + (if c > 255 then 255 else c)"

definition c_offsetof :: "(string \<times> c_type) list \<Rightarrow> string \<Rightarrow> nat option" where
  "c_offsetof fs f = Option.bind (struct_layout fs) (\<lambda>l. map_option fst (map_of l f))"

definition c_container_of :: "u64 \<Rightarrow> (string \<times> c_type) list \<Rightarrow> string \<Rightarrow> u64 option" where
  "c_container_of ptr fs f = map_option (\<lambda>o'. ptr - of_nat o') (c_offsetof fs f)"

section \<open>Declarations for the loader\<close>

definition bpf_map_def :: "(string \<times> c_type) list" where
  "bpf_map_def = [(''type'', CUInt), (''key_size'', CUInt), (''value_size'', CUInt),
     (''max_entries'', CUInt), (''map_flags'', CUInt)]"

datatype libbpf_pin_type = LIBBPF_PIN_NONE | LIBBPF_PIN_BY_NAME

fun pin_type_value :: "libbpf_pin_type \<Rightarrow> nat" where
  "pin_type_value LIBBPF_PIN_NONE = 0"
| "pin_type_value LIBBPF_PIN_BY_NAME = 1"

datatype libbpf_tristate = TRI_NO | TRI_YES | TRI_MODULE

fun tristate_value :: "libbpf_tristate \<Rightarrow> nat" where
  "tristate_value TRI_NO = 0"
| "tristate_value TRI_YES = 1"
| "tristate_value TRI_MODULE = 2"

section \<open>The static tail call\<close>

datatype reg = R0 | R1 | R2 | R3 | R4 | R5

datatype operand = OCtx u64 | OMap u64 | OSlot u32

datatype insn = Mov reg operand | Call nat

record asm_block =
  asm_code :: "insn list"
  asm_clobbers :: "reg list"

text \<open>
  \<^verbatim>\<open>bpf_tail_call_static\<close>: the three arguments in \<open>R1\<close> to \<open>R3\<close> and a literal \<^verbatim>\<open>call 12\<close>.
  A slot that is no compile-time constant is a build error.
\<close>

definition bpf_tail_call_static :: "bool \<Rightarrow> u64 \<Rightarrow> u64 \<Rightarrow> u32 \<Rightarrow> asm_block option" where
  "bpf_tail_call_static slot_constant ctx map_ptr slot =
     (if \<not> slot_constant then None
      else Some \<lparr>asm_code = [Mov R1 (OCtx ctx), Mov R2 (OMap map_ptr), Mov R3 (OSlot slot), Call 12],
                 asm_clobbers = [R0, R1, R2, R3, R4, R5]\<rparr>)"

section \<open>Counting macro arguments\<close>

datatype 'a token = Blank | Arg 'a | Num nat

text \<open>
  \<^verbatim>\<open>___bpf_nth\<close> names thirteen arguments before the one it keeps, so it keeps the one at
  index 13; what follows is dropped.
\<close>

definition bpf_nth :: "'t list \<Rightarrow> 't option" where
  "bpf_nth ts = (if 13 < length ts then Some (ts ! 13) else None)"

definition bpf_narg :: "'a list \<Rightarrow> 'a token option" where
  "bpf_narg args = bpf_nth (Blank # map Arg args @
     map Num [12, 11, 10, 9, 8, 7, 6, 5, 4, 3, 2, 1, 0])"

text \<open>
  \<^verbatim>\<open>___bpf_apply(fn, n)\<close> pastes \<open>n\<close> to the macro's name: there is a macro for the numbers
  up to \<open>max_n\<close> and for nothing else.
\<close>

definition bpf_apply :: "nat \<Rightarrow> 'a token option \<Rightarrow> nat option" where
  "bpf_apply max_n t = (case t of Some (Num n) \<Rightarrow> if n \<le> max_n then Some n else None | _ \<Rightarrow> None)"

text \<open>\<^verbatim>\<open>___bpf_fill0\<close> to \<^verbatim>\<open>___bpf_fill12\<close>: assignments to \<^verbatim>\<open>arr[p]\<close>, \<^verbatim>\<open>arr[p + 1]\<close>, \<dots>\<close>

fun bpf_fill_n :: "nat \<Rightarrow> 'a list \<Rightarrow> nat \<Rightarrow> 'a list \<Rightarrow> 'a list option" where
  "bpf_fill_n 0 arr p args = Some arr"
| "bpf_fill_n (Suc n) arr p [] = None"
| "bpf_fill_n (Suc n) arr p (x # args) =
     (if p < length arr then bpf_fill_n n (arr[p := x]) (p + 1) args else None)"

definition bpf_fill :: "'a list \<Rightarrow> 'a list \<Rightarrow> 'a list option" where
  "bpf_fill arr args =
     (case bpf_apply 12 (bpf_narg args) of
        None \<Rightarrow> None
      | Some n \<Rightarrow> bpf_fill_n n arr 0 args)"

section \<open>Formatted output\<close>

datatype call_arg = APtr u64 | AStr string | ANum nat | AWords "u64 list" | AWord u64

type_synonym helper_call = "helper \<times> call_arg list"

definition sizeof_literal :: "string \<Rightarrow> nat" where
  "sizeof_literal fmt = length fmt + 1"

text \<open>
  The parameter array of the three wrappers: \<^verbatim>\<open>___param[___bpf_narg(args)]\<close>, whose initial
  contents are the \<open>junk\<close> of the stack, filled from the arguments.
\<close>

definition param_array :: "(nat \<Rightarrow> u64) \<Rightarrow> u64 list \<Rightarrow> u64 list option" where
  "param_array junk args =
     (case bpf_apply 12 (bpf_narg args) of
        None \<Rightarrow> None
      | Some n \<Rightarrow> bpf_fill (map junk [0..<n]) args)"

definition BPF_SEQ_PRINTF :: "(nat \<Rightarrow> u64) \<Rightarrow> u64 \<Rightarrow> string \<Rightarrow> u64 list \<Rightarrow> helper_call option" where
  "BPF_SEQ_PRINTF junk seq fmt args = map_option (\<lambda>param.
     (bpf_seq_printf, [APtr seq, AStr fmt, ANum (sizeof_literal fmt), AWords param,
        ANum (8 * length param)])) (param_array junk args)"

definition BPF_SNPRINTF ::
  "(nat \<Rightarrow> u64) \<Rightarrow> u64 \<Rightarrow> nat \<Rightarrow> string \<Rightarrow> u64 list \<Rightarrow> helper_call option" where
  "BPF_SNPRINTF junk out out_size fmt args = map_option (\<lambda>param.
     (bpf_snprintf, [APtr out, ANum out_size, AStr fmt, AWords param, ANum (8 * length param)]))
     (param_array junk args)"

definition bpf_printk_few :: "string \<Rightarrow> u64 list \<Rightarrow> helper_call option" where
  "bpf_printk_few fmt args =
     Some (bpf_trace_printk, AStr fmt # ANum (sizeof_literal fmt) # map AWord args)"

definition bpf_vprintk :: "(nat \<Rightarrow> u64) \<Rightarrow> string \<Rightarrow> u64 list \<Rightarrow> helper_call option" where
  "bpf_vprintk junk fmt args = map_option (\<lambda>param.
     (bpf_trace_vprintk, [AStr fmt, ANum (sizeof_literal fmt), AWords param,
        ANum (8 * length param)])) (param_array junk args)"

datatype printk_macro = VPrintk | Printk

definition bpf_pick_printk :: "'a list \<Rightarrow> printk_macro option" where
  "bpf_pick_printk args =
     (case bpf_nth (None # map (\<lambda>_. None) args @ map Some
        [VPrintk, VPrintk, VPrintk, VPrintk, VPrintk, VPrintk, VPrintk, VPrintk, VPrintk,
         Printk, Printk, Printk, Printk]) of
        Some (Some m) \<Rightarrow> Some m
      | _ \<Rightarrow> None)"

definition bpf_printk :: "(nat \<Rightarrow> u64) \<Rightarrow> string \<Rightarrow> u64 list \<Rightarrow> helper_call option" where
  "bpf_printk junk fmt args =
     (case bpf_pick_printk args of
        None \<Rightarrow> None
      | Some Printk \<Rightarrow> bpf_printk_few fmt args
      | Some VPrintk \<Rightarrow> bpf_vprintk junk fmt args)"

section \<open>What the macros compute\<close>

lemma upto_twelve:
  assumes "n \<le> (12::nat)"
  shows "n \<in> {0, 1, 2, 3, 4, 5, 6, 7, 8, 9, 10, 11, 12}"
  using assms by (auto simp: le_Suc_eq numeral_eq_Suc)

lemma narg_less:
  assumes "length args \<le> 12"
  shows "bpf_narg args = Some (Num (length args))"
  using upto_twelve [OF assms]
  by (elim insertE emptyE) (simp_all add: bpf_narg_def bpf_nth_def nth_append)

lemma narg_more: "12 < length args \<Longrightarrow> \<exists>a. bpf_narg args = Some (Arg a)"
  by (auto simp: bpf_narg_def bpf_nth_def nth_append)

lemma apply_narg: "bpf_apply 12 (bpf_narg args) = (if length args \<le> 12 then Some (length args) else None)"
  using narg_less [of args] narg_more [of args] by (auto simp: bpf_apply_def)

lemma bpf_fill_n_all:
  "n = length args \<Longrightarrow>
   bpf_fill_n n arr p args =
     (if p + n \<le> length arr \<or> n = 0 then Some (take p arr @ args @ drop (p + n) arr) else None)"
proof (induction n arr p args rule: bpf_fill_n.induct)
  case (1 arr p args)
  then show ?case by simp
next
  case (2 n arr p)
  then show ?case by simp
next
  case (3 n arr p x args)
  show ?case
  proof (cases "p < length arr")
    case True
    with 3 show ?thesis
      by (auto simp: upd_conv_take_nth_drop take_update_swap drop_update_cancel take_Suc_conv_app_nth add.commute)
  next
    case False
    then show ?thesis by simp
  qed
qed

lemma bpf_fill_eq:
  "bpf_fill arr args =
     (if length args \<le> 12 \<and> length args \<le> length arr
      then Some (args @ drop (length args) arr) else None)"
  by (cases args) (auto simp: bpf_fill_def apply_narg bpf_fill_n_all simp del: bpf_fill_n.simps)

lemma param_array_eq: "param_array junk args = (if length args \<le> 12 then Some args else None)"
  by (simp add: param_array_def apply_narg bpf_fill_eq)

lemma pick_printk_eq:
  "bpf_pick_printk args =
     (if length args \<le> 3 then Some Printk else if length args \<le> 12 then Some VPrintk else None)"
proof (cases "length args \<le> 12")
  case True
  from upto_twelve [OF True] show ?thesis
    by (elim insertE emptyE) (simp_all add: bpf_pick_printk_def bpf_nth_def nth_append)
next
  case False
  then show ?thesis by (auto simp: bpf_pick_printk_def bpf_nth_def nth_append)
qed

text \<open>Numbers in positional notation compare digit by digit.\<close>

lemma digit_less:
  assumes "m < B" and "m' < (B::nat)"
  shows "B * x + m < B * x' + m' \<longleftrightarrow> x < x' \<or> x = x' \<and> m < m'"
proof (cases x x' rule: linorder_cases)
  case less
  then have "B * (x + 1) \<le> B * x'" by (intro mult_le_mono2) simp
  with less assms show ?thesis by simp
next
  case equal
  then show ?thesis by simp
next
  case greater
  then have "B * (x' + 1) \<le> B * x" by (intro mult_le_mono2) simp
  with greater assms show ?thesis by simp
qed

lemma digit_eq:
  assumes "m < B" and "m' < (B::nat)"
  shows "B * x + m = B * x' + m' \<longleftrightarrow> x = x' \<and> m = m'"
  using digit_less [OF assms, of x x'] digit_less [OF assms(2,1), of x' x] by (auto simp: nat_neq_iff)

section \<open>Properties\<close>

text \<open>
  \<^verbatim>\<open>___bpf_fill\<close> counts its arguments, selects the macro of that number,
  and that macro stores all of them in order from index 0 and leaves the rest of the array
  alone; more than twelve arguments, or more than the array holds, are refused.
\<close>

theorem bpf_fill_stores_all:
  "bpf_fill arr args =
     (if length args \<le> 12 \<and> length args \<le> length arr
      then Some (args @ drop (length args) arr) else None)"
  by (rule bpf_fill_eq)

text \<open>
  \<^verbatim>\<open>bpf_printk\<close> with up to three arguments is one call of
  \<^verbatim>\<open>bpf_trace_printk\<close> with the arguments in registers; with four to twelve it is one call
  of \<^verbatim>\<open>bpf_trace_vprintk\<close> with all of them, in order, in an array of exactly their size,
  whatever the stack held; with more it does not compile. No call passes more than the
  five arguments the convention allows.
\<close>

theorem bpf_printk_dispatch:
  "bpf_printk junk fmt args =
     (if length args \<le> 3
      then Some (bpf_trace_printk, AStr fmt # ANum (length fmt + 1) # map AWord args)
      else if length args \<le> 12
      then Some (bpf_trace_vprintk,
             [AStr fmt, ANum (length fmt + 1), AWords args, ANum (8 * length args)])
      else None) \<and>
   (case bpf_printk junk fmt args of None \<Rightarrow> True | Some (h, as) \<Rightarrow> length as \<le> 5)"
  by (simp add: bpf_printk_def pick_printk_eq bpf_printk_few_def bpf_vprintk_def
      param_array_eq sizeof_literal_def)

text \<open>
  The two other wrappers pass every argument on in order, in an array
  whose size in bytes they report, and use exactly the parameters the helper declares.
\<close>

theorem printf_wrappers:
  "BPF_SEQ_PRINTF junk seq fmt args =
     (if length args \<le> 12
      then Some (bpf_seq_printf, [APtr seq, AStr fmt, ANum (length fmt + 1), AWords args,
             ANum (8 * length args)]) else None) \<and>
   BPF_SNPRINTF junk out sz fmt args =
     (if length args \<le> 12
      then Some (bpf_snprintf, [APtr out, ANum sz, AStr fmt, AWords args,
             ANum (8 * length args)]) else None) \<and>
   length (h_params bpf_seq_printf) = 5 \<and> length (h_params bpf_snprintf) = 5"
  by (simp add: BPF_SEQ_PRINTF_def BPF_SNPRINTF_def param_array_eq sizeof_literal_def
      bpf_seq_printf_def bpf_snprintf_def)

text \<open>
  The call number that \<^verbatim>\<open>bpf_tail_call_static\<close> writes into its assembly
  is the declared number of \<^verbatim>\<open>bpf_tail_call\<close>, one register is loaded for each declared
  parameter, in the order of the calling convention, and every register a call may
  destroy is declared clobbered; a slot that is no constant does not build.
\<close>

theorem tail_call_static_abi:
  "bpf_tail_call_static c ctx m slot =
     (if c then Some \<lparr>asm_code = [Mov R1 (OCtx ctx), Mov R2 (OMap m), Mov R3 (OSlot slot),
                                 Call (h_id bpf_tail_call)],
                      asm_clobbers = [R0, R1, R2, R3, R4, R5]\<rparr>
      else None) \<and>
   map fst (h_params bpf_tail_call) = [''ctx'', ''prog_array_map'', ''index'']"
  by (simp add: bpf_tail_call_static_def bpf_tail_call_def)

text \<open>
  Version numbers compare as the versions they encode, component by
  component, because a patch level above 255 is clamped instead of carrying into the
  minor version; and they fit in an \<^verbatim>\<open>int\<close> when the major version is below 32768.
\<close>

theorem kernel_version_order:
  assumes "b < 256" and "b' < 256"
  shows "(KERNEL_VERSION a b c < KERNEL_VERSION a' b' c' \<longleftrightarrow>
       a < a' \<or> a = a' \<and> (b < b' \<or> b = b' \<and> min c 255 < min c' 255)) \<and>
     (a < 32768 \<longrightarrow> KERNEL_VERSION a b c < 2 ^ 31)"
proof (intro conjI impI)
  have kv: "KERNEL_VERSION x y z = 256 * (256 * x + y) + min z 255" for x y z
    by (simp add: KERNEL_VERSION_def push_bit_eq_mult min_def)
  have m: "min c 255 < 256" "min c' 255 < (256::nat)"
    by simp_all
  show "KERNEL_VERSION a b c < KERNEL_VERSION a' b' c' \<longleftrightarrow>
      a < a' \<or> a = a' \<and> (b < b' \<or> b = b' \<and> min c 255 < min c' 255)"
    unfolding kv digit_less [OF m] digit_less [OF assms] digit_eq [OF assms] by blast
  assume "a < 32768"
  with assms m show "KERNEL_VERSION a b c < 2 ^ 31"
    unfolding kv by simp
qed

theorem kernel_version_order_witness:
  "KERNEL_VERSION 4 19 300 < KERNEL_VERSION 4 20 0 \<and> KERNEL_VERSION 4 19 300 < 2 ^ 31"
  using kernel_version_order [of 19 20 4 300 4 0] by simp

end
