(* ===== verification/Bpf_Tracing.thy ===== *)
theory Bpf_Tracing
  imports Bpf_Helpers
begin

text \<open>
  \<^verbatim>\<open>bpf/include/bpf_tracing.h\<close>: which CPU the program is compiled for, where that CPU's
  saved registers hold the arguments and the results of a probed function, and the macros
  that turn the untyped context of a probe into a C parameter list. elmer's own programs
  are tracepoints and expand none of these macros; the header is part of every build.
\<close>

section \<open>Selecting the target\<close>

datatype arch = A_x86 | A_s390 | A_arm | A_arm64 | A_mips | A_powerpc | A_sparc | A_riscv

text \<open>The macros the compiler or the command line defined; \<^verbatim>\<open>__riscv_xlen\<close> has a value.\<close>

record compile_env =
  defined_macros :: "string list"
  riscv_xlen :: nat

definition is_defined :: "compile_env \<Rightarrow> string \<Rightarrow> bool" where
  "is_defined env m \<longleftrightarrow> m \<in> set (defined_macros env)"

definition selected_arch :: "compile_env \<Rightarrow> arch option" where
  "selected_arch env =
     (if is_defined env ''__TARGET_ARCH_x86'' then Some A_x86
      else if is_defined env ''__TARGET_ARCH_s390'' then Some A_s390
      else if is_defined env ''__TARGET_ARCH_arm'' then Some A_arm
      else if is_defined env ''__TARGET_ARCH_arm64'' then Some A_arm64
      else if is_defined env ''__TARGET_ARCH_mips'' then Some A_mips
      else if is_defined env ''__TARGET_ARCH_powerpc'' then Some A_powerpc
      else if is_defined env ''__TARGET_ARCH_sparc'' then Some A_sparc
      else if is_defined env ''__TARGET_ARCH_riscv'' then Some A_riscv
      else if is_defined env ''__x86_64__'' then Some A_x86
      else if is_defined env ''__s390__'' then Some A_s390
      else if is_defined env ''__arm__'' then Some A_arm
      else if is_defined env ''__aarch64__'' then Some A_arm64
      else if is_defined env ''__mips__'' then Some A_mips
      else if is_defined env ''__powerpc__'' then Some A_powerpc
      else if is_defined env ''__sparc__'' then Some A_sparc
      else if is_defined env ''__riscv'' \<and> riscv_xlen env = 64 then Some A_riscv
      else None)"

text \<open>
  The register tables the selection leads to. x86 has three: kernel names, the 32-bit
  user names and the 64-bit user names; sparc has two addresses for the instruction
  pointer.
\<close>

datatype target =
    X86_kernel | X86_32 | X86_64 | S390 | Arm | Arm64 | Mips | Powerpc | Sparc bool | Riscv

definition selected_target :: "compile_env \<Rightarrow> target option" where
  "selected_target env = map_option (\<lambda>a. case a of
        A_x86 \<Rightarrow> (if is_defined env ''__KERNEL__'' \<or> is_defined env ''__VMLINUX_H__''
                  then X86_kernel
                  else if is_defined env ''__i386__'' then X86_32 else X86_64)
      | A_s390 \<Rightarrow> S390
      | A_arm \<Rightarrow> Arm
      | A_arm64 \<Rightarrow> Arm64
      | A_mips \<Rightarrow> Mips
      | A_powerpc \<Rightarrow> Powerpc
      | A_sparc \<Rightarrow> Sparc (is_defined env ''__arch64__'')
      | A_riscv \<Rightarrow> Riscv) (selected_arch env)"

section \<open>Registers\<close>

datatype accessor = PARM1 | PARM2 | PARM3 | PARM4 | PARM5 | RET | FP | RC | SP | IP

text \<open>
  A register is a member of the saved-registers struct, an element of an array member, or
  an element under a symbolic index; two accessors of the 32-bit x86 are the constant 0.
  An accessor a target does not define is \<open>None\<close>. The \<^verbatim>\<open>_CORE\<close> accessors read the same
  struct through relocations.
\<close>

datatype place = Field string | Slot string nat | Named_slot string string | Zero

fun pt_regs_x86_kernel :: "accessor \<Rightarrow> place option" where
  "pt_regs_x86_kernel PARM1 = Some (Field ''di'')"
| "pt_regs_x86_kernel PARM2 = Some (Field ''si'')"
| "pt_regs_x86_kernel PARM3 = Some (Field ''dx'')"
| "pt_regs_x86_kernel PARM4 = Some (Field ''cx'')"
| "pt_regs_x86_kernel PARM5 = Some (Field ''r8'')"
| "pt_regs_x86_kernel RET = Some (Field ''sp'')"
| "pt_regs_x86_kernel FP = Some (Field ''bp'')"
| "pt_regs_x86_kernel RC = Some (Field ''ax'')"
| "pt_regs_x86_kernel SP = Some (Field ''sp'')"
| "pt_regs_x86_kernel IP = Some (Field ''ip'')"

fun pt_regs_x86_kernel_core :: "accessor \<Rightarrow> place option" where
  "pt_regs_x86_kernel_core PARM1 = Some (Field ''di'')"
| "pt_regs_x86_kernel_core PARM2 = Some (Field ''si'')"
| "pt_regs_x86_kernel_core PARM3 = Some (Field ''dx'')"
| "pt_regs_x86_kernel_core PARM4 = Some (Field ''cx'')"
| "pt_regs_x86_kernel_core PARM5 = Some (Field ''r8'')"
| "pt_regs_x86_kernel_core RET = Some (Field ''sp'')"
| "pt_regs_x86_kernel_core FP = Some (Field ''bp'')"
| "pt_regs_x86_kernel_core RC = Some (Field ''ax'')"
| "pt_regs_x86_kernel_core SP = Some (Field ''sp'')"
| "pt_regs_x86_kernel_core IP = Some (Field ''ip'')"

fun pt_regs_x86_32 :: "accessor \<Rightarrow> place option" where
  "pt_regs_x86_32 PARM1 = Some (Field ''eax'')"
| "pt_regs_x86_32 PARM2 = Some (Field ''edx'')"
| "pt_regs_x86_32 PARM3 = Some (Field ''ecx'')"
| "pt_regs_x86_32 PARM4 = Some (Zero)"
| "pt_regs_x86_32 PARM5 = Some (Zero)"
| "pt_regs_x86_32 RET = Some (Field ''esp'')"
| "pt_regs_x86_32 FP = Some (Field ''ebp'')"
| "pt_regs_x86_32 RC = Some (Field ''eax'')"
| "pt_regs_x86_32 SP = Some (Field ''esp'')"
| "pt_regs_x86_32 IP = Some (Field ''eip'')"

fun pt_regs_x86_32_core :: "accessor \<Rightarrow> place option" where
  "pt_regs_x86_32_core PARM1 = Some (Field ''eax'')"
| "pt_regs_x86_32_core PARM2 = Some (Field ''edx'')"
| "pt_regs_x86_32_core PARM3 = Some (Field ''ecx'')"
| "pt_regs_x86_32_core PARM4 = Some (Zero)"
| "pt_regs_x86_32_core PARM5 = Some (Zero)"
| "pt_regs_x86_32_core RET = Some (Field ''esp'')"
| "pt_regs_x86_32_core FP = Some (Field ''ebp'')"
| "pt_regs_x86_32_core RC = Some (Field ''eax'')"
| "pt_regs_x86_32_core SP = Some (Field ''esp'')"
| "pt_regs_x86_32_core IP = Some (Field ''eip'')"

fun pt_regs_x86_64 :: "accessor \<Rightarrow> place option" where
  "pt_regs_x86_64 PARM1 = Some (Field ''rdi'')"
| "pt_regs_x86_64 PARM2 = Some (Field ''rsi'')"
| "pt_regs_x86_64 PARM3 = Some (Field ''rdx'')"
| "pt_regs_x86_64 PARM4 = Some (Field ''rcx'')"
| "pt_regs_x86_64 PARM5 = Some (Field ''r8'')"
| "pt_regs_x86_64 RET = Some (Field ''rsp'')"
| "pt_regs_x86_64 FP = Some (Field ''rbp'')"
| "pt_regs_x86_64 RC = Some (Field ''rax'')"
| "pt_regs_x86_64 SP = Some (Field ''rsp'')"
| "pt_regs_x86_64 IP = Some (Field ''rip'')"

fun pt_regs_x86_64_core :: "accessor \<Rightarrow> place option" where
  "pt_regs_x86_64_core PARM1 = Some (Field ''rdi'')"
| "pt_regs_x86_64_core PARM2 = Some (Field ''rsi'')"
| "pt_regs_x86_64_core PARM3 = Some (Field ''rdx'')"
| "pt_regs_x86_64_core PARM4 = Some (Field ''rcx'')"
| "pt_regs_x86_64_core PARM5 = Some (Field ''r8'')"
| "pt_regs_x86_64_core RET = Some (Field ''rsp'')"
| "pt_regs_x86_64_core FP = Some (Field ''rbp'')"
| "pt_regs_x86_64_core RC = Some (Field ''rax'')"
| "pt_regs_x86_64_core SP = Some (Field ''rsp'')"
| "pt_regs_x86_64_core IP = Some (Field ''rip'')"

fun pt_regs_s390 :: "accessor \<Rightarrow> place option" where
  "pt_regs_s390 PARM1 = Some (Slot ''gprs'' 2)"
| "pt_regs_s390 PARM2 = Some (Slot ''gprs'' 3)"
| "pt_regs_s390 PARM3 = Some (Slot ''gprs'' 4)"
| "pt_regs_s390 PARM4 = Some (Slot ''gprs'' 5)"
| "pt_regs_s390 PARM5 = Some (Slot ''gprs'' 6)"
| "pt_regs_s390 RET = Some (Slot ''gprs'' 14)"
| "pt_regs_s390 FP = Some (Slot ''gprs'' 11)"
| "pt_regs_s390 RC = Some (Slot ''gprs'' 2)"
| "pt_regs_s390 SP = Some (Slot ''gprs'' 15)"
| "pt_regs_s390 IP = Some (Field ''psw.addr'')"

fun pt_regs_s390_core :: "accessor \<Rightarrow> place option" where
  "pt_regs_s390_core PARM1 = Some (Slot ''gprs'' 2)"
| "pt_regs_s390_core PARM2 = Some (Slot ''gprs'' 3)"
| "pt_regs_s390_core PARM3 = Some (Slot ''gprs'' 4)"
| "pt_regs_s390_core PARM4 = Some (Slot ''gprs'' 5)"
| "pt_regs_s390_core PARM5 = Some (Slot ''gprs'' 6)"
| "pt_regs_s390_core RET = Some (Slot ''gprs'' 14)"
| "pt_regs_s390_core FP = Some (Slot ''gprs'' 11)"
| "pt_regs_s390_core RC = Some (Slot ''gprs'' 2)"
| "pt_regs_s390_core SP = Some (Slot ''gprs'' 15)"
| "pt_regs_s390_core IP = Some (Field ''psw.addr'')"

fun pt_regs_arm :: "accessor \<Rightarrow> place option" where
  "pt_regs_arm PARM1 = Some (Slot ''uregs'' 0)"
| "pt_regs_arm PARM2 = Some (Slot ''uregs'' 1)"
| "pt_regs_arm PARM3 = Some (Slot ''uregs'' 2)"
| "pt_regs_arm PARM4 = Some (Slot ''uregs'' 3)"
| "pt_regs_arm PARM5 = Some (Slot ''uregs'' 4)"
| "pt_regs_arm RET = Some (Slot ''uregs'' 14)"
| "pt_regs_arm FP = Some (Slot ''uregs'' 11)"
| "pt_regs_arm RC = Some (Slot ''uregs'' 0)"
| "pt_regs_arm SP = Some (Slot ''uregs'' 13)"
| "pt_regs_arm IP = Some (Slot ''uregs'' 12)"

fun pt_regs_arm_core :: "accessor \<Rightarrow> place option" where
  "pt_regs_arm_core PARM1 = Some (Slot ''uregs'' 0)"
| "pt_regs_arm_core PARM2 = Some (Slot ''uregs'' 1)"
| "pt_regs_arm_core PARM3 = Some (Slot ''uregs'' 2)"
| "pt_regs_arm_core PARM4 = Some (Slot ''uregs'' 3)"
| "pt_regs_arm_core PARM5 = Some (Slot ''uregs'' 4)"
| "pt_regs_arm_core RET = Some (Slot ''uregs'' 14)"
| "pt_regs_arm_core FP = Some (Slot ''uregs'' 11)"
| "pt_regs_arm_core RC = Some (Slot ''uregs'' 0)"
| "pt_regs_arm_core SP = Some (Slot ''uregs'' 13)"
| "pt_regs_arm_core IP = Some (Slot ''uregs'' 12)"

fun pt_regs_arm64 :: "accessor \<Rightarrow> place option" where
  "pt_regs_arm64 PARM1 = Some (Slot ''regs'' 0)"
| "pt_regs_arm64 PARM2 = Some (Slot ''regs'' 1)"
| "pt_regs_arm64 PARM3 = Some (Slot ''regs'' 2)"
| "pt_regs_arm64 PARM4 = Some (Slot ''regs'' 3)"
| "pt_regs_arm64 PARM5 = Some (Slot ''regs'' 4)"
| "pt_regs_arm64 RET = Some (Slot ''regs'' 30)"
| "pt_regs_arm64 FP = Some (Slot ''regs'' 29)"
| "pt_regs_arm64 RC = Some (Slot ''regs'' 0)"
| "pt_regs_arm64 SP = Some (Field ''sp'')"
| "pt_regs_arm64 IP = Some (Field ''pc'')"

fun pt_regs_arm64_core :: "accessor \<Rightarrow> place option" where
  "pt_regs_arm64_core PARM1 = Some (Slot ''regs'' 0)"
| "pt_regs_arm64_core PARM2 = Some (Slot ''regs'' 1)"
| "pt_regs_arm64_core PARM3 = Some (Slot ''regs'' 2)"
| "pt_regs_arm64_core PARM4 = Some (Slot ''regs'' 3)"
| "pt_regs_arm64_core PARM5 = Some (Slot ''regs'' 4)"
| "pt_regs_arm64_core RET = Some (Slot ''regs'' 30)"
| "pt_regs_arm64_core FP = Some (Slot ''regs'' 29)"
| "pt_regs_arm64_core RC = Some (Slot ''regs'' 0)"
| "pt_regs_arm64_core SP = Some (Field ''sp'')"
| "pt_regs_arm64_core IP = Some (Field ''pc'')"

fun pt_regs_mips :: "accessor \<Rightarrow> place option" where
  "pt_regs_mips PARM1 = Some (Slot ''regs'' 4)"
| "pt_regs_mips PARM2 = Some (Slot ''regs'' 5)"
| "pt_regs_mips PARM3 = Some (Slot ''regs'' 6)"
| "pt_regs_mips PARM4 = Some (Slot ''regs'' 7)"
| "pt_regs_mips PARM5 = Some (Slot ''regs'' 8)"
| "pt_regs_mips RET = Some (Slot ''regs'' 31)"
| "pt_regs_mips FP = Some (Slot ''regs'' 30)"
| "pt_regs_mips RC = Some (Slot ''regs'' 2)"
| "pt_regs_mips SP = Some (Slot ''regs'' 29)"
| "pt_regs_mips IP = Some (Field ''cp0_epc'')"

fun pt_regs_mips_core :: "accessor \<Rightarrow> place option" where
  "pt_regs_mips_core PARM1 = Some (Slot ''regs'' 4)"
| "pt_regs_mips_core PARM2 = Some (Slot ''regs'' 5)"
| "pt_regs_mips_core PARM3 = Some (Slot ''regs'' 6)"
| "pt_regs_mips_core PARM4 = Some (Slot ''regs'' 7)"
| "pt_regs_mips_core PARM5 = Some (Slot ''regs'' 8)"
| "pt_regs_mips_core RET = Some (Slot ''regs'' 31)"
| "pt_regs_mips_core FP = Some (Slot ''regs'' 30)"
| "pt_regs_mips_core RC = Some (Slot ''regs'' 2)"
| "pt_regs_mips_core SP = Some (Slot ''regs'' 29)"
| "pt_regs_mips_core IP = Some (Field ''cp0_epc'')"

fun pt_regs_powerpc :: "accessor \<Rightarrow> place option" where
  "pt_regs_powerpc PARM1 = Some (Slot ''gpr'' 3)"
| "pt_regs_powerpc PARM2 = Some (Slot ''gpr'' 4)"
| "pt_regs_powerpc PARM3 = Some (Slot ''gpr'' 5)"
| "pt_regs_powerpc PARM4 = Some (Slot ''gpr'' 6)"
| "pt_regs_powerpc PARM5 = Some (Slot ''gpr'' 7)"
| "pt_regs_powerpc RC = Some (Slot ''gpr'' 3)"
| "pt_regs_powerpc SP = Some (Field ''sp'')"
| "pt_regs_powerpc IP = Some (Field ''nip'')"
| "pt_regs_powerpc RET = None"
| "pt_regs_powerpc FP = None"

fun pt_regs_powerpc_core :: "accessor \<Rightarrow> place option" where
  "pt_regs_powerpc_core PARM1 = Some (Slot ''gpr'' 3)"
| "pt_regs_powerpc_core PARM2 = Some (Slot ''gpr'' 4)"
| "pt_regs_powerpc_core PARM3 = Some (Slot ''gpr'' 5)"
| "pt_regs_powerpc_core PARM4 = Some (Slot ''gpr'' 6)"
| "pt_regs_powerpc_core PARM5 = Some (Slot ''gpr'' 7)"
| "pt_regs_powerpc_core RC = Some (Slot ''gpr'' 3)"
| "pt_regs_powerpc_core SP = Some (Field ''sp'')"
| "pt_regs_powerpc_core IP = Some (Field ''nip'')"
| "pt_regs_powerpc_core RET = None"
| "pt_regs_powerpc_core FP = None"

fun pt_regs_sparc :: "bool \<Rightarrow> accessor \<Rightarrow> place option" where
  "pt_regs_sparc arch64 PARM1 = Some (Named_slot ''u_regs'' ''UREG_I0'')"
| "pt_regs_sparc arch64 PARM2 = Some (Named_slot ''u_regs'' ''UREG_I1'')"
| "pt_regs_sparc arch64 PARM3 = Some (Named_slot ''u_regs'' ''UREG_I2'')"
| "pt_regs_sparc arch64 PARM4 = Some (Named_slot ''u_regs'' ''UREG_I3'')"
| "pt_regs_sparc arch64 PARM5 = Some (Named_slot ''u_regs'' ''UREG_I4'')"
| "pt_regs_sparc arch64 RET = Some (Named_slot ''u_regs'' ''UREG_I7'')"
| "pt_regs_sparc arch64 RC = Some (Named_slot ''u_regs'' ''UREG_I0'')"
| "pt_regs_sparc arch64 SP = Some (Named_slot ''u_regs'' ''UREG_FP'')"
| "pt_regs_sparc arch64 IP = Some (if arch64 then Field ''tpc'' else Field ''pc'')"
| "pt_regs_sparc arch64 FP = None"

fun pt_regs_sparc_core :: "bool \<Rightarrow> accessor \<Rightarrow> place option" where
  "pt_regs_sparc_core arch64 PARM1 = Some (Named_slot ''u_regs'' ''UREG_I0'')"
| "pt_regs_sparc_core arch64 PARM2 = Some (Named_slot ''u_regs'' ''UREG_I1'')"
| "pt_regs_sparc_core arch64 PARM3 = Some (Named_slot ''u_regs'' ''UREG_I2'')"
| "pt_regs_sparc_core arch64 PARM4 = Some (Named_slot ''u_regs'' ''UREG_I3'')"
| "pt_regs_sparc_core arch64 PARM5 = Some (Named_slot ''u_regs'' ''UREG_I4'')"
| "pt_regs_sparc_core arch64 RET = Some (Named_slot ''u_regs'' ''UREG_I7'')"
| "pt_regs_sparc_core arch64 RC = Some (Named_slot ''u_regs'' ''UREG_I0'')"
| "pt_regs_sparc_core arch64 SP = Some (Named_slot ''u_regs'' ''UREG_FP'')"
| "pt_regs_sparc_core arch64 IP = Some (if arch64 then Field ''tpc'' else Field ''pc'')"
| "pt_regs_sparc_core arch64 FP = None"

fun pt_regs_riscv :: "accessor \<Rightarrow> place option" where
  "pt_regs_riscv PARM1 = Some (Field ''a0'')"
| "pt_regs_riscv PARM2 = Some (Field ''a1'')"
| "pt_regs_riscv PARM3 = Some (Field ''a2'')"
| "pt_regs_riscv PARM4 = Some (Field ''a3'')"
| "pt_regs_riscv PARM5 = Some (Field ''a4'')"
| "pt_regs_riscv RET = Some (Field ''ra'')"
| "pt_regs_riscv FP = Some (Field ''s5'')"
| "pt_regs_riscv RC = Some (Field ''a5'')"
| "pt_regs_riscv SP = Some (Field ''sp'')"
| "pt_regs_riscv IP = Some (Field ''epc'')"

fun pt_regs_riscv_core :: "accessor \<Rightarrow> place option" where
  "pt_regs_riscv_core PARM1 = Some (Field ''a0'')"
| "pt_regs_riscv_core PARM2 = Some (Field ''a1'')"
| "pt_regs_riscv_core PARM3 = Some (Field ''a2'')"
| "pt_regs_riscv_core PARM4 = Some (Field ''a3'')"
| "pt_regs_riscv_core PARM5 = Some (Field ''a4'')"
| "pt_regs_riscv_core RET = Some (Field ''ra'')"
| "pt_regs_riscv_core FP = Some (Field ''fp'')"
| "pt_regs_riscv_core RC = Some (Field ''a5'')"
| "pt_regs_riscv_core SP = Some (Field ''sp'')"
| "pt_regs_riscv_core IP = Some (Field ''epc'')"

fun pt_regs :: "target \<Rightarrow> accessor \<Rightarrow> place option" where
  "pt_regs X86_kernel r = pt_regs_x86_kernel r"
| "pt_regs X86_32 r = pt_regs_x86_32 r"
| "pt_regs X86_64 r = pt_regs_x86_64 r"
| "pt_regs S390 r = pt_regs_s390 r"
| "pt_regs Arm r = pt_regs_arm r"
| "pt_regs Arm64 r = pt_regs_arm64 r"
| "pt_regs Mips r = pt_regs_mips r"
| "pt_regs Powerpc r = pt_regs_powerpc r"
| "pt_regs (Sparc arch64) r = pt_regs_sparc arch64 r"
| "pt_regs Riscv r = pt_regs_riscv r"

fun pt_regs_core :: "target \<Rightarrow> accessor \<Rightarrow> place option" where
  "pt_regs_core X86_kernel r = pt_regs_x86_kernel_core r"
| "pt_regs_core X86_32 r = pt_regs_x86_32_core r"
| "pt_regs_core X86_64 r = pt_regs_x86_64_core r"
| "pt_regs_core S390 r = pt_regs_s390_core r"
| "pt_regs_core Arm r = pt_regs_arm_core r"
| "pt_regs_core Arm64 r = pt_regs_arm64_core r"
| "pt_regs_core Mips r = pt_regs_mips_core r"
| "pt_regs_core Powerpc r = pt_regs_powerpc_core r"
| "pt_regs_core (Sparc arch64) r = pt_regs_sparc_core arch64 r"
| "pt_regs_core Riscv r = pt_regs_riscv_core r"

text \<open>
  Without a target every accessor expands to a \<^verbatim>\<open>_Pragma\<close> error: the first use of one
  fails the build.
\<close>

definition pt_regs_of :: "target option \<Rightarrow> accessor \<Rightarrow> place option" where
  "pt_regs_of t r = Option.bind t (\<lambda>t. pt_regs t r)"

definition pt_regs_core_of :: "target option \<Rightarrow> accessor \<Rightarrow> place option" where
  "pt_regs_core_of t r = Option.bind t (\<lambda>t. pt_regs_core t r)"

section \<open>Return addresses\<close>

text \<open>
  Where a kprobe and a kretprobe find the return address: in a register, or in memory at
  a register's value plus a distance.
\<close>

datatype ret_ip = In_register place | In_memory place nat

definition kprobe_ret_ip :: "target \<Rightarrow> ret_ip option" where
  "kprobe_ret_ip t = (case t of
      Powerpc \<Rightarrow> Some (In_register (Field ''link''))
    | Sparc _ \<Rightarrow> map_option In_register (pt_regs t RET)
    | _ \<Rightarrow> map_option (\<lambda>p. In_memory p 0) (pt_regs t RET))"

definition kretprobe_ret_ip :: "nat \<Rightarrow> target \<Rightarrow> ret_ip option" where
  "kretprobe_ret_ip sizeof_ip t = (case t of
      Powerpc \<Rightarrow> kprobe_ret_ip t
    | Sparc _ \<Rightarrow> kprobe_ret_ip t
    | _ \<Rightarrow> map_option (\<lambda>p. In_memory p sizeof_ip) (pt_regs t FP))"

section \<open>Parameter lists\<close>

text \<open>
  \<^verbatim>\<open>BPF_PROG\<close>, \<^verbatim>\<open>BPF_KPROBE\<close> and \<^verbatim>\<open>BPF_KRETPROBE\<close> define a function of the context that
  calls the user's function with the context first and then one expression per declared
  parameter. The families of macros peel one parameter off the front per level while the
  expression for the \<^emph>\<open>last\<close> one is appended behind.
\<close>

datatype arg_expr = Ctx | Ctx_word nat | Reg accessor

fun ctx_cast_n :: "nat \<Rightarrow> 'a list \<Rightarrow> arg_expr list option" where
  "ctx_cast_n 0 [] = Some [Ctx]"
| "ctx_cast_n (Suc k) (x # args) = map_option (\<lambda>es. es @ [Ctx_word k]) (ctx_cast_n k args)"
| "ctx_cast_n _ _ = None"

definition ctx_cast :: "'a list \<Rightarrow> arg_expr list option" where
  "ctx_cast args = Option.bind (bpf_apply 12 (bpf_narg args)) (\<lambda>n. ctx_cast_n n args)"

fun parm :: "nat \<Rightarrow> accessor" where
  "parm 0 = PARM1"
| "parm (Suc 0) = PARM2"
| "parm (Suc (Suc 0)) = PARM3"
| "parm (Suc (Suc (Suc 0))) = PARM4"
| "parm _ = PARM5"

fun kprobe_args_n :: "nat \<Rightarrow> 'a list \<Rightarrow> arg_expr list option" where
  "kprobe_args_n 0 [] = Some [Ctx]"
| "kprobe_args_n (Suc k) (x # args) =
     map_option (\<lambda>es. es @ [Reg (parm k)]) (kprobe_args_n k args)"
| "kprobe_args_n _ _ = None"

definition kprobe_args :: "'a list \<Rightarrow> arg_expr list option" where
  "kprobe_args args = Option.bind (bpf_apply 5 (bpf_narg args)) (\<lambda>n. kprobe_args_n n args)"

fun kretprobe_args_n :: "nat \<Rightarrow> 'a list \<Rightarrow> arg_expr list option" where
  "kretprobe_args_n 0 [] = Some [Ctx]"
| "kretprobe_args_n (Suc 0) [x] = map_option (\<lambda>es. es @ [Reg RC]) (kretprobe_args_n 0 [])"
| "kretprobe_args_n _ _ = None"

definition kretprobe_args :: "'a list \<Rightarrow> arg_expr list option" where
  "kretprobe_args args = Option.bind (bpf_apply 1 (bpf_narg args)) (\<lambda>n. kretprobe_args_n n args)"

text \<open>
  The generated function: the context as an array of words, or as saved registers whose
  contents \<open>regs\<close> gives, bound to the declared parameters. \<open>None\<close>: does not compile.
\<close>

definition BPF_PROG :: "string list \<Rightarrow> (u64 list \<Rightarrow> 'r) \<Rightarrow> u64 \<Rightarrow> (nat \<Rightarrow> u64) \<Rightarrow> 'r option" where
  "BPF_PROG params body ctx_ptr ctx =
     map_option (\<lambda>es. body (map (\<lambda>e. case e of Ctx_word k \<Rightarrow> ctx k | _ \<Rightarrow> ctx_ptr) es))
       (ctx_cast params)"

fun eval_reg :: "target option \<Rightarrow> (place \<Rightarrow> u64) \<Rightarrow> u64 \<Rightarrow> arg_expr \<Rightarrow> u64 option" where
  "eval_reg t regs ctx_ptr (Reg r) =
     map_option (\<lambda>p. if p = Zero then 0 else regs p) (pt_regs_of t r)"
| "eval_reg t regs ctx_ptr _ = Some ctx_ptr"

definition BPF_KPROBE ::
  "target option \<Rightarrow> string list \<Rightarrow> (u64 list \<Rightarrow> 'r) \<Rightarrow> u64 \<Rightarrow> (place \<Rightarrow> u64) \<Rightarrow> 'r option" where
  "BPF_KPROBE t params body ctx_ptr regs =
     Option.bind (kprobe_args params) (\<lambda>es.
       map_option body (those (map (eval_reg t regs ctx_ptr) es)))"

definition BPF_KRETPROBE ::
  "target option \<Rightarrow> string list \<Rightarrow> (u64 list \<Rightarrow> 'r) \<Rightarrow> u64 \<Rightarrow> (place \<Rightarrow> u64) \<Rightarrow> 'r option" where
  "BPF_KRETPROBE t params body ctx_ptr regs =
     Option.bind (kretprobe_args params) (\<lambda>es.
       map_option body (those (map (eval_reg t regs ctx_ptr) es)))"

section \<open>Properties\<close>

text \<open>The registers of a target that its parameters and its two pointers live in.\<close>

definition live_places :: "target \<Rightarrow> place list" where
  "live_places t = filter (\<lambda>p. p \<noteq> Zero) 
     [p. Some p \<leftarrow> map (pt_regs t) [PARM1, PARM2, PARM3, PARM4, PARM5, SP, IP]]"

lemma ctx_cast_n_eq: "ctx_cast_n (length args) args = Some (Ctx # map Ctx_word [0..<length args])"
  by (induction args) auto

lemma kprobe_args_n_eq:
  "kprobe_args_n (length args) args = Some (Ctx # map (Reg \<circ> parm) [0..<length args])"
  by (induction args) auto

lemma ctx_cast_eq:
  "ctx_cast args = (if length args \<le> 12 then Some (Ctx # map Ctx_word [0..<length args]) else None)"
  by (simp add: ctx_cast_def apply_narg ctx_cast_n_eq)

lemma apply_narg_upto:
  "m \<le> 12 \<Longrightarrow> bpf_apply m (bpf_narg args) = (if length args \<le> m then Some (length args) else None)"
  using narg_less [of args] narg_more [of args]
  by (cases "length args \<le> 12") (auto simp: bpf_apply_def)

lemma kprobe_args_eq:
  "kprobe_args args = (if length args \<le> 5 then Some (Ctx # map (Reg \<circ> parm) [0..<length args]) else None)"
  by (simp add: kprobe_args_def apply_narg_upto kprobe_args_n_eq)

lemma kretprobe_args_eq:
  "kretprobe_args args =
     (if length args \<le> 1 then Some (Ctx # map (\<lambda>_. Reg RC) args) else None)"
  by (cases args; cases "tl args")
     (auto simp: kretprobe_args_def apply_narg_upto kretprobe_args_n.simps)

lemma those_map_Some: "those (map (\<lambda>x. Some (f x)) xs) = Some (map f xs)"
  by (induction xs) auto

lemma those_map_bind: "those (Some a # xs) = map_option (Cons a) (those xs)"
  by (cases "those xs") auto

text \<open>
  On every target the five parameter registers, the stack pointer and the
  instruction pointer are different places: no accessor of one reads another.
\<close>

theorem live_registers_distinct: "distinct (live_places t)"
  by (cases t) (auto simp: live_places_def)

text \<open>
  The relocatable accessor of a register reads the same place as the
  plain one on every target, with one exception: on RISC-V the frame pointer is \<open>s5\<close> for
  the one and \<open>fp\<close> for the other.
\<close>

theorem core_accessors_agree: "pt_regs_core t r = pt_regs t r \<longleftrightarrow> \<not> (t = Riscv \<and> r = FP)"
  by (cases t; cases r) auto

text \<open>
  The accessors a program may use on a target: all of them, except the
  return-address and frame-pointer accessors on powerpc and the frame pointer on sparc,
  so both probe macros for the return address are defined on every target.
\<close>

theorem accessor_availability:
  "(pt_regs t r = None \<longleftrightarrow> t = Powerpc \<and> (r = RET \<or> r = FP) \<or> (\<exists>b. t = Sparc b) \<and> r = FP) \<and>
   kprobe_ret_ip t \<noteq> None \<and> kretprobe_ret_ip n t \<noteq> None"
  by (cases t; cases r) (auto simp: kprobe_ret_ip_def kretprobe_ret_ip_def)

text \<open>
  \<^verbatim>\<open>BPF_PROG\<close> with up to twelve parameters calls the body with the
  context and then word \<open>i\<close> of the context for parameter \<open>i\<close>; \<^verbatim>\<open>BPF_KPROBE\<close> with up to five
  calls it with the target's parameter registers in order, \<^verbatim>\<open>BPF_KRETPROBE\<close> with at most
  one parameter gives it the result register; more parameters do not compile, and
  without a target no probe with a parameter compiles.
\<close>

theorem probe_parameters:
  "BPF_PROG ps body c ctx =
     (if length ps \<le> 12 then Some (body (c # map ctx [0..<length ps])) else None) \<and>
   BPF_KPROBE t ps body c regs =
     (if length ps \<le> 5
      then map_option (\<lambda>vs. body (c # vs))
        (those (map (\<lambda>i. eval_reg t regs c (Reg (parm i))) [0..<length ps]))
      else None) \<and>
   BPF_KRETPROBE t ps body c regs =
     (if length ps = 0 then Some (body [c])
      else if length ps = 1 then map_option (\<lambda>v. body [c, v]) (eval_reg t regs c (Reg RC))
      else None) \<and>
   eval_reg None regs c (Reg r) = None"
  by (cases ps; cases "tl ps")
     (auto simp: BPF_PROG_def BPF_KPROBE_def BPF_KRETPROBE_def ctx_cast_eq kprobe_args_eq
       kretprobe_args_eq pt_regs_of_def comp_def option.map_comp
       simp del: upt_Suc split: option.splits)

end
