(* ===== verification/Elmer_Layout.thy ===== *)
theory Elmer_Layout
  imports Bpf_Helpers
begin

text \<open>
  The data of \<^verbatim>\<open>bpf/elmer.bpf.c\<close>: its constants, the declarations of its structs and maps
  with the layout the C ABI gives them, the contents of those structs as records, and the
  byte encoding of each record (the memory image of the struct), with the bindings that
  \<^verbatim>\<open>bpf2go\<close> generates for Go (\<^verbatim>\<open>elmerbpf_bpfel.go\<close>) beside them.
\<close>

section \<open>Constants\<close>

definition COMM_LEN :: nat where "COMM_LEN = 16"
definition FNAME_LEN :: nat where "FNAME_LEN = 128"
definition ARGV_LEN :: nat where "ARGV_LEN = 512"
definition ARG_CHUNK :: nat where "ARG_CHUNK = 128"
definition MAX_ARGS :: nat where "MAX_ARGS = 16"

definition EXEC_KIND :: u32 where "EXEC_KIND = 1"
definition CONNECT_KIND :: u32 where "CONNECT_KIND = 2"
definition BIND_KIND :: u32 where "BIND_KIND = 3"

definition AF_INET :: u16 where "AF_INET = 2"
definition AF_INET6 :: u16 where "AF_INET6 = 10"

lemmas elmer_consts = COMM_LEN_def FNAME_LEN_def ARGV_LEN_def ARG_CHUNK_def MAX_ARGS_def
  EXEC_KIND_def CONNECT_KIND_def BIND_KIND_def AF_INET_def AF_INET6_def

section \<open>Struct declarations\<close>

definition sys_enter_ctx_decl :: "(string \<times> c_type) list" where
  "sys_enter_ctx_decl = [(''common_type'', T_u16), (''common_flags'', T_u8),
     (''common_preempt_count'', T_u8), (''common_pid'', T_s32), (''id'', T_s64),
     (''args'', Array T_u64 6)]"

definition exec_event_decl :: "(string \<times> c_type) list" where
  "exec_event_decl = [(''kind'', T_u32), (''tgid'', T_u32), (''pid'', T_u32), (''uid'', T_u32),
     (''gid'', T_u32), (''comm'', Array CChar COMM_LEN), (''filename'', Array CChar FNAME_LEN),
     (''argv_len'', T_u32), (''argv'', Array CChar ARGV_LEN)]"

definition sock_event_decl :: "(string \<times> c_type) list" where
  "sock_event_decl = [(''kind'', T_u32), (''tgid'', T_u32), (''uid'', T_u32), (''family'', T_u16),
     (''port'', T_u16), (''addr'', Array T_u8 16), (''comm'', Array CChar COMM_LEN)]"

definition sockaddr_in_decl :: "(string \<times> c_type) list" where
  "sockaddr_in_decl = [(''sin_family'', T_u16), (''sin_port'', T_be16), (''sin_addr'', T_u32),
     (''sin_zero'', Array T_u8 8)]"

definition sockaddr_in6_decl :: "(string \<times> c_type) list" where
  "sockaddr_in6_decl = [(''sin6_family'', T_u16), (''sin6_port'', T_be16),
     (''sin6_flowinfo'', T_u32), (''sin6_addr'', Array T_u8 16), (''sin6_scope_id'', T_u32)]"

section \<open>Maps\<close>

definition events_map :: "(string \<times> c_type) list" where
  "events_map = [bpf_uint ''type'' BPF_MAP_TYPE_RINGBUF, bpf_uint ''max_entries'' (push_bit 22 1)]"

definition type_anchor_exec :: "(string \<times> c_type) list" where
  "type_anchor_exec = [bpf_uint ''type'' BPF_MAP_TYPE_ARRAY, bpf_uint ''max_entries'' 1,
     bpf_type ''key'' T_u32, bpf_type ''value'' (Struct ''exec_event'')]"

definition type_anchor_sock :: "(string \<times> c_type) list" where
  "type_anchor_sock = [bpf_uint ''type'' BPF_MAP_TYPE_ARRAY, bpf_uint ''max_entries'' 1,
     bpf_type ''key'' T_u32, bpf_type ''value'' (Struct ''sock_event'')]"

section \<open>The bindings bpf2go generates\<close>

text \<open>
  Go's fixed-size types in a struct marked \<^verbatim>\<open>structs.HostLayout\<close> are laid out as the C
  types of the same size.
\<close>

datatype go_type = GoUint8 | GoInt8 | GoUint16 | GoUint32 | GoArray nat go_type

fun host_type :: "go_type \<Rightarrow> c_type" where
  "host_type GoUint8 = CUChar"
| "host_type GoInt8 = CSChar"
| "host_type GoUint16 = CUShort"
| "host_type GoUint32 = CUInt"
| "host_type (GoArray n t) = Array (host_type t) n"

definition elmerBpfExecEvent :: "(string \<times> go_type) list" where
  "elmerBpfExecEvent = [(''Kind'', GoUint32), (''Tgid'', GoUint32), (''Pid'', GoUint32),
     (''Uid'', GoUint32), (''Gid'', GoUint32), (''Comm'', GoArray 16 GoInt8),
     (''Filename'', GoArray 128 GoInt8), (''ArgvLen'', GoUint32), (''Argv'', GoArray 512 GoInt8)]"

definition elmerBpfSockEvent :: "(string \<times> go_type) list" where
  "elmerBpfSockEvent = [(''Kind'', GoUint32), (''Tgid'', GoUint32), (''Uid'', GoUint32),
     (''Family'', GoUint16), (''Port'', GoUint16), (''Addr'', GoArray 16 GoUint8),
     (''Comm'', GoArray 16 GoInt8)]"

definition host_layout :: "(string \<times> go_type) list \<Rightarrow> (string \<times> c_type) list" where
  "host_layout fs = map (\<lambda>(f, t). (f, host_type t)) fs"

definition go_sizeof :: "(string \<times> go_type) list \<Rightarrow> nat option" where
  "go_sizeof fs = struct_size (host_layout fs)"

lemmas decl_defs [layout_simps] =
  sys_enter_ctx_decl_def exec_event_decl_def sock_event_decl_def sockaddr_in_decl_def
  sockaddr_in6_decl_def elmerBpfExecEvent_def elmerBpfSockEvent_def host_layout_def
  go_sizeof_def COMM_LEN_def FNAME_LEN_def ARGV_LEN_def

text \<open>\<^verbatim>\<open>sizeof\<close> of the structs, as the ABI computes it.\<close>

definition sizeof_struct :: "(string \<times> c_type) list \<Rightarrow> nat" where
  "sizeof_struct fs = (case struct_size fs of None \<Rightarrow> 0 | Some n \<Rightarrow> n)"

lemma sizeof_structs [simp]:
  "sizeof_struct exec_event_decl = 680"
  "sizeof_struct sock_event_decl = 48"
  "sizeof_struct sockaddr_in_decl = 16"
  "sizeof_struct sockaddr_in6_decl = 28"
  by (simp_all add: sizeof_struct_def layout_simps)

lemma exec_layout:
  "struct_layout exec_event_decl = Some [(''kind'', 0, 4), (''tgid'', 4, 4), (''pid'', 8, 4),
     (''uid'', 12, 4), (''gid'', 16, 4), (''comm'', 20, 16), (''filename'', 36, 128),
     (''argv_len'', 164, 4), (''argv'', 168, 512)]"
  by (simp add: layout_simps)

lemma sock_layout:
  "struct_layout sock_event_decl = Some [(''kind'', 0, 4), (''tgid'', 4, 4), (''uid'', 8, 4),
     (''family'', 12, 2), (''port'', 14, 2), (''addr'', 16, 16), (''comm'', 32, 16)]"
  by (simp add: layout_simps)

section \<open>Contents\<close>

record sys_enter_ctx =
  common_type :: u16
  common_flags :: u8
  common_preempt_count :: u8
  common_pid :: u32
  syscall_id :: u64
  args :: "u64 list"

record exec_event =
  x_kind :: u32
  x_tgid :: u32
  x_pid :: u32
  x_uid :: u32
  x_gid :: u32
  x_comm :: "u8 list"
  x_filename :: "u8 list"
  x_argv_len :: u32
  x_argv :: "u8 list"

record sock_event =
  s_kind :: u32
  s_tgid :: u32
  s_uid :: u32
  s_family :: u16
  s_port :: u16
  s_addr :: "u8 list"
  s_comm :: "u8 list"

record sockaddr_in =
  sin_family :: u16
  sin_port :: u16
  sin_addr :: u32
  sin_zero :: "u8 list"

record sockaddr_in6 =
  sin6_family :: u16
  sin6_port :: u16
  sin6_flowinfo :: u32
  sin6_addr :: "u8 list"
  sin6_scope_id :: u32

definition valid_exec :: "exec_event \<Rightarrow> bool" where
  "valid_exec e \<longleftrightarrow> length (x_comm e) = COMM_LEN \<and> length (x_filename e) = FNAME_LEN \<and>
     length (x_argv e) = ARGV_LEN"

definition valid_sock :: "sock_event \<Rightarrow> bool" where
  "valid_sock e \<longleftrightarrow> length (s_addr e) = 16 \<and> length (s_comm e) = COMM_LEN"

section \<open>Memory images\<close>

definition field :: "nat \<Rightarrow> nat \<Rightarrow> u8 list \<Rightarrow> u8 list" where
  "field off n bs = take n (drop off bs)"

definition encode_exec :: "byte_order \<Rightarrow> exec_event \<Rightarrow> u8 list" where
  "encode_exec bo e = enc bo 4 (x_kind e) @ enc bo 4 (x_tgid e) @ enc bo 4 (x_pid e) @
     enc bo 4 (x_uid e) @ enc bo 4 (x_gid e) @ x_comm e @ x_filename e @
     enc bo 4 (x_argv_len e) @ x_argv e"

definition decode_exec :: "byte_order \<Rightarrow> u8 list \<Rightarrow> exec_event" where
  "decode_exec bo bs = \<lparr>x_kind = dec bo (field 0 4 bs), x_tgid = dec bo (field 4 4 bs),
     x_pid = dec bo (field 8 4 bs), x_uid = dec bo (field 12 4 bs), x_gid = dec bo (field 16 4 bs),
     x_comm = field 20 16 bs, x_filename = field 36 128 bs,
     x_argv_len = dec bo (field 164 4 bs), x_argv = field 168 512 bs\<rparr>"

definition encode_sock :: "byte_order \<Rightarrow> sock_event \<Rightarrow> u8 list" where
  "encode_sock bo e = enc bo 4 (s_kind e) @ enc bo 4 (s_tgid e) @ enc bo 4 (s_uid e) @
     enc bo 2 (s_family e) @ enc bo 2 (s_port e) @ s_addr e @ s_comm e"

definition decode_sock :: "byte_order \<Rightarrow> u8 list \<Rightarrow> sock_event" where
  "decode_sock bo bs = \<lparr>s_kind = dec bo (field 0 4 bs), s_tgid = dec bo (field 4 4 bs),
     s_uid = dec bo (field 8 4 bs), s_family = dec bo (field 12 2 bs),
     s_port = dec bo (field 14 2 bs), s_addr = field 16 16 bs, s_comm = field 32 16 bs\<rparr>"

definition decode_sockaddr_in :: "byte_order \<Rightarrow> u8 list \<Rightarrow> sockaddr_in" where
  "decode_sockaddr_in bo bs = \<lparr>sin_family = dec bo (field 0 2 bs), sin_port = dec bo (field 2 2 bs),
     sin_addr = dec bo (field 4 4 bs), sin_zero = field 8 8 bs\<rparr>"

definition decode_sockaddr_in6 :: "byte_order \<Rightarrow> u8 list \<Rightarrow> sockaddr_in6" where
  "decode_sockaddr_in6 bo bs = \<lparr>sin6_family = dec bo (field 0 2 bs),
     sin6_port = dec bo (field 2 2 bs), sin6_flowinfo = dec bo (field 4 4 bs),
     sin6_addr = field 8 16 bs, sin6_scope_id = dec bo (field 24 4 bs)\<rparr>"

lemma length_field [len_simps]: "off + n \<le> length bs \<Longrightarrow> length (field off n bs) = n"
  by (simp add: field_def)

lemma field_append_drop: "field off n bs @ drop (off + n) bs = drop off bs"
  by (simp add: field_def) (metis add.commute append_take_drop_id drop_drop)

lemma field_last: "length bs = off + n \<Longrightarrow> field off n bs = drop off bs"
  by (simp add: field_def)

lemma field_skip: "length xs \<le> off \<Longrightarrow> field off n (xs @ ys) = field (off - length xs) n ys"
  by (simp add: field_def)

lemma field_here: "length xs = n \<Longrightarrow> field 0 n (xs @ ys) = xs"
  by (simp add: field_def)

lemma field_all: "length xs = n \<Longrightarrow> field 0 n xs = xs"
  by (simp add: field_def)

lemmas field_simps_bytes = field_skip field_here field_all

lemma enc_dec_field:
  "off + n \<le> length bs \<Longrightarrow> LENGTH('a) = 8 * n \<Longrightarrow>
   enc bo n (dec bo (field off n bs) :: 'a::len word) = field off n bs"
  by (simp add: enc_dec length_field)

interpretation exec_codec: byte_codec "encode_exec bo" "decode_exec bo" valid_exec 680 for bo
proof unfold_locales
  fix e assume "valid_exec e"
  then show "length (encode_exec bo e) = 680" and "decode_exec bo (encode_exec bo e) = e"
    by (auto simp: valid_exec_def encode_exec_def decode_exec_def elmer_consts field_simps_bytes)
next
  fix bs :: "u8 list" assume l: "length bs = 680"
  have "encode_exec bo (decode_exec bo bs) =
      field 0 4 bs @ field (0 + 4) 4 bs @ field (0 + 4 + 4) 4 bs @ field (0 + 4 + 4 + 4) 4 bs @
      field (0 + 4 + 4 + 4 + 4) 4 bs @ field (0 + 4 + 4 + 4 + 4 + 4) 16 bs @
      field (0 + 4 + 4 + 4 + 4 + 4 + 16) 128 bs @ field (0 + 4 + 4 + 4 + 4 + 4 + 16 + 128) 4 bs @
      drop (0 + 4 + 4 + 4 + 4 + 4 + 16 + 128 + 4) bs"
    using l by (simp add: encode_exec_def decode_exec_def enc_dec_field field_last)
  also have "\<dots> = bs"
    by (simp only: field_append_drop drop_0)
  finally show "encode_exec bo (decode_exec bo bs) = bs" .
  from l show "valid_exec (decode_exec bo bs)"
    by (simp add: valid_exec_def decode_exec_def length_field elmer_consts)
qed

interpretation sock_codec: byte_codec "encode_sock bo" "decode_sock bo" valid_sock 48 for bo
proof unfold_locales
  fix e assume "valid_sock e"
  then show "length (encode_sock bo e) = 48" and "decode_sock bo (encode_sock bo e) = e"
    by (auto simp: valid_sock_def encode_sock_def decode_sock_def elmer_consts field_simps_bytes)
next
  fix bs :: "u8 list" assume l: "length bs = 48"
  have "encode_sock bo (decode_sock bo bs) =
      field 0 4 bs @ field (0 + 4) 4 bs @ field (0 + 4 + 4) 4 bs @ field (0 + 4 + 4 + 4) 2 bs @
      field (0 + 4 + 4 + 4 + 2) 2 bs @ field (0 + 4 + 4 + 4 + 2 + 2) 16 bs @
      drop (0 + 4 + 4 + 4 + 2 + 2 + 16) bs"
    using l by (simp add: encode_sock_def decode_sock_def enc_dec_field field_last)
  also have "\<dots> = bs"
    by (simp only: field_append_drop drop_0)
  finally show "encode_sock bo (decode_sock bo bs) = bs" .
  from l show "valid_sock (decode_sock bo bs)"
    by (simp add: valid_sock_def decode_sock_def length_field elmer_consts)
qed

section \<open>Properties\<close>

text \<open>
  The Go bindings describe the memory the BPF programs write: member by
  member the same offsets and sizes as the C declarations, the same total size, and no
  byte of an event, of a \<^verbatim>\<open>sockaddr\<close> or of the tracepoint context is padding, so no
  uninitialised padding reaches a record.
\<close>

theorem go_bindings_match_c:
  "map_option (map snd) (struct_layout (host_layout elmerBpfExecEvent)) =
     map_option (map snd) (struct_layout exec_event_decl) \<and>
   map_option (map snd) (struct_layout (host_layout elmerBpfSockEvent)) =
     map_option (map snd) (struct_layout sock_event_decl) \<and>
   go_sizeof elmerBpfExecEvent = Some (sizeof_struct exec_event_decl) \<and>
   go_sizeof elmerBpfSockEvent = Some (sizeof_struct sock_event_decl) \<and>
   list_all unpadded [exec_event_decl, sock_event_decl, sockaddr_in_decl, sockaddr_in6_decl,
     sys_enter_ctx_decl]"
  by (simp add: layout_simps sizeof_struct_def)

text \<open>
  The encodings are the memory images of the structs: the bytes of a
  record at the offset and size the ABI gives a member are that member's value.
\<close>

theorem images_follow_layout:
  assumes "valid_exec e" and "valid_sock s"
  shows "map_option (map (\<lambda>(f, o', n). (f, field o' n (encode_exec bo e)))) (struct_layout exec_event_decl) =
      Some [(''kind'', enc bo 4 (x_kind e)), (''tgid'', enc bo 4 (x_tgid e)),
        (''pid'', enc bo 4 (x_pid e)), (''uid'', enc bo 4 (x_uid e)), (''gid'', enc bo 4 (x_gid e)),
        (''comm'', x_comm e), (''filename'', x_filename e),
        (''argv_len'', enc bo 4 (x_argv_len e)), (''argv'', x_argv e)] \<and>
    map_option (map (\<lambda>(f, o', n). (f, field o' n (encode_sock bo s)))) (struct_layout sock_event_decl) =
      Some [(''kind'', enc bo 4 (s_kind s)), (''tgid'', enc bo 4 (s_tgid s)),
        (''uid'', enc bo 4 (s_uid s)), (''family'', enc bo 2 (s_family s)),
        (''port'', enc bo 2 (s_port s)), (''addr'', s_addr s), (''comm'', s_comm s)]"
  using assms unfolding exec_layout sock_layout
  by (auto simp: valid_exec_def valid_sock_def encode_exec_def encode_sock_def elmer_consts
      field_simps_bytes)

definition sample_exec :: exec_event where
  "sample_exec = \<lparr>x_kind = 1, x_tgid = 7, x_pid = 7, x_uid = 0, x_gid = 0,
     x_comm = replicate 16 0, x_filename = replicate 128 0, x_argv_len = 0,
     x_argv = replicate 512 0\<rparr>"

definition sample_sock :: sock_event where
  "sample_sock = \<lparr>s_kind = 2, s_tgid = 7, s_uid = 0, s_family = 2, s_port = 443,
     s_addr = replicate 16 0, s_comm = replicate 16 0\<rparr>"

lemma valid_samples: "valid_exec sample_exec" "valid_sock sample_sock"
  by (simp_all add: valid_exec_def valid_sock_def sample_exec_def sample_sock_def elmer_consts)

theorem images_follow_layout_witness:
  "map_option (map (\<lambda>(f, o', n). (f, field o' n (encode_sock Little sample_sock))))
     (struct_layout sock_event_decl) =
   Some [(''kind'', enc Little 4 (2 :: u32)), (''tgid'', enc Little 4 (7 :: u32)),
     (''uid'', enc Little 4 (0 :: u32)), (''family'', enc Little 2 (2 :: u16)),
     (''port'', enc Little 2 (443 :: u16)), (''addr'', replicate 16 0), (''comm'', replicate 16 0)]"
  using images_follow_layout [OF valid_samples, of Little] by (simp add: sample_sock_def)

text \<open>
  Reading a record back gives the event that was written, and every block
  of the record's size is the image of exactly the event it is read as, in either byte
  order; different events have different images.
\<close>

theorem event_roundtrip:
  assumes "valid_exec e" and "valid_sock s" and "length bs = 680" and "length cs = 48"
  shows "length (encode_exec bo e) = 680 \<and> decode_exec bo (encode_exec bo e) = e \<and>
    encode_exec bo (decode_exec bo bs) = bs \<and>
    length (encode_sock bo s) = 48 \<and> decode_sock bo (encode_sock bo s) = s \<and>
    encode_sock bo (decode_sock bo cs) = cs \<and>
    (encode_exec bo e = bs \<longleftrightarrow> e = decode_exec bo bs)"
  using assms exec_codec.length_encode exec_codec.decode_encode exec_codec.encode_decode
    sock_codec.length_encode sock_codec.decode_encode sock_codec.encode_decode
  by auto

theorem event_roundtrip_witness:
  "decode_exec Big (encode_exec Big sample_exec) = sample_exec \<and>
   encode_sock Little (decode_sock Little (replicate 48 7)) = replicate 48 7"
  using event_roundtrip [OF valid_samples, of "replicate 680 1" "replicate 48 7" Big]
    event_roundtrip [OF valid_samples, of "replicate 680 1" "replicate 48 7" Little]
  by simp

end
