(* ===== verification/Bpf_Memory.thy ===== *)
theory Bpf_Memory
  imports Elmer_Layout
begin

text \<open>
  User memory as the probe-read helpers see it (an address either holds a byte or faults),
  what is stored there (byte blocks, strings, the \<^verbatim>\<open>argv\<close> array of an exec call), and the
  packing of an argument list into the \<^verbatim>\<open>argv\<close> buffer of an exec event: the specification
  that the loop of \<^verbatim>\<open>do_exec\<close> is proved against.
\<close>

type_synonym memory = "u64 \<Rightarrow> u8 option"

section \<open>Reading memory\<close>

fun read_bytes :: "memory \<Rightarrow> u64 \<Rightarrow> nat \<Rightarrow> u8 list option" where
  "read_bytes mem a 0 = Some []"
| "read_bytes mem a (Suc n) =
     (case mem a of None \<Rightarrow> None | Some b \<Rightarrow> map_option (Cons b) (read_bytes mem (a + 1) n))"

text \<open>The bytes up to the first NUL, at most \<open>n\<close> of them, without the NUL.\<close>

fun read_cstr :: "memory \<Rightarrow> u64 \<Rightarrow> nat \<Rightarrow> u8 list option" where
  "read_cstr mem a 0 = Some []"
| "read_cstr mem a (Suc n) =
     (case mem a of
        None \<Rightarrow> None
      | Some b \<Rightarrow> if b = 0 then Some [] else map_option (Cons b) (read_cstr mem (a + 1) n))"

definition load_ptr :: "memory \<Rightarrow> byte_order \<Rightarrow> u64 \<Rightarrow> u64 option" where
  "load_ptr mem bo a = map_option (dec bo) (read_bytes mem a 8)"

text \<open>
  The strings of an \<^verbatim>\<open>argv\<close> array from index \<open>i\<close> on, at most \<open>n\<close> of them and each up to
  \<^term>\<open>ARG_CHUNK\<close> bytes. The list ends at the NULL pointer, and also at a pointer or a
  string that cannot be read.
\<close>

fun user_argv :: "memory \<Rightarrow> byte_order \<Rightarrow> u64 \<Rightarrow> nat \<Rightarrow> nat \<Rightarrow> u8 list list" where
  "user_argv mem bo argv i 0 = []"
| "user_argv mem bo argv i (Suc n) =
     (case load_ptr mem bo (argv + 8 * of_nat i) of
        None \<Rightarrow> []
      | Some p \<Rightarrow>
          if p = 0 then []
          else case read_cstr mem p ARG_CHUNK of
            None \<Rightarrow> []
          | Some s \<Rightarrow> s # user_argv mem bo argv (Suc i) n)"

section \<open>Packing arguments\<close>

text \<open>
  The arguments an exec event keeps when the buffer is filled up to \<open>off\<close>: in order, each
  cut to 127 bytes, until the next one might not fit.
\<close>

fun captured :: "nat \<Rightarrow> u8 list list \<Rightarrow> u8 list list" where
  "captured off [] = []"
| "captured off (s # ss) =
     (if off \<le> ARGV_LEN - ARG_CHUNK
      then take (ARG_CHUNK - 1) s # captured (off + length (take (ARG_CHUNK - 1) s) + 1) ss
      else [])"

definition nul_terminated :: "u8 list list \<Rightarrow> u8 list" where
  "nul_terminated ss = concat (map (\<lambda>s. s @ [0]) ss)"

lemma nul_terminated_simps [simp]:
  "nul_terminated [] = []"
  "nul_terminated (s # ss) = s @ 0 # nul_terminated ss"
  by (simp_all add: nul_terminated_def)

lemma length_read_bytes: "read_bytes mem a n = Some bs \<Longrightarrow> length bs = n"
  by (induction n arbitrary: a bs) (auto split: option.splits)

lemma length_read_cstr: "read_cstr mem a n = Some s \<Longrightarrow> length s \<le> n"
  by (induction n arbitrary: a s) (auto split: option.splits if_splits)

lemma read_cstr_no_nul: "read_cstr mem a n = Some s \<Longrightarrow> 0 \<notin> set s"
  by (induction n arbitrary: a s) (auto split: option.splits if_splits)

lemma user_argv_no_nul: "s \<in> set (user_argv mem bo argv i n) \<Longrightarrow> 0 \<notin> set s"
  by (induction n arbitrary: i) (auto split: option.splits if_splits dest: read_cstr_no_nul)

lemma length_user_argv: "length (user_argv mem bo argv i n) \<le> n"
  by (induction n arbitrary: i) (auto split: option.splits)

lemma captured_no_nul: "(\<And>s. s \<in> set ss \<Longrightarrow> 0 \<notin> set s) \<Longrightarrow> t \<in> set (captured off ss) \<Longrightarrow> 0 \<notin> set t"
  by (induction off ss rule: captured.induct) (auto split: if_splits dest: in_set_takeD)

lemma captured_bound:
  "off \<le> ARGV_LEN \<Longrightarrow> off + length (nul_terminated (captured off ss)) \<le> ARGV_LEN"
proof (induction off ss rule: captured.induct)
  case (1 off)
  then show ?case by simp
next
  case (2 off s ss)
  show ?case
  proof (cases "off \<le> ARGV_LEN - ARG_CHUNK")
    case True
    then have "off + length (take (ARG_CHUNK - 1) s) + 1 \<le> ARGV_LEN"
      by (simp add: elmer_consts)
    from 2(1) [OF True this] True show ?thesis by simp
  next
    case False
    with 2 show ?thesis by simp
  qed
qed

text \<open>Short argument lists are kept whole.\<close>

lemma captured_all:
  "off + length (nul_terminated ss) \<le> ARGV_LEN - ARG_CHUNK \<Longrightarrow>
   (\<And>s. s \<in> set ss \<Longrightarrow> length s < ARG_CHUNK) \<Longrightarrow> captured off ss = ss"
proof (induction off ss rule: captured.induct)
  case (2 off s ss)
  have s: "take 127 s = s" "min (length s) 127 = length s"
    using 2(3) [of s] by (simp_all add: ARG_CHUNK_def)
  from 2 show ?case
    by (simp add: elmer_consts s)
qed simp

text \<open>What is kept is a prefix of the list, element by element.\<close>

lemma captured_length: "length (captured off ss) \<le> length ss"
  by (induction off ss rule: captured.induct) auto

lemma captured_prefix:
  "captured off ss = map (take (ARG_CHUNK - 1)) (take (length (captured off ss)) ss)"
  by (induction off ss rule: captured.induct) auto

end
