(* ===== verification/Elmer_Bpf.thy ===== *)
theory Elmer_Bpf
  imports Bpf_Memory Bpf_Endian
begin

text \<open>
  The programs of \<^verbatim>\<open>bpf/elmer.bpf.c\<close>. The kernel is a parameter: a state of any type
  \<^typ>\<open>'k\<close> and the six helpers the programs call, as functions on it. A helper that is
  handed a buffer receives the bytes of that buffer and returns the new ones. What the
  programs need of the helpers is stated as laws, after their documentation in
  \<^verbatim>\<open>bpf_helper_defs.h\<close>: those of \<open>bpf_kernel\<close> for safety, those of \<open>user_memory\<close> for what
  the records contain. A program run is \<open>None\<close> when it touches memory outside the object
  it may touch, and otherwise its return value and the new kernel state.
\<close>

section \<open>The helpers the programs call\<close>

record 'k bpf_ops =
  op_ringbuf_reserve :: "'k \<Rightarrow> nat \<Rightarrow> u8 list option \<times> 'k"
  op_ringbuf_submit :: "u8 list \<Rightarrow> 'k \<Rightarrow> 'k"
  op_pid_tgid :: "'k \<Rightarrow> u64"
  op_uid_gid :: "'k \<Rightarrow> u64"
  op_comm :: "'k \<Rightarrow> u8 list \<Rightarrow> int \<times> u8 list"
  op_read_user :: "'k \<Rightarrow> u8 list \<Rightarrow> u64 \<Rightarrow> int \<times> u8 list \<times> 'k"
  op_read_user_str :: "'k \<Rightarrow> u8 list \<Rightarrow> u64 \<Rightarrow> int \<times> u8 list \<times> 'k"

type_synonym 'a program = "'a option"

definition ctx_arg :: "sys_enter_ctx \<Rightarrow> nat \<Rightarrow> u64 option" where
  "ctx_arg ctx i = (if i < length (args ctx) then Some (args ctx ! i) else None)"

section \<open>do_exec\<close>

text \<open>
  The \<^verbatim>\<open>argv\<close> loop: one iteration per pointer of the array at \<open>argv\<close>. \<open>off\<close> is the 64-bit
  write position in \<^verbatim>\<open>e->argv\<close>.
\<close>

function argv_loop ::
  "'k bpf_ops \<Rightarrow> byte_order \<Rightarrow> u64 \<Rightarrow> nat \<Rightarrow> u64 \<Rightarrow> exec_event \<Rightarrow> 'k \<Rightarrow> (u64 \<times> exec_event \<times> 'k) program" where
  "argv_loop ops bo argv i off e k =
     (if \<not> i < MAX_ARGS then Some (off, e, k)
      else
        case op_read_user ops k (enc bo 8 (0 :: u64)) (argv + 8 * of_nat i) of (_, slot, k) \<Rightarrow>
        let argp = dec bo slot :: u64 in
        if argp = 0 then Some (off, e, k)
        else if off > of_nat (ARGV_LEN - ARG_CHUNK) then Some (off, e, k)
        else
          case window (unat off) ARG_CHUNK (x_argv e) of
            None \<Rightarrow> None
          | Some dst \<Rightarrow>
              (case op_read_user_str ops k dst argp of (n, dst, k) \<Rightarrow>
               let e = e\<lparr>x_argv := put_at (unat off) dst (x_argv e)\<rparr> in
               if n \<le> 0 then Some (off, e, k)
               else
                 let n = (if n > int ARG_CHUNK then int ARG_CHUNK else n) in
                 argv_loop ops bo argv (i + 1) (off + of_int n) e k))"
  by pat_completeness auto
termination
  by (relation "measure (\<lambda>(ops, bo, argv, i, off, e, k). MAX_ARGS - i)") (auto simp: MAX_ARGS_def)

declare argv_loop.simps [simp del]

definition fill_ids :: "'k bpf_ops \<Rightarrow> 'k \<Rightarrow> exec_event \<Rightarrow> exec_event" where
  "fill_ids ops k e =
     (let pid_tgid = op_pid_tgid ops k; uid_gid = op_uid_gid ops k in
      e\<lparr>x_kind := EXEC_KIND, x_tgid := ucast (drop_bit 32 pid_tgid), x_pid := ucast pid_tgid,
        x_uid := ucast uid_gid, x_gid := ucast (drop_bit 32 uid_gid),
        x_comm := snd (op_comm ops k (x_comm e))\<rparr>)"

definition do_exec ::
  "'k bpf_ops \<Rightarrow> byte_order \<Rightarrow> sys_enter_ctx \<Rightarrow> nat \<Rightarrow> nat \<Rightarrow> 'k \<Rightarrow> (int \<times> 'k) program" where
  "do_exec ops bo ctx fname_idx argv_idx k =
     (case op_ringbuf_reserve ops k (sizeof_struct exec_event_decl) of
        (None, k) \<Rightarrow> Some (0, k)
      | (Some raw, k) \<Rightarrow>
          let e = fill_ids ops k (decode_exec bo raw) in
          case ctx_arg ctx fname_idx of
            None \<Rightarrow> None
          | Some fname \<Rightarrow>
              (case op_read_user_str ops k (x_filename e) fname of (_, dst, k) \<Rightarrow>
               let e = e\<lparr>x_filename := dst\<rparr> in
               case ctx_arg ctx argv_idx of
                 None \<Rightarrow> None
               | Some argv \<Rightarrow>
                   (case (if argv \<noteq> 0 then argv_loop ops bo argv 0 0 e k else Some (0, e, k)) of
                      None \<Rightarrow> None
                    | Some (off, e, k) \<Rightarrow>
                        let e = e\<lparr>x_argv_len := ucast off\<rparr> in
                        Some (0, op_ringbuf_submit ops (encode_exec bo e) k))))"

definition trace_execve :: "'k bpf_ops \<Rightarrow> byte_order \<Rightarrow> sys_enter_ctx \<Rightarrow> 'k \<Rightarrow> (int \<times> 'k) program" where
  "trace_execve ops bo ctx k = do_exec ops bo ctx 0 1 k"

definition trace_execveat :: "'k bpf_ops \<Rightarrow> byte_order \<Rightarrow> sys_enter_ctx \<Rightarrow> 'k \<Rightarrow> (int \<times> 'k) program" where
  "trace_execveat ops bo ctx k = do_exec ops bo ctx 1 2 k"

section \<open>do_sock\<close>

definition sock_ids :: "'k bpf_ops \<Rightarrow> 'k \<Rightarrow> u32 \<Rightarrow> u16 \<Rightarrow> sock_event \<Rightarrow> sock_event" where
  "sock_ids ops k kind family e =
     (let pid_tgid = op_pid_tgid ops k in
      e\<lparr>s_kind := kind, s_tgid := ucast (drop_bit 32 pid_tgid), s_uid := ucast (op_uid_gid ops k),
        s_family := family, s_comm := snd (op_comm ops k (s_comm e))\<rparr>)"

text \<open>The two address families, each reading its own \<^verbatim>\<open>sockaddr\<close> into zeroed stack memory.\<close>

definition fill_inet :: "'k bpf_ops \<Rightarrow> byte_order \<Rightarrow> u64 \<Rightarrow> sock_event \<Rightarrow> 'k \<Rightarrow> sock_event \<times> 'k" where
  "fill_inet ops bo addr e k =
     (case op_read_user ops k (replicate (sizeof_struct sockaddr_in_decl) 0) addr of (_, dst, k) \<Rightarrow>
      let sa = decode_sockaddr_in bo dst in
      (e\<lparr>s_port := bpf_ntohs False bo (sin_port sa),
         s_addr := put_at 0 (enc bo 4 (sin_addr sa)) (s_addr e)\<rparr>, k))"

definition fill_inet6 :: "'k bpf_ops \<Rightarrow> byte_order \<Rightarrow> u64 \<Rightarrow> sock_event \<Rightarrow> 'k \<Rightarrow> sock_event \<times> 'k" where
  "fill_inet6 ops bo addr e k =
     (case op_read_user ops k (replicate (sizeof_struct sockaddr_in6_decl) 0) addr of (_, dst, k) \<Rightarrow>
      let sa = decode_sockaddr_in6 bo dst in
      (e\<lparr>s_port := bpf_ntohs False bo (sin6_port sa),
         s_addr := put_at 0 (sin6_addr sa) (s_addr e)\<rparr>, k))"

definition do_sock ::
  "'k bpf_ops \<Rightarrow> byte_order \<Rightarrow> sys_enter_ctx \<Rightarrow> u32 \<Rightarrow> 'k \<Rightarrow> (int \<times> 'k) program" where
  "do_sock ops bo ctx kind k =
     (case ctx_arg ctx 1 of
        None \<Rightarrow> None
      | Some addr \<Rightarrow>
          (case op_read_user ops k (enc bo 2 (0 :: u16)) addr of (_, dst, k) \<Rightarrow>
           let family = dec bo dst :: u16 in
           if family \<noteq> AF_INET \<and> family \<noteq> AF_INET6 then Some (0, k)
           else
             case op_ringbuf_reserve ops k (sizeof_struct sock_event_decl) of
               (None, k) \<Rightarrow> Some (0, k)
             | (Some raw, k) \<Rightarrow>
                 let e = sock_ids ops k kind family (decode_sock bo raw);
                     (e, k) = (if family = AF_INET then fill_inet ops bo addr e k
                               else fill_inet6 ops bo addr e k)
                 in Some (0, op_ringbuf_submit ops (encode_sock bo e) k)))"

definition trace_connect :: "'k bpf_ops \<Rightarrow> byte_order \<Rightarrow> sys_enter_ctx \<Rightarrow> 'k \<Rightarrow> (int \<times> 'k) program" where
  "trace_connect ops bo ctx k = do_sock ops bo ctx CONNECT_KIND k"

definition trace_bind :: "'k bpf_ops \<Rightarrow> byte_order \<Rightarrow> sys_enter_ctx \<Rightarrow> 'k \<Rightarrow> (int \<times> 'k) program" where
  "trace_bind ops bo ctx k = do_sock ops bo ctx BIND_KIND k"


text \<open>One step of the write position: the guard and the clamp keep it in the buffer.\<close>

lemma unat_off_step:
  assumes "unat (off :: u64) \<le> 384" and "0 < n" and "n \<le> 128"
  shows "unat (off + of_int n) = unat off + nat n"
proof -
  have "(of_int n :: u64) = of_nat (nat n)"
    using assms(2) by simp
  then have n: "unat (of_int n :: u64) = nat n"
    using assms by (simp only: unsigned_of_nat) (simp add: take_bit_eq_mod)
  with assms show ?thesis
    by (subst unat_add_lem [THEN iffD1]) simp_all
qed

lemma off_step:
  "unat (off :: u64) \<le> 384 \<Longrightarrow> 0 < n \<Longrightarrow> n \<le> 128 \<Longrightarrow> off + of_int n \<le> 512"
  by (simp add: word_le_nat_alt unat_off_step)

lemma ucast_le_512: "(off :: u64) \<le> 512 \<Longrightarrow> (ucast off :: u32) \<le> 512"
  by (simp add: word_le_nat_alt unsigned_ucast_eq take_bit_eq_mod)

text \<open>The three outcomes of an iteration.\<close>

lemma argv_loop_end: "\<not> i < MAX_ARGS \<Longrightarrow> argv_loop ops bo argv i off e k = Some (off, e, k)"
  by (subst argv_loop.simps) simp

lemma argv_loop_break:
  assumes "i < MAX_ARGS"
    and "op_read_user ops k (enc bo 8 (0 :: u64)) (argv + 8 * of_nat i) = (r, slot, k')"
    and "dec bo slot = (0 :: u64) \<or> off > 384"
  shows "argv_loop ops bo argv i off e k = Some (off, e, k')"
  using assms by (subst argv_loop.simps) (auto simp: Let_def ARGV_LEN_def ARG_CHUNK_def)

lemma argv_loop_read:
  assumes "i < MAX_ARGS"
    and "op_read_user ops k (enc bo 8 (0 :: u64)) (argv + 8 * of_nat i) = (r, slot, k1)"
    and "dec bo slot \<noteq> (0 :: u64)" and "\<not> off > 384" and "length (x_argv e) = 512"
    and "op_read_user_str ops k1 (take 128 (drop (unat off) (x_argv e))) (dec bo slot) = (n, dst, k2)"
  shows "argv_loop ops bo argv i off e k =
    (let e' = e\<lparr>x_argv := put_at (unat off) dst (x_argv e)\<rparr> in
     if n \<le> 0 then Some (off, e', k2)
     else argv_loop ops bo argv (i + 1) (off + of_int (min n 128)) e' k2)"
proof -
  have "unat off \<le> 384"
    using assms(4) by (simp add: word_less_nat_alt)
  then have "window (unat off) ARG_CHUNK (x_argv e) = Some (take 128 (drop (unat off) (x_argv e)))"
    using assms(5) by (simp add: window_def ARG_CHUNK_def)
  moreover have "(if n > int ARG_CHUNK then int ARG_CHUNK else n) = min n 128"
    by (simp add: ARG_CHUNK_def)
  ultimately show ?thesis
    using assms by (subst argv_loop.simps) (simp add: Let_def ARGV_LEN_def ARG_CHUNK_def)
qed

text \<open>
  A run of a program that returns 0, leaves no reservation open, and submits nothing or one
  record for which \<open>P\<close> holds; the images the two kinds of program may submit.
\<close>

definition clean_run ::
  "('k \<Rightarrow> u8 list list) \<Rightarrow> ('k \<Rightarrow> nat) \<Rightarrow> (u8 list \<Rightarrow> bool) \<Rightarrow> 'k \<Rightarrow> (int \<times> 'k) program \<Rightarrow> bool" where
  "clean_run records pending P k run \<longleftrightarrow> (case run of None \<Rightarrow> False | Some (r, k') \<Rightarrow>
     r = 0 \<and> pending k' = pending k \<and>
     (records k' = records k \<or>
       butlast (records k') = records k \<and> records k' \<noteq> [] \<and> P (last (records k'))))"

definition exec_image :: "byte_order \<Rightarrow> u8 list \<Rightarrow> bool" where
  "exec_image bo d \<longleftrightarrow> length d = sizeof_struct exec_event_decl \<and>
     x_kind (decode_exec bo d) = EXEC_KIND \<and> unat (x_argv_len (decode_exec bo d)) \<le> ARGV_LEN"

definition sock_image :: "byte_order \<Rightarrow> u32 \<Rightarrow> u8 list \<Rightarrow> bool" where
  "sock_image bo kind d \<longleftrightarrow> length d = sizeof_struct sock_event_decl \<and>
     s_kind (decode_sock bo d) = kind \<and> s_family (decode_sock bo d) \<in> {AF_INET, AF_INET6}"

lemma exec_image_encode:
  "valid_exec e \<Longrightarrow> x_kind e = EXEC_KIND \<Longrightarrow> x_argv_len e \<le> 512 \<Longrightarrow> exec_image bo (encode_exec bo e)"
  by (simp add: exec_image_def exec_codec.length_encode exec_codec.decode_encode ARGV_LEN_def word_le_nat_alt)

lemma sock_image_encode:
  "valid_sock e \<Longrightarrow> s_kind e = kind \<Longrightarrow> s_family e = AF_INET \<or> s_family e = AF_INET6 \<Longrightarrow>
   sock_image bo kind (encode_sock bo e)"
  by (auto simp: sock_image_def sock_codec.length_encode sock_codec.decode_encode)

text \<open>A run of \<^verbatim>\<open>do_exec\<close> that gets its reservation, from the results of the helper calls.\<close>

lemma do_exec_run:
  assumes "op_ringbuf_reserve ops k 680 = (Some raw, k1)"
    and "fname_idx < length (args ctx)" and "argv_idx < length (args ctx)"
    and "op_read_user_str ops k1 (x_filename (fill_ids ops k1 (decode_exec bo raw))) (args ctx ! fname_idx) = (n, dst, k2)"
    and "(if args ctx ! argv_idx \<noteq> 0
       then argv_loop ops bo (args ctx ! argv_idx) 0 0 ((fill_ids ops k1 (decode_exec bo raw))\<lparr>x_filename := dst\<rparr>) k2
       else Some (0, (fill_ids ops k1 (decode_exec bo raw))\<lparr>x_filename := dst\<rparr>, k2)) = Some (off, e, k3)"
  shows "do_exec ops bo ctx fname_idx argv_idx k =
    Some (0, op_ringbuf_submit ops (encode_exec bo (e\<lparr>x_argv_len := ucast off\<rparr>)) k3)"
  using assms by (auto simp: do_exec_def ctx_arg_def Let_def split: if_splits)

lemma do_sock_run:
  assumes "1 < length (args ctx)"
    and "op_read_user ops k (enc bo 2 (0 :: u16)) (args ctx ! 1) = (r, dst, k1)"
    and "dec bo dst = AF_INET \<or> dec bo dst = AF_INET6"
    and "op_ringbuf_reserve ops k1 48 = (Some raw, k2)"
    and "(if dec bo dst = AF_INET then fill_inet else fill_inet6) ops bo (args ctx ! 1)
      (sock_ids ops k2 kind (dec bo dst) (decode_sock bo raw)) k2 = (e, k3)"
  shows "do_sock ops bo ctx kind k = Some (0, op_ringbuf_submit ops (encode_sock bo e) k3)"
  using assms by (auto simp: do_sock_def ctx_arg_def Let_def split: if_splits)

section \<open>Safety: what every kernel guarantees\<close>

text \<open>
  The contract of the helpers for safety. \<open>records\<close> are the records submitted so far and
  \<open>pending\<close> counts the reservations still open: a reservation yields exactly the bytes
  asked for or nothing, submitting closes it and publishes its contents, and a helper that
  fills a buffer fills that buffer and no more. Nothing is assumed of the values read.
\<close>

locale bpf_kernel =
  fixes ops :: "'k bpf_ops"
    and records :: "'k \<Rightarrow> u8 list list"
    and pending :: "'k \<Rightarrow> nat"
  assumes reserve_full: "op_ringbuf_reserve ops k n = (None, k') \<Longrightarrow>
      records k' = records k \<and> pending k' = pending k"
    and reserve_ok: "op_ringbuf_reserve ops k n = (Some raw, k') \<Longrightarrow>
      length raw = n \<and> records k' = records k \<and> pending k' = Suc (pending k)"
    and submit: "pending k > 0 \<Longrightarrow> records (op_ringbuf_submit ops d k) = records k @ [d] \<and>
      Suc (pending (op_ringbuf_submit ops d k)) = pending k"
    and comm_length: "length (snd (op_comm ops k dst)) = length dst"
    and read_user_frame: "op_read_user ops k dst p = (r, dst', k') \<Longrightarrow>
      length dst' = length dst \<and> records k' = records k \<and> pending k' = pending k"
    and read_user_str_frame: "op_read_user_str ops k dst p = (r, dst', k') \<Longrightarrow>
      length dst' = length dst \<and> records k' = records k \<and> pending k' = pending k"
begin

text \<open>The write position never leaves \<^verbatim>\<open>e->argv\<close>, whatever the helpers return.\<close>

lemma argv_loop_safe:
  assumes "valid_exec e" and "off \<le> 512"
  shows "\<exists>off' e' k'. argv_loop ops bo argv i off e k = Some (off', e', k') \<and> off' \<le> 512 \<and>
    valid_exec e' \<and> e' = e\<lparr>x_argv := x_argv e'\<rparr> \<and> records k' = records k \<and> pending k' = pending k"
  using assms
proof (induction "MAX_ARGS - i" arbitrary: i off e k)
  case 0
  then show ?case by (simp add: argv_loop_end)
next
  case (Suc m)
  obtain r slot k1 where r1: "op_read_user ops k (enc bo 8 (0 :: u64)) (argv + 8 * of_nat i) = (r, slot, k1)"
    by (cases "op_read_user ops k (enc bo 8 (0 :: u64)) (argv + 8 * of_nat i)") auto
  note f1 = read_user_frame [OF r1]
  have i: "i < MAX_ARGS"
    using Suc.hyps(2) by simp
  show ?case
  proof (cases "dec bo slot = (0 :: u64) \<or> off > 384")
    case True
    with Suc.prems f1 show ?thesis
      by (simp add: argv_loop_break [OF i r1])
  next
    case False
    then have off: "unat off \<le> 384"
      by (simp add: word_less_nat_alt)
    obtain n dst k2 where r2:
      "op_read_user_str ops k1 (take 128 (drop (unat off) (x_argv e))) (dec bo slot) = (n, dst, k2)"
      by (cases "op_read_user_str ops k1 (take 128 (drop (unat off) (x_argv e))) (dec bo slot)") auto
    note f2 = read_user_str_frame [OF r2]
    define e2 where "e2 = e\<lparr>x_argv := put_at (unat off) dst (x_argv e)\<rparr>"
    have v2: "valid_exec e2"
      using Suc.prems off f2 by (simp add: e2_def valid_exec_def elmer_consts length_put_at)
    have unfold: "argv_loop ops bo argv i off e k =
        (if n \<le> 0 then Some (off, e2, k2) else argv_loop ops bo argv (i + 1) (off + of_int (min n 128)) e2 k2)"
      using argv_loop_read [OF i r1 _ _ _ r2] False Suc.prems(1)
      by (simp add: e2_def valid_exec_def ARGV_LEN_def)
    show ?thesis
    proof (cases "n \<le> 0")
      case True
      with v2 Suc.prems f1 f2 show ?thesis by (simp add: unfold e2_def)
    next
      case False
      then have "off + of_int (min n 128) \<le> 512"
        by (intro off_step off) simp_all
      moreover have "m = MAX_ARGS - (i + 1)"
        using Suc.hyps(2) by simp
      ultimately have "\<exists>off' e' k'. argv_loop ops bo argv (i + 1) (off + of_int (min n 128)) e2 k2 = Some (off', e', k') \<and>
          off' \<le> 512 \<and> valid_exec e' \<and> e' = e2\<lparr>x_argv := x_argv e'\<rparr> \<and>
          records k' = records k2 \<and> pending k' = pending k2"
        by (intro Suc.hyps(1) v2)
      with False f1 f2 show ?thesis
        by (simp add: unfold e2_def)
    qed
  qed
qed

lemma clean_run_idle: "pending k' = pending k \<Longrightarrow> records k' = records k \<Longrightarrow> clean_run records pending P k (Some (0, k'))"
  by (simp add: clean_run_def)

lemma clean_run_submit:
  assumes "pending k' = Suc (pending k)" and "records k' = records k" and "P d"
  shows "clean_run records pending P k (Some (0, op_ringbuf_submit ops d k'))"
  using submit [of k' d] assms by (auto simp: clean_run_def)

lemma valid_fill_ids: "valid_exec e \<Longrightarrow> valid_exec (fill_ids ops k e)"
  by (simp add: valid_exec_def fill_ids_def Let_def comm_length)

lemma do_exec_safe:
  assumes "fname_idx < length (args ctx)" and "argv_idx < length (args ctx)"
  shows "clean_run records pending (exec_image bo) k (do_exec ops bo ctx fname_idx argv_idx k)"
proof (cases "op_ringbuf_reserve ops k 680")
  case (Pair raw k1)
  show ?thesis
  proof (cases raw)
    case None
    with Pair show ?thesis
      using reserve_full [of k 680 k1] by (simp add: do_exec_def clean_run_idle)
  next
    case (Some raw)
    note r = reserve_ok [of k 680 raw k1, unfolded Pair Some, OF refl]
    define e where "e = fill_ids ops k1 (decode_exec bo raw)"
    have e: "valid_exec e" "x_kind e = EXEC_KIND"
      using exec_codec.valid_decode [of raw bo] r
      by (simp_all add: e_def valid_fill_ids) (simp add: fill_ids_def Let_def)
    obtain n dst k2 where r2: "op_read_user_str ops k1 (x_filename e) (args ctx ! fname_idx) = (n, dst, k2)"
      by (cases "op_read_user_str ops k1 (x_filename e) (args ctx ! fname_idx)") auto
    note f2 = read_user_str_frame [OF r2]
    define e2 where "e2 = e\<lparr>x_filename := dst\<rparr>"
    have e2: "valid_exec e2" "x_kind e2 = EXEC_KIND"
      using e f2 by (simp_all add: e2_def valid_exec_def)
    let ?run = "if args ctx ! argv_idx \<noteq> 0 then argv_loop ops bo (args ctx ! argv_idx) 0 0 e2 k2
      else Some (0, e2, k2)"
    obtain off e3 k3 where r3: "?run = Some (off, e3, k3)" and off: "off \<le> 512"
      and e3: "valid_exec e3" "e3 = e2\<lparr>x_argv := x_argv e3\<rparr>"
      and k3: "records k3 = records k2" "pending k3 = pending k2"
      using argv_loop_safe [OF e2(1), of 0 bo "args ctx ! argv_idx" 0 k2] e2(1)
      by (cases "args ctx ! argv_idx = 0") auto
    have "do_exec ops bo ctx fname_idx argv_idx k =
        Some (0, op_ringbuf_submit ops (encode_exec bo (e3\<lparr>x_argv_len := ucast off\<rparr>)) k3)"
      by (rule do_exec_run [OF Pair [unfolded Some] assms r2 [unfolded e_def] r3 [unfolded e2_def e_def]])
    moreover have "exec_image bo (encode_exec bo (e3\<lparr>x_argv_len := ucast off\<rparr>))"
    proof (rule exec_image_encode)
      show "valid_exec (e3\<lparr>x_argv_len := ucast off\<rparr>)"
        using e3(1) by (simp add: valid_exec_def)
      show "x_kind (e3\<lparr>x_argv_len := ucast off\<rparr>) = EXEC_KIND"
        using arg_cong [OF e3(2), of x_kind] e2(2) by simp
      show "x_argv_len (e3\<lparr>x_argv_len := ucast off\<rparr>) \<le> 512"
        using off by (simp add: ucast_le_512)
    qed
    ultimately show ?thesis
      using r f2 k3 by (simp add: clean_run_submit)
  qed
qed

lemma fill_inet_safe:
  assumes "valid_sock e" and "fill_inet ops bo addr e k = (e', k')"
  shows "valid_sock e' \<and> s_kind e' = s_kind e \<and> s_family e' = s_family e \<and>
    records k' = records k \<and> pending k' = pending k"
proof -
  obtain r dst k1 where r: "op_read_user ops k (replicate 16 0) addr = (r, dst, k1)"
    by (cases "op_read_user ops k (replicate 16 0) addr") auto
  with assms read_user_frame [OF r] show ?thesis
    by (auto simp: fill_inet_def Let_def valid_sock_def length_put_at)
qed

lemma fill_inet6_safe:
  assumes "valid_sock e" and "fill_inet6 ops bo addr e k = (e', k')"
  shows "valid_sock e' \<and> s_kind e' = s_kind e \<and> s_family e' = s_family e \<and>
    records k' = records k \<and> pending k' = pending k"
proof -
  obtain r dst k1 where r: "op_read_user ops k (replicate 28 0) addr = (r, dst, k1)"
    by (cases "op_read_user ops k (replicate 28 0) addr") auto
  with assms read_user_frame [OF r] show ?thesis
    by (auto simp: fill_inet6_def Let_def valid_sock_def length_put_at length_field decode_sockaddr_in6_def)
qed

lemma do_sock_safe:
  assumes "1 < length (args ctx)"
  shows "clean_run records pending (sock_image bo kind) k (do_sock ops bo ctx kind k)"
proof -
  obtain r dst k1 where r1: "op_read_user ops k (enc bo 2 (0 :: u16)) (args ctx ! 1) = (r, dst, k1)"
    by (cases "op_read_user ops k (enc bo 2 (0 :: u16)) (args ctx ! 1)") auto
  note f1 = read_user_frame [OF r1]
  show ?thesis
  proof (cases "dec bo dst = AF_INET \<or> dec bo dst = AF_INET6")
    case False
    with f1 assms show ?thesis
      by (simp add: do_sock_def ctx_arg_def r1 [simplified] Let_def clean_run_idle)
  next
    case True
    obtain raw k2 where r2: "op_ringbuf_reserve ops k1 48 = (raw, k2)"
      by (cases "op_ringbuf_reserve ops k1 48")
    show ?thesis
    proof (cases raw)
      case None
      with True f1 assms r2 show ?thesis
        using reserve_full [of k1 48 k2]
        by (auto simp: do_sock_def ctx_arg_def r1 [simplified] Let_def clean_run_idle)
    next
      case (Some raw)
      note f2 = reserve_ok [OF r2 [unfolded Some]]
      define e where "e = sock_ids ops k2 kind (dec bo dst) (decode_sock bo raw)"
      have e: "valid_sock e" "s_kind e = kind" "s_family e = dec bo dst"
        using sock_codec.valid_decode [of raw bo] f2
        by (auto simp: e_def sock_ids_def valid_sock_def comm_length Let_def)
      let ?fill = "if dec bo dst = AF_INET then fill_inet else fill_inet6"
      obtain e' k3 where r3: "?fill ops bo (args ctx ! 1) e k2 = (e', k3)"
        by (cases "?fill ops bo (args ctx ! 1) e k2")
      then have e': "valid_sock e' \<and> s_kind e' = s_kind e \<and> s_family e' = s_family e \<and>
          records k3 = records k2 \<and> pending k3 = pending k2"
        using fill_inet_safe [OF e(1)] fill_inet6_safe [OF e(1)] by (auto split: if_splits)
      have "do_sock ops bo ctx kind k = Some (0, op_ringbuf_submit ops (encode_sock bo e') k3)"
        by (rule do_sock_run [OF assms r1 True r2 [unfolded Some] r3 [unfolded e_def]])
      moreover have "sock_image bo kind (encode_sock bo e')"
        using e e' True by (auto intro: sock_image_encode)
      ultimately show ?thesis
        using f1 f2 e' by (simp add: clean_run_submit)
    qed
  qed
qed

end

end
