(* ===== verification/Elmer_Content.thy ===== *)
theory Elmer_Content
  imports Elmer_Bpf
begin

text \<open>
  What the records of \<^verbatim>\<open>elmer.bpf.c\<close> contain. The contract \<open>user_memory\<close> extends
  \<open>bpf_kernel\<close> with the values the helpers deliver, after their documentation: a probe
  read delivers the bytes of user memory or fails, a string read delivers a NUL-terminated
  prefix and its length. It holds as long as the process does not change its own memory
  while the program runs; the safety theorems of \<^theory_text>\<open>Elmer_Bpf\<close> do not need that.
  The specifications \<open>exec_spec\<close> and \<open>sock_spec\<close> say what a record reports of the call.
\<close>

section \<open>What a program can observe of a process\<close>

record user_view =
  v_mem :: memory
  v_pid_tgid :: u64
  v_uid_gid :: u64
  v_comm :: "u8 list"

definition c_string :: "u8 list \<Rightarrow> u8 list" where
  "c_string bs = takeWhile (\<lambda>b. b \<noteq> 0) bs"

lemma c_string_prefix:
  assumes "take (Suc (length t)) bs = t @ [0]" and "0 \<notin> set t"
  shows "c_string bs = t"
proof -
  have "bs = t @ 0 # drop (Suc (length t)) bs"
    using append_take_drop_id [of "Suc (length t)" bs] assms(1) by simp
  moreover have "takeWhile (\<lambda>b. b \<noteq> 0) (t @ 0 # drop (Suc (length t)) bs) = t"
    using assms(2) by (subst takeWhile_append2) auto
  ultimately show ?thesis
    unfolding c_string_def by metis
qed

section \<open>Specifications\<close>

text \<open>Unreadable memory is seen as the zeroes the buffer was initialised with.\<close>

definition bytes_or_zero :: "memory \<Rightarrow> u64 \<Rightarrow> nat \<Rightarrow> u8 list" where
  "bytes_or_zero mem p n = (case read_bytes mem p n of None \<Rightarrow> replicate n 0 | Some bs \<Rightarrow> bs)"

definition exec_args :: "byte_order \<Rightarrow> memory \<Rightarrow> u64 \<Rightarrow> u8 list list" where
  "exec_args bo mem argv =
     (if argv = 0 then [] else captured 0 (user_argv mem bo argv 0 MAX_ARGS))"

definition exec_spec :: "byte_order \<Rightarrow> user_view \<Rightarrow> u64 \<Rightarrow> u64 \<Rightarrow> exec_event \<Rightarrow> bool" where
  "exec_spec bo v fname argv e \<longleftrightarrow>
     valid_exec e \<and> x_kind e = EXEC_KIND \<and>
     x_tgid e = ucast (drop_bit 32 (v_pid_tgid v)) \<and> x_pid e = ucast (v_pid_tgid v) \<and>
     x_uid e = ucast (v_uid_gid v) \<and> x_gid e = ucast (drop_bit 32 (v_uid_gid v)) \<and>
     c_string (x_comm e) = take (COMM_LEN - 1) (v_comm v) \<and>
     (\<forall>s. read_cstr (v_mem v) fname FNAME_LEN = Some s \<longrightarrow>
        c_string (x_filename e) = take (FNAME_LEN - 1) s) \<and>
     unat (x_argv_len e) = length (nul_terminated (exec_args bo (v_mem v) argv)) \<and>
     take (unat (x_argv_len e)) (x_argv e) = nul_terminated (exec_args bo (v_mem v) argv)"

definition sock_family :: "byte_order \<Rightarrow> user_view \<Rightarrow> u64 \<Rightarrow> u16" where
  "sock_family bo v addr = dec bo (bytes_or_zero (v_mem v) addr 2)"

definition sock_spec :: "byte_order \<Rightarrow> user_view \<Rightarrow> u32 \<Rightarrow> u64 \<Rightarrow> sock_event \<Rightarrow> bool" where
  "sock_spec bo v kind addr e \<longleftrightarrow>
     valid_sock e \<and> s_kind e = kind \<and>
     s_tgid e = ucast (drop_bit 32 (v_pid_tgid v)) \<and> s_uid e = ucast (v_uid_gid v) \<and>
     c_string (s_comm e) = take (COMM_LEN - 1) (v_comm v) \<and>
     s_family e = sock_family bo v addr \<and>
     (if s_family e = AF_INET then
        s_port e = dec Big (field 2 2 (bytes_or_zero (v_mem v) addr 16)) \<and>
        take 4 (s_addr e) = field 4 4 (bytes_or_zero (v_mem v) addr 16)
      else
        s_port e = dec Big (field 2 2 (bytes_or_zero (v_mem v) addr 28)) \<and>
        s_addr e = field 8 16 (bytes_or_zero (v_mem v) addr 28))"

lemma enc_zero: "enc bo n (0 :: 'a::len word) = replicate n 0"
proof -
  have "nat_le n 0 = replicate n 0"
    by (induction n) simp_all
  then show ?thesis
    by (simp add: enc_def order_bytes_def split: byte_order.split)
qed

lemma ntohs_dec: "length bs = 2 \<Longrightarrow> bpf_ntohs c bo (dec bo bs) = dec Big bs"
  by (cases bo; cases c) (simp_all add: endian_defs swab_bswap bswap_dec)

section \<open>The contract\<close>

locale user_memory = bpf_kernel ops records pending
  for ops :: "'k bpf_ops" and records :: "'k \<Rightarrow> u8 list list" and pending :: "'k \<Rightarrow> nat" +
  fixes view :: "'k \<Rightarrow> user_view"
    and room :: "'k \<Rightarrow> nat \<Rightarrow> bool"
  assumes reserve_room: "op_ringbuf_reserve ops k m = (r, k') \<Longrightarrow> room k m \<longleftrightarrow> r \<noteq> None"
    and read_user_room: "op_read_user ops k dst p = (n, dst', k') \<Longrightarrow> room k' = room k"
    and reserve_view: "op_ringbuf_reserve ops k m = (r, k') \<Longrightarrow> view k' = view k"
    and read_user_view: "op_read_user ops k dst p = (n, dst', k') \<Longrightarrow> view k' = view k"
    and read_user_str_view: "op_read_user_str ops k dst p = (n, dst', k') \<Longrightarrow> view k' = view k"
    and ids: "op_pid_tgid ops k = v_pid_tgid (view k)" "op_uid_gid ops k = v_uid_gid (view k)"
    and comm: "dst \<noteq> [] \<Longrightarrow> c_string (snd (op_comm ops k dst)) = take (length dst - 1) (v_comm (view k))"
    and read_user: "op_read_user ops k dst p = (n, dst', k') \<Longrightarrow>
      read_bytes (v_mem (view k)) p (length dst) = Some bs \<Longrightarrow> n = 0 \<and> dst' = bs"
    and read_user_fault: "op_read_user ops k dst p = (n, dst', k') \<Longrightarrow>
      read_bytes (v_mem (view k)) p (length dst) = None \<Longrightarrow>
      n < 0 \<and> (dst' = dst \<or> dst' = replicate (length dst) 0)"
    and read_user_str: "op_read_user_str ops k dst p = (n, dst', k') \<Longrightarrow> dst \<noteq> [] \<Longrightarrow>
      read_cstr (v_mem (view k)) p (length dst) = Some s \<Longrightarrow>
      n = int (Suc (length (take (length dst - 1) s))) \<and>
      take (Suc (length (take (length dst - 1) s))) dst' = take (length dst - 1) s @ [0]"
    and read_user_str_fault: "op_read_user_str ops k dst p = (n, dst', k') \<Longrightarrow>
      read_cstr (v_mem (view k)) p (length dst) = None \<Longrightarrow> n < 0"
begin

lemma read_user_zeroed:
  assumes "op_read_user ops k (replicate m 0) p = (n, dst', k')"
  shows "dst' = bytes_or_zero (v_mem (view k)) p m"
  using read_user [OF assms] read_user_fault [OF assms]
  by (cases "read_bytes (v_mem (view k)) p m") (auto simp: bytes_or_zero_def)

lemma read_str_c_string:
  assumes "op_read_user_str ops k dst p = (n, dst', k')" and "dst \<noteq> []"
    and "read_cstr (v_mem (view k)) p (length dst) = Some s"
  shows "c_string dst' = take (length dst - 1) s"
proof (rule c_string_prefix)
  show "take (Suc (length (take (length dst - 1) s))) dst' = take (length dst - 1) s @ [0]"
    using read_user_str [OF assms] by simp
  show "0 \<notin> set (take (length dst - 1) s)"
    using read_cstr_no_nul [OF assms(3)] by (meson in_set_takeD)
qed

text \<open>The slot that the loop reads: the pointer, or NULL if it cannot be read.\<close>

lemma read_slot:
  assumes "op_read_user ops k (enc bo 8 (0 :: u64)) p = (n, slot, k')"
  shows "dec bo slot = (case load_ptr (v_mem (view k)) bo p of None \<Rightarrow> 0 | Some q \<Rightarrow> q)"
proof -
  have z: "enc bo 8 (0 :: u64) = replicate 8 0"
    by (simp add: enc_zero)
  have "dec bo (replicate 8 0) = (0 :: u64)"
    using dec_enc [of 8 bo "0 :: u64"] by (simp add: z)
  with read_user_zeroed [OF assms [unfolded z]] show ?thesis
    by (auto simp: bytes_or_zero_def load_ptr_def split: option.splits)
qed

lemma argv_loop_content:
  assumes "valid_exec e" and "off \<le> 512" and "argv_loop ops bo argv i off e k = Some (off', e', k')"
    and "packed = nul_terminated (captured (unat off) (user_argv (v_mem (view k)) bo argv i (MAX_ARGS - i)))"
  shows "unat off' = unat off + length packed \<and>
    take (unat off') (x_argv e') = take (unat off) (x_argv e) @ packed \<and> view k' = view k"
  using assms
proof (induction "MAX_ARGS - i" arbitrary: i off e k packed)
  case 0
  then show ?case by (simp add: argv_loop_end)
next
  case (Suc m)
  obtain r slot k1 where r1: "op_read_user ops k (enc bo 8 (0 :: u64)) (argv + 8 * of_nat i) = (r, slot, k1)"
    by (cases "op_read_user ops k (enc bo 8 (0 :: u64)) (argv + 8 * of_nat i)") auto
  have i: "i < MAX_ARGS" and m: "MAX_ARGS - i = Suc m" "m = MAX_ARGS - (i + 1)"
    using Suc.hyps(2) by simp_all
  note slot = read_slot [OF r1] and v1 = read_user_view [OF r1]
  show ?case
  proof (cases "dec bo slot = (0 :: u64) \<or> off > 384")
    case True
    then have "packed = []"
      using slot Suc.prems(4)
      by (auto simp: m word_less_nat_alt ARGV_LEN_def ARG_CHUNK_def split: option.splits)
    with True v1 Suc.prems(3) show ?thesis
      by (simp add: argv_loop_break [OF i r1])
  next
    case False
    then have off: "unat off \<le> 384"
      by (simp add: word_less_nat_alt)
    let ?w = "take 128 (drop (unat off) (x_argv e))"
    have w: "length ?w = 128" "?w \<noteq> []"
      using Suc.prems(1) off by (auto simp: valid_exec_def ARGV_LEN_def)
    obtain n dst k2 where r2: "op_read_user_str ops k1 ?w (dec bo slot) = (n, dst, k2)"
      by (cases "op_read_user_str ops k1 ?w (dec bo slot)") auto
    have l2: "length dst = 128" and v2: "view k2 = view k"
      using read_user_str_frame [OF r2] read_user_str_view [OF r2] v1 w by simp_all
    define e2 where "e2 = e\<lparr>x_argv := put_at (unat off) dst (x_argv e)\<rparr>"
    have e2: "valid_exec e2"
      using Suc.prems(1) off l2 by (simp add: e2_def valid_exec_def elmer_consts length_put_at)
    have run: "(if n \<le> 0 then Some (off, e2, k2)
        else argv_loop ops bo argv (i + 1) (off + of_int (min n 128)) e2 k2) = Some (off', e', k')"
      using argv_loop_read [OF i r1 _ _ _ r2] False Suc.prems(1,3)
      by (simp add: e2_def valid_exec_def ARGV_LEN_def)
    obtain q where q: "load_ptr (v_mem (view k)) bo (argv + 8 * of_nat i) = Some q" "q = dec bo slot" "q \<noteq> 0"
      using slot False by (auto split: option.splits)
    show ?thesis
    proof (cases "read_cstr (v_mem (view k)) q 128")
      case None
      then have "n < 0"
        using read_user_str_fault [OF r2] w(1) v1 q(2) by simp
      moreover have "packed = []"
        using Suc.prems(4) None q by (simp add: m ARG_CHUNK_def)
      ultimately show ?thesis
        using run off v2 Suc.prems(1)
        by (auto simp: e2_def take_put_at valid_exec_def ARGV_LEN_def l2)
    next
      case (Some s)
      define t where "t = take 127 s"
      have t: "length t \<le> 127" by (simp add: t_def)
      have n: "n = int (length t) + 1" and dst: "take (Suc (length t)) dst = t @ [0]"
        using read_user_str [OF r2 w(2)] Some w(1) v1 q(2) by (simp_all add: t_def nat_add_distrib)
      define off2 where "off2 = off + of_int (min n 128)"
      have nn: "0 < min n 128" "min n 128 \<le> 128" "nat (min n 128) = Suc (length t)"
        using n t by simp_all
      have off2: "off2 \<le> 512" "unat off2 = unat off + Suc (length t)"
        unfolding off2_def using off_step [OF off nn(1,2)] unat_off_step [OF off nn(1,2)] nn(3)
        by simp_all
      define rest where "rest = nul_terminated (captured (unat off2) (user_argv (v_mem (view k2)) bo argv (i + 1) (MAX_ARGS - (i + 1))))"
      have packed: "packed = t @ 0 # rest"
        using Suc.prems(4) Some q off
        by (simp add: m rest_def off2 v2 t_def ARGV_LEN_def ARG_CHUNK_def)
      have "argv_loop ops bo argv (i + 1) off2 e2 k2 = Some (off', e', k')"
        using run n by (simp add: off2_def)
      from Suc.hyps(1) [OF m(2) e2 off2(1) this rest_def]
      have IH: "unat off' = unat off2 + length rest"
        "take (unat off') (x_argv e') = take (unat off2) (x_argv e2) @ rest" "view k' = view k2"
        by blast+
      have "take (unat off2) (x_argv e2) = take (unat off) (x_argv e) @ t @ [0]"
        using take_through_put_at [of "unat off" dst "x_argv e" "Suc (length t)"] Suc.prems(1) off l2 dst t
        by (simp add: off2 e2_def valid_exec_def ARGV_LEN_def)
      with IH show ?thesis
        by (simp add: packed off2 v2)
    qed
  qed
qed

text \<open>The result of \<^verbatim>\<open>do_exec\<close>: nothing without room in the ring, else the record of the call.\<close>

lemma do_exec_full:
  assumes "\<not> room k (sizeof_struct exec_event_decl)"
  shows "\<exists>k'. do_exec ops bo ctx fname_idx argv_idx k = Some (0, k') \<and> records k' = records k"
proof (cases "op_ringbuf_reserve ops k 680")
  case (Pair r k')
  with reserve_room [OF Pair] reserve_full [of k 680 k'] assms show ?thesis
    by (simp add: do_exec_def)
qed

lemma do_exec_content:
  assumes "room k (sizeof_struct exec_event_decl)"
    and "fname_idx < length (args ctx)" and "argv_idx < length (args ctx)"
  shows "\<exists>e k'. do_exec ops bo ctx fname_idx argv_idx k = Some (0, k') \<and>
    records k' = records k @ [encode_exec bo e] \<and>
    exec_spec bo (view k) (args ctx ! fname_idx) (args ctx ! argv_idx) e"
proof -
  obtain raw k1 where r1: "op_ringbuf_reserve ops k 680 = (Some raw, k1)"
    using reserve_room [of k 680] assms(1) by (cases "op_ringbuf_reserve ops k 680") auto
  note f1 = reserve_ok [OF r1] and v1 = reserve_view [OF r1]
  define e0 where "e0 = fill_ids ops k1 (decode_exec bo raw)"
  have e0: "valid_exec e0" "x_filename e0 \<noteq> []" "length (x_filename e0) = 128"
    using valid_fill_ids [OF exec_codec.valid_decode [of raw bo], of k1] f1
    by (auto simp: e0_def valid_exec_def FNAME_LEN_def)
  have comm0: "c_string (x_comm e0) = take 15 (v_comm (view k))"
  proof -
    have "length (x_comm (decode_exec bo raw)) = 16"
      using exec_codec.valid_decode [of raw bo] f1 by (simp add: valid_exec_def COMM_LEN_def)
    then show ?thesis
      using comm [of "x_comm (decode_exec bo raw)" k1] v1
      by (cases "x_comm (decode_exec bo raw)") (simp_all add: e0_def fill_ids_def Let_def)
  qed
  obtain n dst k2 where r2: "op_read_user_str ops k1 (x_filename e0) (args ctx ! fname_idx) = (n, dst, k2)"
    by (cases "op_read_user_str ops k1 (x_filename e0) (args ctx ! fname_idx)") auto
  note f2 = read_user_str_frame [OF r2] and v2 = read_user_str_view [OF r2]
  define e1 where "e1 = e0\<lparr>x_filename := dst\<rparr>"
  have e1: "valid_exec e1" using e0 f2 by (simp add: e1_def valid_exec_def)
  have fname: "c_string dst = take 127 s" if "read_cstr (v_mem (view k)) (args ctx ! fname_idx) 128 = Some s" for s
    using read_str_c_string [OF r2 e0(2)] that v1 e0(3) by simp
  let ?argv = "args ctx ! argv_idx"
  let ?run = "if ?argv \<noteq> 0 then argv_loop ops bo ?argv 0 0 e1 k2 else Some (0, e1, k2)"
  obtain off e k3 where r3: "?run = Some (off, e, k3)" and off: "off \<le> 512"
    and e: "valid_exec e" "e = e1\<lparr>x_argv := x_argv e\<rparr>"
    and k3: "records k3 = records k2" "pending k3 = pending k2"
    using argv_loop_safe [OF e1, of 0 bo ?argv 0 k2] e1 by (cases "?argv = 0") auto
  have argv: "unat off = length (nul_terminated (exec_args bo (v_mem (view k)) ?argv)) \<and>
      take (unat off) (x_argv e) = nul_terminated (exec_args bo (v_mem (view k)) ?argv)"
    using r3 argv_loop_content [OF e1, of 0 bo ?argv 0 k2 off e k3, OF _ _ refl] v1 v2
    by (cases "?argv = 0") (auto simp: exec_args_def)
  have len: "unat (ucast off :: u32) = unat off"
    using off by (simp add: unsigned_ucast_eq take_bit_eq_mod word_le_nat_alt)
  let ?e = "e\<lparr>x_argv_len := ucast off\<rparr>"
  have "do_exec ops bo ctx fname_idx argv_idx k = Some (0, op_ringbuf_submit ops (encode_exec bo ?e) k3)"
    by (rule do_exec_run [OF r1 assms(2,3) r2 [unfolded e0_def] r3 [unfolded e1_def e0_def]])
  moreover have "records (op_ringbuf_submit ops (encode_exec bo ?e) k3) = records k @ [encode_exec bo ?e]"
    using submit [of k3] f1 f2 k3 by simp
  moreover have "exec_spec bo (view k) (args ctx ! fname_idx) ?argv ?e"
    unfolding exec_spec_def
  proof (intro conjI allI impI)
    show "valid_exec ?e"
      using e(1) by (simp add: valid_exec_def)
    show "unat (x_argv_len ?e) = length (nul_terminated (exec_args bo (v_mem (view k)) ?argv))"
      "take (unat (x_argv_len ?e)) (x_argv ?e) = nul_terminated (exec_args bo (v_mem (view k)) ?argv)"
      using argv len by auto
  qed (use comm0 fname in \<open>subst e(2), simp add: e1_def e0_def fill_ids_def Let_def ids v1 elmer_consts; fail\<close>)+
  ultimately show ?thesis by blast
qed

text \<open>The result of \<^verbatim>\<open>do_sock\<close>: other address families are ignored, and so is a full ring.\<close>

lemma do_sock_ignored:
  assumes "1 < length (args ctx)"
    and "sock_family bo (view k) (args ctx ! 1) \<notin> {AF_INET, AF_INET6} \<or>
      \<not> room k (sizeof_struct sock_event_decl)"
  shows "\<exists>k'. do_sock ops bo ctx kind k = Some (0, k') \<and> records k' = records k"
proof -
  obtain n dst k1 where r1: "op_read_user ops k (replicate 2 0) (args ctx ! 1) = (n, dst, k1)"
    by (cases "op_read_user ops k (replicate 2 0) (args ctx ! 1)") auto
  obtain r k2 where r2: "op_ringbuf_reserve ops k1 48 = (r, k2)"
    by (cases "op_ringbuf_reserve ops k1 48")
  have fam: "dec bo dst = sock_family bo (view k) (args ctx ! 1)"
    using read_user_zeroed [OF r1] by (simp add: sock_family_def)
  have "room k1 48 = room k 48"
    using read_user_room [OF r1] by simp
  with assms fam reserve_room [OF r2] have "r = None" if "dec bo dst \<in> {AF_INET, AF_INET6}"
    using that by auto
  with r1 r2 fam assms(1) read_user_frame [OF r1] reserve_full [of k1 48 k2] show ?thesis
    by (auto simp: do_sock_def ctx_arg_def enc_zero Let_def)
qed

lemma fill_inet_content:
  assumes "valid_sock e" and "fill_inet ops bo addr e k = (e', k')"
  shows "e' = e\<lparr>s_port := s_port e', s_addr := s_addr e'\<rparr> \<and>
    s_port e' = dec Big (field 2 2 (bytes_or_zero (v_mem (view k)) addr 16)) \<and>
    take 4 (s_addr e') = field 4 4 (bytes_or_zero (v_mem (view k)) addr 16) \<and>
    drop 4 (s_addr e') = drop 4 (s_addr e)"
proof -
  obtain r dst k1 where r: "op_read_user ops k (replicate 16 0) addr = (r, dst, k1)"
    by (cases "op_read_user ops k (replicate 16 0) addr") auto
  note d = read_user_zeroed [OF r, symmetric]
  have l: "length dst = 16" using read_user_frame [OF r] by simp
  have a: "length (s_addr e) = 16" using assms(1) by (simp add: valid_sock_def)
  from l have "enc bo 4 (dec bo (field 4 4 dst) :: u32) = field 4 4 dst"
    by (intro enc_dec_field) simp_all
  with assms(2) r l a show ?thesis
    by (auto simp: fill_inet_def Let_def decode_sockaddr_in_def ntohs_dec length_field put_at_def d)
qed

lemma fill_inet6_content:
  assumes "valid_sock e" and "fill_inet6 ops bo addr e k = (e', k')"
  shows "e' = e\<lparr>s_port := s_port e', s_addr := s_addr e'\<rparr> \<and>
    s_port e' = dec Big (field 2 2 (bytes_or_zero (v_mem (view k)) addr 28)) \<and>
    s_addr e' = field 8 16 (bytes_or_zero (v_mem (view k)) addr 28)"
proof -
  obtain r dst k1 where r: "op_read_user ops k (replicate 28 0) addr = (r, dst, k1)"
    by (cases "op_read_user ops k (replicate 28 0) addr") auto
  note d = read_user_zeroed [OF r, symmetric]
  have l: "length dst = 28" using read_user_frame [OF r] by simp
  have a: "length (s_addr e) = 16" using assms(1) by (simp add: valid_sock_def)
  from assms(2) r l a show ?thesis
    by (auto simp: fill_inet6_def Let_def decode_sockaddr_in6_def ntohs_dec length_field put_at_def d)
qed

lemma do_sock_content:
  assumes args: "1 < length (args ctx)"
    and fam: "sock_family bo (view k) (args ctx ! 1) \<in> {AF_INET, AF_INET6}"
    and room: "room k (sizeof_struct sock_event_decl)"
  shows "\<exists>e k'. do_sock ops bo ctx kind k = Some (0, k') \<and>
    records k' = records k @ [encode_sock bo e] \<and> sock_spec bo (view k) kind (args ctx ! 1) e"
proof -
  let ?addr = "args ctx ! 1"
  obtain n dst k1 where r1: "op_read_user ops k (enc bo 2 (0 :: u16)) ?addr = (n, dst, k1)"
    by (cases "op_read_user ops k (enc bo 2 (0 :: u16)) ?addr") auto
  note f1 = read_user_frame [OF r1] and v1 = read_user_view [OF r1]
  have family: "dec bo dst = sock_family bo (view k) ?addr"
    using read_user_zeroed [OF r1 [unfolded enc_zero]] by (simp add: sock_family_def)
  then have fam': "dec bo dst = AF_INET \<or> dec bo dst = AF_INET6"
    using fam by simp
  obtain raw k2 where r2: "op_ringbuf_reserve ops k1 48 = (Some raw, k2)"
    using reserve_room [of k1 48] read_user_room [OF r1] room by (cases "op_ringbuf_reserve ops k1 48") auto
  note f2 = reserve_ok [OF r2] and v2 = reserve_view [OF r2]
  define e where "e = sock_ids ops k2 kind (dec bo dst) (decode_sock bo raw)"
  have raw: "valid_sock (decode_sock bo raw)"
    using sock_codec.valid_decode [of raw bo] f2 by simp
  then have e: "valid_sock e"
    by (simp add: e_def sock_ids_def valid_sock_def comm_length Let_def)
  have comm: "c_string (s_comm e) = take 15 (v_comm (view k))"
    using raw comm [of "s_comm (decode_sock bo raw)" k2] v1 v2
    by (cases "s_comm (decode_sock bo raw)") (simp_all add: e_def sock_ids_def Let_def valid_sock_def COMM_LEN_def)
  let ?fill = "if dec bo dst = AF_INET then fill_inet else fill_inet6"
  obtain e' k3 where r3: "?fill ops bo ?addr e k2 = (e', k3)"
    by (cases "?fill ops bo ?addr e k2")
  then consider (inet) "fill_inet ops bo ?addr e k2 = (e', k3)" | (inet6) "fill_inet6 ops bo ?addr e k2 = (e', k3)"
    by (auto split: if_splits)
  note fill = this
  then have e': "e' = e\<lparr>s_port := s_port e', s_addr := s_addr e'\<rparr>"
    by cases (rule conjunct1 [OF fill_inet_content [OF e]] conjunct1 [OF fill_inet6_content [OF e]], assumption)+
  have f3: "valid_sock e' \<and> records k3 = records k2 \<and> pending k3 = pending k2"
    using fill by cases (use fill_inet_safe [OF e] fill_inet6_safe [OF e] in metis)+
  have "do_sock ops bo ctx kind k = Some (0, op_ringbuf_submit ops (encode_sock bo e') k3)"
    by (rule do_sock_run [OF args r1 fam' r2 r3 [unfolded e_def]])
  moreover have "records (op_ringbuf_submit ops (encode_sock bo e') k3) = records k @ [encode_sock bo e']"
    using submit [of k3] f1 f2 f3 by simp
  moreover have "sock_spec bo (view k) kind ?addr e'"
    unfolding sock_spec_def
  proof (intro conjI)
    show fm: "s_family e' = sock_family bo (view k) ?addr"
      by (subst e') (simp add: e_def sock_ids_def Let_def family)
    show "if s_family e' = AF_INET
      then s_port e' = dec Big (field 2 2 (bytes_or_zero (v_mem (view k)) ?addr 16)) \<and>
        take 4 (s_addr e') = field 4 4 (bytes_or_zero (v_mem (view k)) ?addr 16)
      else s_port e' = dec Big (field 2 2 (bytes_or_zero (v_mem (view k)) ?addr 28)) \<and>
        s_addr e' = field 8 16 (bytes_or_zero (v_mem (view k)) ?addr 28)"
      using r3 fill_inet_content [OF e, THEN conjunct2, of bo ?addr k2]
        fill_inet6_content [OF e, THEN conjunct2, of bo ?addr k2] v1 v2
      unfolding fm family [symmetric] by (auto split: if_splits)
  qed (use f3 comm in \<open>simp; fail | subst e', simp add: e_def sock_ids_def Let_def ids v1 v2 elmer_consts; fail\<close>)+
  ultimately show ?thesis by blast
qed

end

end
