(* ===== verification/Ref_Kernel.thy ===== *)
theory Ref_Kernel
  imports Elmer_Content
begin

text \<open>
  A kernel that keeps the contracts of \<^theory_text>\<open>Elmer_Bpf\<close> and \<^theory_text>\<open>Elmer_Content\<close>: a task with its
  ids, name and memory, and the ring buffer \<^verbatim>\<open>events\<close> of \<^verbatim>\<open>1 << 22\<close> bytes, whose memory is
  handed out with whatever it held before. It shows that the contracts can be kept, and the
  concrete runs below are runs on it. The kernel is not part of the repository, so no
  property is about it; the properties hold for every kernel with the contracts.
\<close>

section \<open>State\<close>

record kernel =
  kn_mem :: memory
  kn_pid_tgid :: u64
  kn_uid_gid :: u64
  kn_comm :: "u8 list"
  kn_ring :: "nat \<Rightarrow> u8"
  kn_used :: nat
  kn_records :: "u8 list list"
  kn_open :: nat

definition kn_view :: "kernel \<Rightarrow> user_view" where
  "kn_view k = \<lparr>v_mem = kn_mem k, v_pid_tgid = kn_pid_tgid k, v_uid_gid = kn_uid_gid k,
     v_comm = c_string (kn_comm k)\<rparr>"

text \<open>A record takes its size and an 8-byte header, rounded up to 8 bytes.\<close>

definition ring_capacity :: nat where "ring_capacity = 2 ^ 22"
definition ring_size :: "nat \<Rightarrow> nat" where "ring_size n = (n + 8 + 7) div 8 * 8"

definition kn_room :: "kernel \<Rightarrow> nat \<Rightarrow> bool" where
  "kn_room k n \<longleftrightarrow> kn_used k + ring_size n \<le> ring_capacity"

section \<open>Helpers\<close>

definition kn_reserve :: "kernel \<Rightarrow> nat \<Rightarrow> u8 list option \<times> kernel" where
  "kn_reserve k n =
     (if kn_room k n
      then (Some (map (kn_ring k) [0..<n]), k\<lparr>kn_used := kn_used k + ring_size n, kn_open := Suc (kn_open k)\<rparr>)
      else (None, k))"

definition kn_submit :: "u8 list \<Rightarrow> kernel \<Rightarrow> kernel" where
  "kn_submit d k = k\<lparr>kn_records := kn_records k @ [d], kn_open := kn_open k - 1\<rparr>"

definition EFAULT :: int where "EFAULT = 14"

definition kn_get_comm :: "kernel \<Rightarrow> u8 list \<Rightarrow> int \<times> u8 list" where
  "kn_get_comm k dst =
     (let t = take (length dst - 1) (c_string (kn_comm k)) in
      (0, t @ replicate (length dst - length t) 0))"

definition kn_read_user :: "kernel \<Rightarrow> u8 list \<Rightarrow> u64 \<Rightarrow> int \<times> u8 list \<times> kernel" where
  "kn_read_user k dst p =
     (case read_bytes (kn_mem k) p (length dst) of
        None \<Rightarrow> (- EFAULT, replicate (length dst) 0, k)
      | Some bs \<Rightarrow> (0, bs, k))"

definition kn_read_user_str :: "kernel \<Rightarrow> u8 list \<Rightarrow> u64 \<Rightarrow> int \<times> u8 list \<times> kernel" where
  "kn_read_user_str k dst p =
     (if dst = [] then (0, dst, k)
      else case read_cstr (kn_mem k) p (length dst) of
        None \<Rightarrow> (- EFAULT, replicate (length dst) 0, k)
      | Some s \<Rightarrow>
          let t = take (length dst - 1) s in
          (int (Suc (length t)), t @ 0 # drop (Suc (length t)) dst, k))"

definition kernel_ops :: "kernel bpf_ops" where
  "kernel_ops = \<lparr>op_ringbuf_reserve = kn_reserve, op_ringbuf_submit = kn_submit,
     op_pid_tgid = kn_pid_tgid, op_uid_gid = kn_uid_gid, op_comm = kn_get_comm,
     op_read_user = kn_read_user, op_read_user_str = kn_read_user_str\<rparr>"

lemmas kernel_defs = kernel_ops_def kn_reserve_def kn_submit_def kn_get_comm_def
  kn_read_user_def kn_read_user_str_def

section \<open>The contracts\<close>

lemma c_string_pad: "0 \<notin> set t \<Longrightarrow> c_string (t @ replicate n 0) = t"
  by (cases n) (auto simp: c_string_def takeWhile_tail intro: takeWhile_eq_all_conv [THEN iffD2])

lemma c_string_nul_free: "0 \<notin> set (c_string bs)"
  by (auto simp: c_string_def dest: set_takeWhileD)

interpretation kernel_safe: bpf_kernel kernel_ops kn_records kn_open
proof unfold_locales
  fix k k' :: kernel and n and raw :: "u8 list"
  assume "op_ringbuf_reserve kernel_ops k n = (None, k')"
  then show "kn_records k' = kn_records k \<and> kn_open k' = kn_open k"
    by (auto simp: kernel_defs split: if_splits)
next
  fix k k' :: kernel and n and raw :: "u8 list"
  assume "op_ringbuf_reserve kernel_ops k n = (Some raw, k')"
  then show "length raw = n \<and> kn_records k' = kn_records k \<and> kn_open k' = Suc (kn_open k)"
    by (auto simp: kernel_defs split: if_splits)
next
  fix k k' :: kernel and dst dst' p r
  assume "op_read_user kernel_ops k dst p = (r, dst', k')"
  then show "length dst' = length dst \<and> kn_records k' = kn_records k \<and> kn_open k' = kn_open k"
    by (auto simp: kernel_defs length_read_bytes split: option.splits)
next
  fix k k' :: kernel and dst dst' p r
  assume "op_read_user_str kernel_ops k dst p = (r, dst', k')"
  then show "length dst' = length dst \<and> kn_records k' = kn_records k \<and> kn_open k' = kn_open k"
    by (cases dst) (auto simp: kernel_defs Let_def split: option.splits if_splits)
qed (simp_all add: kernel_defs Let_def)

interpretation kernel_memory: user_memory kernel_ops kn_records kn_open kn_view kn_room
proof unfold_locales
  fix k k' :: kernel and dst dst' p n and bs :: "u8 list"
  assume "op_read_user kernel_ops k dst p = (n, dst', k')"
    and "read_bytes (v_mem (kn_view k)) p (length dst) = Some bs"
  then show "n = 0 \<and> dst' = bs"
    by (auto simp: kernel_defs kn_view_def)
next
  fix k k' :: kernel and dst dst' p n and bs :: "u8 list"
  assume "op_read_user kernel_ops k dst p = (n, dst', k')"
    and "read_bytes (v_mem (kn_view k)) p (length dst) = None"
  then show "n < 0 \<and> (dst' = dst \<or> dst' = replicate (length dst) 0)"
    by (auto simp: kernel_defs kn_view_def EFAULT_def)
next
  fix k k' :: kernel and dst dst' p n and s :: "u8 list"
  assume r: "op_read_user_str kernel_ops k dst p = (n, dst', k')" "dst \<noteq> []"
    "read_cstr (v_mem (kn_view k)) p (length dst) = Some s"
  define t where "t = take (length dst - 1) s"
  from r have "n = int (Suc (length t)) \<and> dst' = t @ 0 # drop (Suc (length t)) dst"
    by (auto simp: kernel_defs kn_view_def Let_def t_def)
  then show "n = int (Suc (length (take (length dst - 1) s))) \<and>
      take (Suc (length (take (length dst - 1) s))) dst' = take (length dst - 1) s @ [0]"
    unfolding t_def [symmetric] by simp
next
  fix k k' :: kernel and dst dst' p n
  assume "op_read_user_str kernel_ops k dst p = (n, dst', k')"
    and "read_cstr (v_mem (kn_view k)) p (length dst) = None"
  then show "n < 0"
    by (cases dst) (auto simp: kernel_defs kn_view_def EFAULT_def)
next
  fix k :: kernel and dst :: "u8 list"
  assume "dst \<noteq> []"
  moreover have "0 \<notin> set (take (length dst - 1) (c_string (kn_comm k)))"
    using c_string_nul_free by (meson in_set_takeD)
  ultimately show "c_string (snd (op_comm kernel_ops k dst)) = take (length dst - 1) (v_comm (kn_view k))"
    by (simp add: kernel_defs kn_view_def Let_def c_string_pad)
qed (auto simp: kernel_defs kn_view_def kn_room_def Let_def split: if_splits option.splits)

end
