(* ===== verification/Elmer_Correct.thy ===== *)
theory Elmer_Correct
  imports Ref_Kernel
begin

text \<open>
  What the four tracepoint programs of \<^verbatim>\<open>elmer.bpf.c\<close> guarantee: memory safety and clean
  runs on every kernel (\<open>bpf_kernel\<close>), and the contents of what they submit on every kernel
  that delivers user memory (\<open>user_memory\<close>). Concrete runs are on \<^typ>\<open>kernel\<close>.
\<close>

section \<open>A process and its memory\<close>

text \<open>Memory made of blocks, each at its address.\<close>

fun mem_of :: "(u64 \<times> u8 list) list \<Rightarrow> memory" where
  "mem_of [] a = None"
| "mem_of ((b, bs) # blocks) a =
     (if b \<le> a \<and> unat (a - b) < length bs then Some (bs ! unat (a - b)) else mem_of blocks a)"

definition ls_path :: "u8 list" where "ls_path = [47, 108, 115]"
definition ls_arg0 :: "u8 list" where "ls_arg0 = [108, 115]"
definition ls_arg1 :: "u8 list" where "ls_arg1 = [45, 108]"

definition ls_mem :: memory where
  "ls_mem = mem_of [(4096, ls_path @ [0]), (8192, ls_arg0 @ [0]), (8200, ls_arg1 @ [0]),
     (12288, [0, 32, 0, 0, 0, 0, 0, 0, 8, 32, 0, 0, 0, 0, 0, 0, 0, 0, 0, 0, 0, 0, 0, 0]),
     (16384, [2, 0, 1, 187, 192, 0, 2, 1, 0, 0, 0, 0, 0, 0, 0, 0])]"

definition ls_kernel :: kernel where
  "ls_kernel = \<lparr>kn_mem = ls_mem, kn_pid_tgid = 30064771079, kn_uid_gid = 0, kn_comm = [98, 97, 115, 104, 0],
     kn_ring = (\<lambda>_. 170), kn_used = 0, kn_records = [], kn_open = 0\<rparr>"

definition ctx_of :: "u64 list \<Rightarrow> sys_enter_ctx" where
  "ctx_of as = \<lparr>common_type = 0, common_flags = 0, common_preempt_count = 0, common_pid = 0,
     syscall_id = 59, args = as\<rparr>"

lemma args_ctx_of [simp]: "args (ctx_of as) = as"
  by (simp add: ctx_of_def)

text \<open>Evaluation at numerals.\<close>

lemma numeral_steps:
  "read_bytes mem a (numeral n) =
     (case mem a of None \<Rightarrow> None | Some b \<Rightarrow> map_option (Cons b) (read_bytes mem (a + 1) (pred_numeral n)))"
  "read_cstr mem a (numeral n) =
     (case mem a of
        None \<Rightarrow> None
      | Some b \<Rightarrow> if b = 0 then Some [] else map_option (Cons b) (read_cstr mem (a + 1) (pred_numeral n)))"
  "user_argv mem bo argv i (numeral n) =
     (case load_ptr mem bo (argv + 8 * of_nat i) of
        None \<Rightarrow> []
      | Some p \<Rightarrow>
          if p = 0 then []
          else case read_cstr mem p ARG_CHUNK of
            None \<Rightarrow> []
          | Some s \<Rightarrow> s # user_argv mem bo argv (Suc i) (pred_numeral n))"
  by (simp_all add: numeral_eq_Suc)

lemmas eval_mem = numeral_steps ls_mem_def ls_arg0_def ls_arg1_def ls_path_def load_ptr_def dec_def order_bytes_def

lemma ls_strings:
  "read_cstr ls_mem 8192 128 = Some ls_arg0" "read_cstr ls_mem 8200 128 = Some ls_arg1"
  "read_cstr ls_mem 4096 128 = Some ls_path"
  by (simp_all add: eval_mem)

lemma ls_slots:
  "load_ptr ls_mem Little 12288 = Some 8192" "load_ptr ls_mem Little 12296 = Some 8200"
  "load_ptr ls_mem Little 12304 = Some 0"
  by (simp_all add: eval_mem)

lemma ls_sockaddr: "read_bytes ls_mem 16384 2 = Some [2, 0]"
  "read_bytes ls_mem 16384 16 = Some [2, 0, 1, 187, 192, 0, 2, 1, 0, 0, 0, 0, 0, 0, 0, 0]"
  by (simp_all add: eval_mem)

lemma ls_args: "exec_args Little ls_mem 12288 = [ls_arg0, ls_arg1]"
  by (simp add: exec_args_def numeral_steps(3) MAX_ARGS_def ls_slots ls_strings ARG_CHUNK_def ARGV_LEN_def
      ls_arg0_def ls_arg1_def)

section \<open>Properties\<close>

text \<open>
  C3 (safety). On every kernel whose helpers keep to the buffers they are given, the exec
  programs never access memory outside the context or the event, return 0, leave no
  reservation open on any path, and submit at most one record, an exec event of the struct's
  size with an \<^verbatim>\<open>argv_len\<close> inside \<^verbatim>\<open>argv\<close>; whatever the helpers return, lengths included.
\<close>

theorem exec_programs_safe:
  assumes "bpf_kernel ops records pending" and "length (args ctx) = 6"
  shows "clean_run records pending (exec_image bo) k (trace_execve ops bo ctx k) \<and>
    clean_run records pending (exec_image bo) k (trace_execveat ops bo ctx k)"
  using assms(2) bpf_kernel.do_exec_safe [OF assms(1)]
  by (simp add: trace_execve_def trace_execveat_def)

theorem exec_programs_safe_witness:
  "clean_run kn_records kn_open (exec_image Little) ls_kernel
     (trace_execve kernel_ops Little (ctx_of [4096, 12288, 0, 0, 0, 0]) ls_kernel)"
  using exec_programs_safe [OF kernel_safe.bpf_kernel_axioms, of "ctx_of [4096, 12288, 0, 0, 0, 0]" Little ls_kernel]
  by simp

text \<open>
  C4 (safety). The same for the socket programs: their record, if any, is a socket event of
  the struct's size, of the program's own kind and of family \<^verbatim>\<open>AF_INET\<close> or \<^verbatim>\<open>AF_INET6\<close>.
\<close>

theorem sock_programs_safe:
  assumes "bpf_kernel ops records pending" and "length (args ctx) = 6"
  shows "clean_run records pending (sock_image bo CONNECT_KIND) k (trace_connect ops bo ctx k) \<and>
    clean_run records pending (sock_image bo BIND_KIND) k (trace_bind ops bo ctx k)"
  using assms(2) bpf_kernel.do_sock_safe [OF assms(1)]
  by (simp add: trace_connect_def trace_bind_def)

theorem sock_programs_safe_witness:
  "clean_run kn_records kn_open (sock_image Big BIND_KIND) ls_kernel
     (trace_bind kernel_ops Big (ctx_of [3, 16384, 16, 0, 0, 0]) ls_kernel)"
  using sock_programs_safe [OF kernel_safe.bpf_kernel_axioms, of "ctx_of [3, 16384, 16, 0, 0, 0]" Big ls_kernel]
  by simp

text \<open>The records a run that returns 0 adds.\<close>

definition submitted :: "('k \<Rightarrow> u8 list list) \<Rightarrow> 'k \<Rightarrow> (int \<times> 'k) program \<Rightarrow> u8 list list option" where
  "submitted records k run = (case run of None \<Rightarrow> None | Some (r, k') \<Rightarrow>
     if r = 0 then Some (drop (length (records k)) (records k')) else None)"

lemma submitted_none: "\<exists>k'. run = Some (0, k') \<and> records k' = records k \<Longrightarrow> submitted records k run = Some []"
  by (auto simp: submitted_def)

lemma submitted_one:
  "\<exists>e k'. run = Some (0, k') \<and> records k' = records k @ [f e] \<and> P e \<Longrightarrow>
   \<exists>e. submitted records k run = Some [f e] \<and> P e"
  by (fastforce simp: submitted_def)

text \<open>
  C1 (refinement). The exec programs report the call: with room in the ring, each submits one
  event that carries the caller's ids and name, the file name up to 127 bytes and the
  NUL-terminated arguments packed at the start of \<^verbatim>\<open>argv\<close>, with exactly their length in
  \<^verbatim>\<open>argv_len\<close>; \<^verbatim>\<open>execve\<close> takes them from the syscall's arguments 0 and 1, \<^verbatim>\<open>execveat\<close> from 1
  and 2. Without room they submit nothing.
\<close>

theorem exec_programs_report:
  assumes "user_memory ops records pending view room" and "length (args ctx) = 6"
  shows "if room k (sizeof_struct exec_event_decl)
    then (\<exists>e. submitted records k (trace_execve ops bo ctx k) = Some [encode_exec bo e] \<and>
           exec_spec bo (view k) (args ctx ! 0) (args ctx ! 1) e) \<and>
         (\<exists>e. submitted records k (trace_execveat ops bo ctx k) = Some [encode_exec bo e] \<and>
           exec_spec bo (view k) (args ctx ! 1) (args ctx ! 2) e)
    else submitted records k (trace_execve ops bo ctx k) = Some [] \<and>
         submitted records k (trace_execveat ops bo ctx k) = Some []"
proof -
  note content = user_memory.do_exec_content [OF assms(1)]
    and full = user_memory.do_exec_full [OF assms(1)]
  show ?thesis
    unfolding trace_execve_def trace_execveat_def
    using assms(2) by (auto intro!: submitted_one submitted_none content full)
qed

theorem exec_programs_report_witness:
  "\<exists>e. submitted kn_records ls_kernel
      (trace_execve kernel_ops Little (ctx_of [4096, 12288, 0, 0, 0, 0]) ls_kernel) = Some [encode_exec Little e] \<and>
    x_kind e = 1 \<and> x_tgid e = 7 \<and> x_uid e = 0 \<and> c_string (x_filename e) = ls_path \<and>
    take 6 (x_argv e) = ls_arg0 @ [0] @ ls_arg1 @ [0]"
proof -
  let ?run = "trace_execve kernel_ops Little (ctx_of [4096, 12288, 0, 0, 0, 0]) ls_kernel"
  have "kn_room ls_kernel (sizeof_struct exec_event_decl)"
    by (simp add: kn_room_def ls_kernel_def ring_size_def ring_capacity_def)
  with exec_programs_report [OF kernel_memory.user_memory_axioms, of "ctx_of [4096, 12288, 0, 0, 0, 0]" ls_kernel Little]
  obtain e where r: "submitted kn_records ls_kernel ?run = Some [encode_exec Little e]"
    and e: "exec_spec Little (kn_view ls_kernel) 4096 12288 e"
    by auto
  have v: "kn_view ls_kernel = \<lparr>v_mem = ls_mem, v_pid_tgid = 30064771079, v_uid_gid = 0, v_comm = [98, 97, 115, 104]\<rparr>"
    by (simp add: kn_view_def ls_kernel_def c_string_def)
  from e have "x_kind e = 1" "x_tgid e = 7" "x_uid e = 0" "c_string (x_filename e) = take 127 ls_path"
    "unat (x_argv_len e) = 6" "take (unat (x_argv_len e)) (x_argv e) = ls_arg0 @ [0] @ ls_arg1 @ [0]"
    by (auto simp: exec_spec_def v ls_args elmer_consts ls_strings ls_arg0_def ls_arg1_def drop_bit_eq_div)
  with r show ?thesis by (auto simp: ls_path_def)
qed

text \<open>
  C2 (refinement). The socket programs report the call: with room in the ring and an address
  of family \<^verbatim>\<open>AF_INET\<close> or \<^verbatim>\<open>AF_INET6\<close>, each submits one event of its kind that carries the
  caller's ids and name, the port converted from network order and the bytes of the
  address. They submit nothing for any other family, for an unreadable address or without room.
\<close>

theorem sock_programs_report:
  assumes "user_memory ops records pending view room" and "length (args ctx) = 6"
  shows "if room k (sizeof_struct sock_event_decl) \<and>
      sock_family bo (view k) (args ctx ! 1) \<in> {AF_INET, AF_INET6}
    then (\<exists>e. submitted records k (trace_connect ops bo ctx k) = Some [encode_sock bo e] \<and>
           sock_spec bo (view k) CONNECT_KIND (args ctx ! 1) e) \<and>
         (\<exists>e. submitted records k (trace_bind ops bo ctx k) = Some [encode_sock bo e] \<and>
           sock_spec bo (view k) BIND_KIND (args ctx ! 1) e)
    else submitted records k (trace_connect ops bo ctx k) = Some [] \<and>
         submitted records k (trace_bind ops bo ctx k) = Some []"
proof -
  have "1 < length (args ctx)" using assms(2) by simp
  note content = user_memory.do_sock_content [OF assms(1) this]
    and ignored = user_memory.do_sock_ignored [OF assms(1) this]
  show ?thesis
    unfolding trace_connect_def trace_bind_def
    by (cases "room k (sizeof_struct sock_event_decl) \<and>
        sock_family bo (view k) (args ctx ! 1) \<in> {AF_INET, AF_INET6}")
      (simp_all only: if_True if_False, auto simp del: sizeof_structs One_nat_def insert_iff
        intro!: submitted_one submitted_none content ignored)
qed

theorem sock_programs_report_witness:
  "\<exists>e. submitted kn_records ls_kernel
      (trace_connect kernel_ops Little (ctx_of [3, 16384, 16, 0, 0, 0]) ls_kernel) = Some [encode_sock Little e] \<and>
    s_kind e = 2 \<and> s_family e = 2 \<and> s_port e = 443 \<and> take 4 (s_addr e) = [192, 0, 2, 1]"
proof -
  let ?run = "trace_connect kernel_ops Little (ctx_of [3, 16384, 16, 0, 0, 0]) ls_kernel"
  have v: "v_mem (kn_view ls_kernel) = ls_mem"
    by (simp add: kn_view_def ls_kernel_def)
  have fam: "sock_family Little (kn_view ls_kernel) 16384 = AF_INET"
    by (simp add: sock_family_def bytes_or_zero_def v ls_sockaddr dec_def order_bytes_def AF_INET_def)
  have "kn_room ls_kernel (sizeof_struct sock_event_decl)"
    by (simp add: kn_room_def ls_kernel_def ring_size_def ring_capacity_def)
  with fam sock_programs_report [OF kernel_memory.user_memory_axioms, of "ctx_of [3, 16384, 16, 0, 0, 0]" ls_kernel Little]
  obtain e where r: "submitted kn_records ls_kernel ?run = Some [encode_sock Little e]"
    and e: "sock_spec Little (kn_view ls_kernel) CONNECT_KIND 16384 e"
    by auto
  from e have "s_kind e = 2" "s_family e = 2" "s_port e = 443" "take 4 (s_addr e) = [192, 0, 2, 1]"
    by (auto simp: sock_spec_def fam CONNECT_KIND_def AF_INET_def bytes_or_zero_def v ls_sockaddr
        field_def dec_def order_bytes_def)
  with r show ?thesis by blast
qed

text \<open>
  Which arguments an exec event keeps: the first few of the process's
  arguments, in order, each cut to 127 bytes; and all of them, whole, if they are at most
  sixteen, each is under 128 bytes and together with their NULs they take at most 384 bytes.
\<close>

theorem exec_args_kept:
  "exec_args bo mem argv = map (take (ARG_CHUNK - 1))
     (take (length (exec_args bo mem argv)) (user_argv mem bo argv 0 MAX_ARGS)) \<and>
   length (exec_args bo mem argv) \<le> MAX_ARGS \<and>
   (argv \<noteq> 0 \<and> list_all (\<lambda>s. length s < ARG_CHUNK) (user_argv mem bo argv 0 MAX_ARGS) \<and>
    length (nul_terminated (user_argv mem bo argv 0 MAX_ARGS)) \<le> ARGV_LEN - ARG_CHUNK \<longrightarrow>
    exec_args bo mem argv = user_argv mem bo argv 0 MAX_ARGS)"
  using captured_prefix [of 0 "user_argv mem bo argv 0 MAX_ARGS"] length_user_argv [of mem bo argv 0 MAX_ARGS]
    captured_length [of 0 "user_argv mem bo argv 0 MAX_ARGS"]
  by (auto simp: exec_args_def list_all_iff intro!: captured_all)

theorem exec_args_kept_witness:
  "exec_args Little ls_mem 12288 = user_argv ls_mem Little 12288 0 MAX_ARGS"
  using exec_args_kept [of Little ls_mem 12288]
  by (simp add: numeral_steps(3) MAX_ARGS_def ls_slots ls_strings ARG_CHUNK_def ARGV_LEN_def
      ls_arg0_def ls_arg1_def)

end
