(* ===== verification/Go_Base.thy ===== *)
theory Go_Base
  imports Prelude
begin

text \<open>
  The parts of Go and its standard library that the Go sources use: strings as bytes,
  \<^verbatim>\<open>strconv\<close> for integers, and the functions of package \<^verbatim>\<open>strings\<close> that are called. A Go
  \<^verbatim>\<open>string\<close> is a sequence of bytes, as is HOL's \<^typ>\<open>string\<close>.
\<close>

section \<open>Bytes and strings\<close>

definition str_of :: "u8 list \<Rightarrow> string" where
  "str_of bs = map (\<lambda>b. char_of (unat b)) bs"

lemma str_of_simps [simp]:
  "str_of [] = []" "str_of (b # bs) = char_of (unat b) # str_of bs"
  "str_of (as @ bs) = str_of as @ str_of bs" "length (str_of bs) = length bs"
  by (simp_all add: str_of_def)

lemma unat_u8: "unat (a :: u8) < 256"
proof -
  have "unat a < 2 ^ LENGTH(8)" by (rule unsigned_less)
  then show ?thesis by (simp only: len_num0 len_num1 len_bit0) simp
qed

lemma of_char_unat: "(of_char (char_of (unat (a :: u8))) :: nat) = unat a"
  by (subst of_char_of) (rule mod_less [OF unat_u8])

lemma char_of_unat_inj: "char_of (unat (a :: u8)) = char_of (unat b) \<longleftrightarrow> a = b"
proof
  assume "char_of (unat a) = char_of (unat b)"
  then have "unat a = unat b" using of_char_unat by metis
  then show "a = b" by (rule unsigned_word_eqI)
qed simp

lemma str_of_inject: "str_of as = str_of bs \<longleftrightarrow> as = bs"
proof -
  have "inj (\<lambda>b :: u8. char_of (unat b) :: char)"
    by (rule injI) (rule char_of_unat_inj [THEN iffD1])
  then show ?thesis unfolding str_of_def by (rule inj_map_eq_map)
qed

section \<open>Package strings\<close>

fun go_join :: "string list \<Rightarrow> string \<Rightarrow> string" where
  "go_join [] sep = []"
| "go_join [s] sep = s"
| "go_join (s # t # ss) sep = s @ sep @ go_join (t # ss) sep"

text \<open>
  White space and case of ASCII characters. (\<^verbatim>\<open>strings.TrimSpace\<close> and \<^verbatim>\<open>strings.ToLower\<close>
  also act on some Unicode code points above 127, which the model leaves alone.)
\<close>

definition is_space :: "char \<Rightarrow> bool" where
  "is_space c \<longleftrightarrow> of_char c \<in> {9, 10, 11, 12, 13, 32 :: nat}"

definition go_trim_space :: "string \<Rightarrow> string" where
  "go_trim_space s = rev (dropWhile is_space (rev (dropWhile is_space s)))"

definition lower_char :: "char \<Rightarrow> char" where
  "lower_char c = (if 65 \<le> (of_char c :: nat) \<and> (of_char c :: nat) \<le> 90 then char_of (of_char c + 32 :: nat) else c)"

definition go_to_lower :: "string \<Rightarrow> string" where
  "go_to_lower s = map lower_char s"

fun go_has_prefix :: "string \<Rightarrow> string \<Rightarrow> bool" where
  "go_has_prefix s [] = True"
| "go_has_prefix [] (p # ps) = False"
| "go_has_prefix (c # s) (p # ps) = (c = p \<and> go_has_prefix s ps)"

lemma go_has_prefix_iff: "go_has_prefix s p \<longleftrightarrow> take (length p) s = p"
  by (induction s p rule: go_has_prefix.induct) auto

text \<open>\<^verbatim>\<open>strings.LastIndexByte\<close>: the index of the last occurrence.\<close>

fun last_index_from :: "nat \<Rightarrow> string \<Rightarrow> char \<Rightarrow> nat option" where
  "last_index_from i [] c = None"
| "last_index_from i (x # s) c =
     (case last_index_from (Suc i) s c of
        Some j \<Rightarrow> Some j
      | None \<Rightarrow> if x = c then Some i else None)"

definition last_index_byte :: "string \<Rightarrow> char \<Rightarrow> nat option" where
  "last_index_byte s c = last_index_from 0 s c"

lemma last_index_from_None: "last_index_from i s c = None \<longleftrightarrow> c \<notin> set s"
proof (induction s arbitrary: i)
  case (Cons x s)
  show ?case using Cons.IH [of "Suc i"] by (cases "last_index_from (Suc i) s c") auto
qed simp

lemma last_index_from_split:
  assumes "c \<notin> set t"
  shows "last_index_from i (s @ c # t) c = Some (i + length s)"
proof (induction s arbitrary: i)
  case Nil
  show ?case using assms last_index_from_None [of "Suc i" t c] by simp
next
  case (Cons x s)
  show ?case using Cons.IH [of "Suc i"] by simp
qed

lemma last_index_byte_split: "c \<notin> set t \<Longrightarrow> last_index_byte (s @ c # t) c = Some (length s)"
  by (simp add: last_index_byte_def last_index_from_split)

section \<open>Package strconv\<close>

definition digit :: "nat \<Rightarrow> char" where
  "digit d = (if d < 10 then char_of (48 + d) else char_of (87 + d))"

text \<open>\<^verbatim>\<open>FormatUint(n, b)\<close> for the bases 2 to 16 (smaller ones are given as 2 here).\<close>

fun format_base :: "nat \<Rightarrow> nat \<Rightarrow> string" where
  "format_base b n =
     (if n < max 2 b then [digit n] else format_base b (n div max 2 b) @ [digit (n mod max 2 b)])"

declare format_base.simps [simp del]

definition format_uint :: "nat \<Rightarrow> string" where
  "format_uint n = format_base 10 n"

definition digit_value :: "char \<Rightarrow> nat option" where
  "digit_value c =
     (let v = of_char c :: nat in
      if 48 \<le> v \<and> v \<le> 57 then Some (v - 48)
      else if 97 \<le> v \<and> v \<le> 102 then Some (v - 87)
      else if 65 \<le> v \<and> v \<le> 70 then Some (v - 55)
      else None)"

fun parse_base :: "nat \<Rightarrow> nat \<Rightarrow> string \<Rightarrow> nat option" where
  "parse_base b acc [] = Some acc"
| "parse_base b acc (c # s) =
     (case digit_value c of
        None \<Rightarrow> None
      | Some d \<Rightarrow> if d < b then parse_base b (acc * b + d) s else None)"

lemma digit_value_digit: "d < 16 \<Longrightarrow> digit_value (digit d) = Some d"
  by (auto simp: digit_value_def digit_def)

lemma parse_base_append:
  "parse_base b acc (s @ t) = Option.bind (parse_base b acc s) (\<lambda>a. parse_base b a t)"
  by (induction s arbitrary: acc) (auto split: option.splits)

lemma parse_format_base:
  "2 \<le> b \<Longrightarrow> b \<le> 16 \<Longrightarrow> parse_base b 0 (format_base b n) = Some n"
proof (induction b n rule: format_base.induct)
  case (1 b n)
  show ?case
  proof (cases "n < b")
    case True
    with "1.prems" show ?thesis
      by (subst format_base.simps) (simp add: max_def digit_value_digit)
  next
    case False
    have "n mod b < b" using "1.prems" by simp
    moreover from this have "digit_value (digit (n mod b)) = Some (n mod b)"
      using "1.prems" by (intro digit_value_digit) linarith
    moreover have "parse_base b 0 (format_base b (n div b)) = Some (n div b)"
      using 1 False by (simp add: max_def)
    ultimately show ?thesis
      using False "1.prems" by (subst format_base.simps) (simp add: max_def parse_base_append)
  qed
qed

lemma format_base_nonempty: "format_base b n \<noteq> []"
  by (subst format_base.simps) simp

lemma format_base_digits:
  "2 \<le> b \<Longrightarrow> c \<in> set (format_base b n) \<Longrightarrow> \<exists>d < b. c = digit d"
proof (induction b n rule: format_base.induct)
  case (1 b n)
  show ?case
  proof (cases "n < b")
    case True
    with "1.prems" show ?thesis
      by (subst (asm) format_base.simps) (auto simp: max_def)
  next
    case False
    with "1.prems" have "c \<in> set (format_base b (n div b)) \<or> c = digit (n mod b)"
      by (subst (asm) format_base.simps) (auto simp: max_def)
    with False "1.prems" "1.IH" show ?thesis
      by (elim disjE) (simp_all add: max_def, metis mod_less_divisor zero_less_numeral order_less_le_trans)
  qed
qed

lemma format_base_inject:
  "2 \<le> b \<Longrightarrow> b \<le> 16 \<Longrightarrow> format_base b m = format_base b n \<longleftrightarrow> m = n"
  by (metis option.inject parse_format_base)

lemma format_uint_zero: "format_uint n = ''0'' \<longleftrightarrow> n = 0"
proof -
  have "format_uint 0 = ''0''" by code_simp
  then show ?thesis using format_base_inject [of 10 n 0] by (simp add: format_uint_def)
qed

end
