(* ===== verification/Go_Num.thy ===== *)
theory Go_Num
  imports Go_Base
begin

text \<open>
  Signed integers as text (\<^verbatim>\<open>strconv.Atoi\<close>, \<^verbatim>\<open>strconv.Itoa\<close>) and durations
  (\<^verbatim>\<open>time.Duration.String\<close>), as the Go sources use them.
\<close>

section \<open>Package strconv\<close>

text \<open>
  \<^verbatim>\<open>strconv.Atoi\<close> on a 64-bit machine: the value, and whether there was no error. A syntax
  error gives 0; a number out of range gives the nearest integer, and is noticed before
  anything that follows it in the text.
\<close>

datatype num_error = Syntax | Range

fun parse_uint_from :: "nat \<Rightarrow> string \<Rightarrow> num_error + nat" where
  "parse_uint_from n [] = Inr n"
| "parse_uint_from n (c # s) =
     (case digit_value c of
        None \<Rightarrow> Inl Syntax
      | Some d \<Rightarrow>
          if d \<ge> 10 then Inl Syntax
          else if n * 10 + d \<ge> 2 ^ 64 then Inl Range
          else parse_uint_from (n * 10 + d) s)"

definition atoi :: "string \<Rightarrow> int \<times> bool" where
  "atoi s =
     (let negative = (s \<noteq> [] \<and> hd s = CHR ''-'');
          t = (if s \<noteq> [] \<and> (hd s = CHR ''-'' \<or> hd s = CHR ''+'') then tl s else s);
          top = (if negative then 2 ^ 63 else 2 ^ 63 - 1 :: nat);
          signed = (\<lambda>n. if negative then - int n else int n) in
      if t = [] then (0, False)
      else
        case parse_uint_from 0 t of
          Inl Syntax \<Rightarrow> (0, False)
        | Inl Range \<Rightarrow> (signed top, False)
        | Inr n \<Rightarrow> if n \<le> top then (signed n, True) else (signed top, False))"

definition itoa :: "int \<Rightarrow> string" where
  "itoa i = (if i < 0 then CHR ''-'' # format_uint (nat (- i)) else format_uint (nat i))"

lemma parse_base_mono: "parse_base b acc s = Some n \<Longrightarrow> 1 \<le> b \<Longrightarrow> acc \<le> n"
proof (induction s arbitrary: acc)
  case (Cons c s)
  then obtain d where "acc * b + d \<le> n" by (auto split: option.splits if_splits)
  moreover have "acc * 1 \<le> acc * b" using Cons.prems(2) by (intro mult_le_mono2)
  ultimately show ?case by linarith
qed simp

lemma parse_uint_base:
  "parse_base 10 acc s = Some n \<Longrightarrow> n < 2 ^ 64 \<Longrightarrow> parse_uint_from acc s = Inr n"
proof (induction s arbitrary: acc)
  case (Cons c s)
  then obtain d where d: "digit_value c = Some d" "d < 10" and p: "parse_base 10 (acc * 10 + d) s = Some n"
    by (auto split: option.splits if_splits)
  have "acc * 10 + d < 2 ^ 64"
    using parse_base_mono [OF p] Cons.prems(2) by linarith
  then show ?case using Cons.IH [OF p Cons.prems(2)] d by simp
qed simp

lemma digit_not_sign: "d < 10 \<Longrightarrow> digit d \<noteq> CHR ''-'' \<and> digit d \<noteq> CHR ''+''"
  using digit_value_digit [of d] by (auto simp: digit_value_def)

lemma atoi_format_uint:
  assumes "n < 2 ^ 63"
  shows "atoi (format_uint n) = (int n, True)"
proof -
  have "parse_uint_from 0 (format_uint n) = Inr n"
    using assms by (intro parse_uint_base) (simp_all add: format_uint_def parse_format_base)
  moreover have "format_uint n \<noteq> []"
    by (simp add: format_uint_def format_base_nonempty)
  moreover from this obtain d where "d < 10" "hd (format_uint n) = digit d"
    using format_base_digits [of 10 "hd (format_uint n)" n] by (auto simp: format_uint_def)
  then have "hd (format_uint n) \<noteq> CHR ''-''" "hd (format_uint n) \<noteq> CHR ''+''"
    using digit_not_sign [of d] by simp_all
  ultimately show ?thesis
    using assms by (simp add: atoi_def Let_def)
qed

section \<open>Package time\<close>

text \<open>
  \<^verbatim>\<open>Duration.String\<close>: a fraction without trailing zeros, in seconds with minutes and hours
  before it, or in a smaller unit below one second (the micro sign is two bytes of UTF-8).
\<close>

definition drop_zeros :: "string \<Rightarrow> string" where
  "drop_zeros s = rev (dropWhile (\<lambda>c. c = CHR ''0'') (rev s))"

fun fraction_digits :: "nat \<Rightarrow> nat \<Rightarrow> string" where
  "fraction_digits 0 v = []"
| "fraction_digits (Suc n) v = fraction_digits n (v div 10) @ [digit (v mod 10)]"

definition format_fraction :: "nat \<Rightarrow> nat \<Rightarrow> string" where
  "format_fraction v prec =
     (let f = drop_zeros (fraction_digits prec (v mod 10 ^ prec)) in if f = [] then [] else CHR ''.'' # f)"

definition duration_string :: "int \<Rightarrow> string" where
  "duration_string d =
     (let u = nat \<bar>d\<bar>; sign = (if d < 0 then ''-'' else []);
          whole = (\<lambda>p. format_uint (u div 10 ^ p) @ format_fraction u p) in
      if u = 0 then ''0s''
      else if u < 1000 then sign @ whole 0 @ ''ns''
      else if u < 1000000 then sign @ whole 3 @ [char_of (194 :: nat), char_of (181 :: nat)] @ ''s''
      else if u < 1000000000 then sign @ whole 6 @ ''ms''
      else
        let secs = u div 1000000000; mins = secs div 60; hours = mins div 60 in
        sign @ (if hours > 0 then format_uint hours @ ''h'' else [])
          @ (if mins > 0 then format_uint (mins mod 60) @ ''m'' else [])
          @ format_uint (secs mod 60) @ format_fraction u 9 @ ''s'')"

end
