(* ===== verification/Go_Text.thy ===== *)
theory Go_Text
  imports Go_Num
begin

text \<open>
  More of package \<^verbatim>\<open>strings\<close>, for the parsers of the monitors: splitting at a byte, prefixes,
  suffixes and substrings.
\<close>

section \<open>Splitting and joining\<close>

text \<open>\<^verbatim>\<open>strings.Split\<close> at a separator of one byte: never an empty list.\<close>

fun split_from :: "string \<Rightarrow> char \<Rightarrow> string \<Rightarrow> string list" where
  "split_from acc sep [] = [acc]"
| "split_from acc sep (c # s) =
     (if c = sep then acc # split_from [] sep s else split_from (acc @ [c]) sep s)"

definition go_split :: "string \<Rightarrow> char \<Rightarrow> string list" where
  "go_split s sep = split_from [] sep s"

lemma split_from_piece: "sep \<notin> set w \<Longrightarrow> split_from acc sep (w @ rest) = split_from (acc @ w) sep rest"
  by (induction w arbitrary: acc) auto

lemma go_split_simps:
  "sep \<notin> set w \<Longrightarrow> go_split w sep = [w]"
  "sep \<notin> set w \<Longrightarrow> go_split (w @ sep # rest) sep = w # go_split rest sep"
  using split_from_piece [of sep w "[]" "[]"] split_from_piece [of sep w "[]" "sep # rest"]
  by (simp_all add: go_split_def)

lemma go_split_join:
  "fields \<noteq> [] \<Longrightarrow> list_all (\<lambda>f. sep \<notin> set f) fields \<Longrightarrow> go_split (go_join fields [sep]) sep = fields"
  by (induction fields "[sep]" rule: go_join.induct) (auto simp: go_split_simps)

lemma split_from_nonempty: "split_from acc sep s \<noteq> []"
  by (induction acc sep s rule: split_from.induct) auto

lemma split_from_join: "go_join (split_from acc sep s) [sep] = acc @ s"
proof (induction acc sep s rule: split_from.induct)
  case (2 acc sep c s)
  show ?case
  proof (cases "c = sep")
    case True
    obtain t ts where t: "split_from [] sep s = t # ts"
      using split_from_nonempty [of "[]" sep s] by (cases "split_from [] sep s") auto
    with 2 True show ?thesis by simp
  qed (use 2 in simp)
qed simp

lemma go_join_split: "go_join (go_split s sep) [sep] = s"
  by (simp add: go_split_def split_from_join)

text \<open>\<^verbatim>\<open>strings.IndexByte\<close> and \<^verbatim>\<open>strings.Cut\<close> with a separator of one byte.\<close>

fun index_from :: "nat \<Rightarrow> string \<Rightarrow> char \<Rightarrow> nat option" where
  "index_from i [] c = None"
| "index_from i (x # s) c = (if x = c then Some i else index_from (Suc i) s c)"

definition index_byte :: "string \<Rightarrow> char \<Rightarrow> nat option" where
  "index_byte s c = index_from 0 s c"

lemma index_byte_head [simp]: "index_byte (c # s) c = Some 0"
  by (simp add: index_byte_def)

definition go_cut :: "string \<Rightarrow> char \<Rightarrow> (string \<times> string) option" where
  "go_cut s c = map_option (\<lambda>i. (take i s, drop (i + 1) s)) (index_byte s c)"

section \<open>Prefixes, suffixes and substrings\<close>

definition go_has_suffix :: "string \<Rightarrow> string \<Rightarrow> bool" where
  "go_has_suffix s p \<longleftrightarrow> length p \<le> length s \<and> drop (length s - length p) s = p"

lemma go_has_suffix_iff: "go_has_suffix s p \<longleftrightarrow> (\<exists>t. s = t @ p)"
proof
  assume "go_has_suffix s p"
  then have "s = take (length s - length p) s @ p"
    unfolding go_has_suffix_def using append_take_drop_id [of "length s - length p" s] by simp
  then show "\<exists>t. s = t @ p" ..
qed (auto simp: go_has_suffix_def)

fun go_contains :: "string \<Rightarrow> string \<Rightarrow> bool" where
  "go_contains [] p = (p = [])"
| "go_contains (c # s) p = (go_has_prefix (c # s) p \<or> go_contains s p)"

definition trim_prefix :: "string \<Rightarrow> string \<Rightarrow> string" where
  "trim_prefix s p = (if go_has_prefix s p then drop (length p) s else s)"

section \<open>Package filepath\<close>

text \<open>
  \<^verbatim>\<open>filepath.Clean\<close>: empty elements and \<^verbatim>\<open>.\<close> go, \<^verbatim>\<open>..\<close> takes the element before it away;
  the stack has the elements so far, the last one first.
\<close>

fun clean_elements :: "bool \<Rightarrow> string list \<Rightarrow> string list \<Rightarrow> string list" where
  "clean_elements rooted st [] = rev st"
| "clean_elements rooted st (c # cs) =
     (if c = [] \<or> c = ''.'' then clean_elements rooted st cs
      else if c \<noteq> ''..'' then clean_elements rooted (c # st) cs
      else
        case st of
          [] \<Rightarrow> clean_elements rooted (if rooted then [] else [c]) cs
        | t # ts \<Rightarrow> clean_elements rooted (if t = ''..'' then c # st else ts) cs)"

definition path_clean :: "string \<Rightarrow> string" where
  "path_clean p =
     (let rooted = go_has_prefix p ''/'';
          body = go_join (clean_elements rooted [] (go_split p CHR ''/'')) ''/'' in
      if rooted then CHR ''/'' # body else if body = [] then ''.'' else body)"

definition path_dir :: "string \<Rightarrow> string" where
  "path_dir p = path_clean (case last_index_byte p CHR ''/'' of None \<Rightarrow> [] | Some i \<Rightarrow> take (i + 1) p)"

definition path_base :: "string \<Rightarrow> string" where
  "path_base p =
     (if p = [] then ''.''
      else
        let q = rev (dropWhile (\<lambda>c. c = CHR ''/'') (rev p)) in
        if q = [] then ''/''
        else case last_index_byte q CHR ''/'' of None \<Rightarrow> q | Some i \<Rightarrow> drop (i + 1) q)"

text \<open>\<^verbatim>\<open>filepath.Join\<close> of two elements.\<close>

definition path_join2 :: "string \<Rightarrow> string \<Rightarrow> string" where
  "path_join2 d n =
     (if d = [] then (if n = [] then [] else path_clean n)
      else path_clean (d @ ''/'' @ n))"

text \<open>A path that is clean already: a rooted list of plain elements.\<close>

definition plain_element :: "string \<Rightarrow> bool" where
  "plain_element c \<longleftrightarrow> c \<noteq> [] \<and> c \<noteq> ''.'' \<and> c \<noteq> ''..'' \<and> CHR ''/'' \<notin> set c"

definition rooted_path :: "string list \<Rightarrow> string" where
  "rooted_path cs = CHR ''/'' # go_join cs ''/''"

lemma clean_plain: "list_all plain_element cs \<Longrightarrow> clean_elements rooted st cs = rev st @ cs"
  by (induction cs arbitrary: st) (simp_all add: plain_element_def)

lemma go_join_snoc: "cs \<noteq> [] \<Longrightarrow> go_join (cs @ [n]) sep = go_join cs sep @ sep @ n"
  by (induction cs sep rule: go_join.induct) simp_all

lemma split_rooted:
  assumes "list_all plain_element cs"
  shows "go_split (rooted_path cs) CHR ''/'' = [] # (if cs = [] then [[]] else cs)"
proof -
  have "list_all (\<lambda>f. CHR ''/'' \<notin> set f) cs"
    using assms by (simp add: list_all_iff plain_element_def)
  then have "go_split (go_join cs ''/'') CHR ''/'' = (if cs = [] then [[]] else cs)"
    using go_split_join [of cs "CHR ''/''"] by (simp add: go_split_def)
  then show ?thesis
    by (simp add: go_split_def rooted_path_def)
qed

lemma path_clean_rooted: "list_all plain_element cs \<Longrightarrow> path_clean (rooted_path cs) = rooted_path cs"
  unfolding path_clean_def split_rooted Let_def
  by (simp add: rooted_path_def clean_plain)

lemma path_join2_rooted:
  assumes "list_all plain_element cs" and "cs \<noteq> []" and "plain_element n"
  shows "path_join2 (rooted_path cs) n = rooted_path (cs @ [n])"
proof -
  have "path_clean (rooted_path (cs @ [n])) = rooted_path (cs @ [n])"
    using assms by (intro path_clean_rooted) simp
  then show ?thesis
    using assms(2) by (simp add: path_join2_def rooted_path_def go_join_snoc)
qed

end
