(* ===== verification/Go_Regexp.thy ===== *)
theory Go_Regexp
  imports Go_Text
begin

text \<open>
  Package \<^verbatim>\<open>regexp\<close>, for the constructs of the patterns that are translated: literals, classes
  and their greedy repetition, sequence, ordered choice, capturing groups and the end of the
  text. A match is the leftmost one, and of these the one a backtracking search finds first.
\<close>

section \<open>Expressions\<close>

datatype cls = Not_Space | Space | Digit_Char | No_Newline

fun in_cls :: "cls \<Rightarrow> char \<Rightarrow> bool" where
  "in_cls Not_Space c = (of_char c \<notin> {9, 10, 12, 13, 32 :: nat})"
| "in_cls Space c = (of_char c \<in> {9, 10, 12, 13, 32 :: nat})"
| "in_cls Digit_Char c = (48 \<le> (of_char c :: nat) \<and> (of_char c :: nat) \<le> 57)"
| "in_cls No_Newline c = (of_char c \<noteq> (10 :: nat))"

datatype re =
    Empty
  | Lit string
  | One cls
  | Star cls
  | Seq re re
  | Alt re re
  | Group nat re
  | End_Of_Text

abbreviation Plus :: "cls \<Rightarrow> re" where
  "Plus c \<equiv> Seq (One c) (Star c)"

text \<open>The captures so far, the last one first, and a continuation for what follows.\<close>

type_synonym captures = "(nat \<times> string) list"

primrec star_match :: "cls \<Rightarrow> string \<Rightarrow> (string \<Rightarrow> 'a option) \<Rightarrow> 'a option" where
  "star_match c [] k = k []"
| "star_match c (x # s) k =
     (if in_cls c x then (case star_match c s k of None \<Rightarrow> k (x # s) | Some r \<Rightarrow> Some r) else k (x # s))"

primrec re_match :: "re \<Rightarrow> string \<Rightarrow> captures \<Rightarrow> (string \<Rightarrow> captures \<Rightarrow> 'a option) \<Rightarrow> 'a option" where
  "re_match Empty s cs k = k s cs"
| "re_match (Lit w) s cs k = (if go_has_prefix s w then k (drop (length w) s) cs else None)"
| "re_match (One c) s cs k = (case s of [] \<Rightarrow> None | x # s' \<Rightarrow> if in_cls c x then k s' cs else None)"
| "re_match (Star c) s cs k = star_match c s (\<lambda>s'. k s' cs)"
| "re_match (Seq a b) s cs k = re_match a s cs (\<lambda>s' cs'. re_match b s' cs' k)"
| "re_match (Alt a b) s cs k = (case re_match a s cs k of None \<Rightarrow> re_match b s cs k | Some r \<Rightarrow> Some r)"
| "re_match (Group n a) s cs k =
     re_match a s cs (\<lambda>s' cs'. k s' ((n, take (length s - length s') s) # cs'))"
| "re_match End_Of_Text s cs k = (if s = [] then k s cs else None)"

fun FindSubmatch :: "re \<Rightarrow> string \<Rightarrow> captures option" where
  "FindSubmatch r s =
     (case re_match r s [] (\<lambda>_ cs. Some cs) of
        Some cs \<Rightarrow> Some cs
      | None \<Rightarrow> (case s of [] \<Rightarrow> None | _ # s' \<Rightarrow> FindSubmatch r s'))"

declare FindSubmatch.simps [simp del]

definition group :: "captures \<Rightarrow> nat \<Rightarrow> string" where
  "group cs n = (case map_of cs n of None \<Rightarrow> [] | Some w \<Rightarrow> w)"

section \<open>The reference semantics\<close>

text \<open>\<open>spans r s t\<close>: the expression matches what \<open>s\<close> has before \<open>t\<close>.\<close>

inductive spans :: "re \<Rightarrow> string \<Rightarrow> string \<Rightarrow> bool" where
  empty: "spans Empty s s"
| lit: "spans (Lit w) (w @ t) t"
| one: "in_cls c x \<Longrightarrow> spans (One c) (x # t) t"
| stop: "spans (Star c) s s"
| more: "in_cls c x \<Longrightarrow> spans (Star c) s t \<Longrightarrow> spans (Star c) (x # s) t"
| seq: "spans a s u \<Longrightarrow> spans b u t \<Longrightarrow> spans (Seq a b) s t"
| left: "spans a s t \<Longrightarrow> spans (Alt a b) s t"
| right: "spans b s t \<Longrightarrow> spans (Alt a b) s t"
| group: "spans a s t \<Longrightarrow> spans (Group n a) s t"
| end_of_text: "spans End_Of_Text [] []"

inductive_cases spans_cases:
  "spans Empty s t" "spans (Lit w) s t" "spans (One c) s t" "spans (Seq a b) s t" "spans (Alt a b) s t"
  "spans (Group n a) s t" "spans End_Of_Text s t"

lemma star_match_sound: "star_match c s k = Some r \<Longrightarrow> \<exists>t. spans (Star c) s t \<and> k t = Some r"
  by (induction s) (auto intro: spans.stop spans.more split: if_splits option.splits)

lemma star_match_complete: "spans (Star c) s t \<Longrightarrow> k t \<noteq> None \<Longrightarrow> star_match c s k \<noteq> None"
proof (induction "Star c" s t rule: spans.induct)
  case (stop s)
  then show ?case by (cases s) (auto split: option.split)
qed (auto split: option.split)

lemma re_match_sound: "re_match r s cs k = Some x \<Longrightarrow> \<exists>t cs'. spans r s t \<and> k t cs' = Some x"
proof (induction r arbitrary: s cs k)
  case (Lit w)
  then have "s = w @ drop (length w) s"
    by (metis append_take_drop_id go_has_prefix_iff option.distinct(1) re_match.simps(2))
  then show ?case using Lit spans.lit [of w "drop (length w) s"] by (auto split: if_splits)
next
  case (Seq a b)
  then show ?case by (fastforce intro: spans.seq)
next
  case (Star c)
  then show ?case using star_match_sound by fastforce
next
  case (Group n a)
  then show ?case by (fastforce intro: spans.group)
next
  case (Alt a b)
  then show ?case by (fastforce intro: spans.left spans.right split: option.splits)
qed (auto intro: spans.intros split: if_splits list.splits)

lemma re_match_complete:
  "spans r s t \<Longrightarrow> (\<And>cs. k t cs \<noteq> None) \<Longrightarrow> re_match r s cs k \<noteq> None"
proof (induction r arbitrary: s t cs k)
  case (Lit w)
  then show ?case by (auto elim!: spans_cases simp: go_has_prefix_iff)
next
  case (Star c)
  then show ?case using star_match_complete [of c s t "\<lambda>s'. k s' cs"] by simp
next
  case (Seq a b)
  then obtain u where u: "spans a s u" "spans b u t" by (auto elim: spans_cases)
  have "re_match b u cs' k \<noteq> None" for cs' using Seq.IH(2) [OF u(2)] Seq.prems(2) by blast
  then show ?case using Seq.IH(1) [OF u(1), of "\<lambda>s' cs'. re_match b s' cs' k"] by simp
next
  case (Alt a b)
  have "re_match a s cs k \<noteq> None \<or> re_match b s cs k \<noteq> None"
    using Alt.IH Alt.prems by (blast elim: spans_cases)
  then show ?case by (auto split: option.split)
next
  case (Group n a)
  then show ?case by (auto elim!: spans_cases)
qed (auto elim!: spans_cases)

text \<open>A search finds something exactly if the expression matches somewhere in the text.\<close>

lemma FindSubmatch_iff: "FindSubmatch r s \<noteq> None \<longleftrightarrow> (\<exists>u v t. s = u @ v \<and> spans r v t)"
proof (induction s)
  case Nil
  show ?case
    using re_match_sound [of r "[]" "[]" "\<lambda>_ cs. Some cs"] re_match_complete [of r "[]" _ "\<lambda>_ cs. Some cs" "[]"]
    by (subst FindSubmatch.simps) (auto split: option.split)
next
  case (Cons x s)
  have "(\<exists>u v t. x # s = u @ v \<and> spans r v t) \<longleftrightarrow> (\<exists>t. spans r (x # s) t) \<or> (\<exists>u v t. s = u @ v \<and> spans r v t)"
    by (auto simp: Cons_eq_append_conv)
  moreover have "re_match r (x # s) [] (\<lambda>_ cs. Some cs) \<noteq> None \<longleftrightarrow> (\<exists>t. spans r (x # s) t)"
    using re_match_sound [of r "x # s" "[]" "\<lambda>_ cs. Some cs"] re_match_complete [of r "x # s" _ "\<lambda>_ cs. Some cs" "[]"]
    by blast
  ultimately show ?case
    using Cons.IH by (subst FindSubmatch.simps) (auto split: option.split)
qed

section \<open>Matching forward\<close>

text \<open>A repetition takes all it can, if what follows matches after that.\<close>

lemma star_match_all:
  assumes "\<And>x. x \<in> set w \<Longrightarrow> in_cls c x" and "t = [] \<or> \<not> in_cls c (hd t)" and "k t = Some r"
  shows "star_match c (w @ t) k = Some r"
  using assms(1)
proof (induction w)
  case Nil
  then show ?case using assms(2,3) by (cases t) simp_all
qed (use assms in simp)

lemma plus_match:
  assumes "w \<noteq> []" and "\<And>x. x \<in> set w \<Longrightarrow> in_cls c x" and "t = [] \<or> \<not> in_cls c (hd t)" and "k t cs = Some r"
  shows "re_match (Plus c) (w @ t) cs k = Some r"
proof -
  obtain x v where "w = x # v" using assms(1) by (cases w) auto
  then show ?thesis
    using star_match_all [of v c t "\<lambda>s. k s cs" r] assms(2-4) by simp
qed

lemma group_plus_match:
  assumes "w \<noteq> []" and "\<And>x. x \<in> set w \<Longrightarrow> in_cls c x" and "t = [] \<or> \<not> in_cls c (hd t)"
    and "k t ((n, w) # cs) = Some r"
  shows "re_match (Group n (Plus c)) (w @ t) cs k = Some r"
proof -
  have "re_match (Plus c) (w @ t) cs (\<lambda>s' cs'. k s' ((n, take (length (w @ t) - length s') (w @ t)) # cs')) = Some r"
  proof (rule plus_match [OF assms(1-3)])
    show "k t ((n, take (length (w @ t) - length t) (w @ t)) # cs) = Some r"
      using assms(4) by simp
  qed
  then show ?thesis by (simp only: re_match.simps(7))
qed

lemma lit_match: "re_match (Lit w) (w @ t) cs k = k t cs"
  by (simp add: go_has_prefix_iff)

text \<open>A search for an expression that begins with a literal goes on to where the literal is.\<close>

lemma FindSubmatch_skip:
  assumes "\<And>i. i < length pre \<Longrightarrow> \<not> go_has_prefix (drop i (pre @ w)) w"
  shows "FindSubmatch (Seq (Lit w) r) (pre @ w @ s) = FindSubmatch (Seq (Lit w) r) (w @ s)"
  using assms
proof (induction pre)
  case (Cons c pre)
  have "\<not> go_has_prefix (c # pre @ w) w" using Cons.prems [of 0] by simp
  moreover have "take (length w) ((c # pre @ w) @ s) = take (length w) (c # pre @ w)"
    by (simp only: take_append) simp
  ultimately have "\<not> go_has_prefix (c # pre @ w @ s) w"
    by (simp add: go_has_prefix_iff)
  moreover have "\<not> go_has_prefix (drop i (pre @ w)) w" if "i < length pre" for i
    using Cons.prems [of "Suc i"] that by simp
  then have "FindSubmatch (Seq (Lit w) r) (pre @ w @ s) = FindSubmatch (Seq (Lit w) r) (w @ s)"
    by (rule Cons.IH)
  ultimately show ?case
    by (subst FindSubmatch.simps) simp
qed simp

end
