(* ===== verification/Go_Syntax.thy ===== *)
theory Go_Syntax
  imports Go_Text
begin

text \<open>
  The regular expressions of the rules: the part of the syntax of package \<^verbatim>\<open>regexp\<close> that their
  patterns use, from the text of a pattern to an expression, and whether an expression matches
  somewhere in a text. What is not in that part (other flags, named groups, classes by name,
  text outside ASCII) parses as \<open>None\<close>, which says nothing about Go. \<^verbatim>\<open>regexp.Compile\<close> also limits
  the depth and the size of an expression, so it may refuse a text that is read here.
\<close>

section \<open>Expressions\<close>

text \<open>A class has ranges of character codes and may ignore the case or be negated.\<close>

datatype rx =
    Eps
  | Cls bool bool "(int \<times> int) list"
  | Cat rx rx
  | Or rx rx
  | Rep int "int option" rx
  | Begin_Text
  | End_Text
  | Word_Boundary

definition in_ranges :: "(int \<times> int) list \<Rightarrow> int \<Rightarrow> bool" where
  "in_ranges rs v = list_ex (\<lambda>(lo, hi). lo \<le> v \<and> v \<le> hi) rs"

text \<open>The other case of an ASCII letter.\<close>

definition other_case :: "int \<Rightarrow> int" where
  "other_case v = (if 65 \<le> v \<and> v \<le> 90 then v + 32 else if 97 \<le> v \<and> v \<le> 122 then v - 32 else v)"

definition cls_match :: "bool \<Rightarrow> bool \<Rightarrow> (int \<times> int) list \<Rightarrow> char \<Rightarrow> bool" where
  "cls_match ci neg rs c =
     ((in_ranges rs (of_char c) \<or> ci \<and> in_ranges rs (other_case (of_char c))) \<noteq> neg)"

definition word_char :: "char \<Rightarrow> bool" where
  "word_char c = in_ranges [(48, 57), (65, 90), (95, 95), (97, 122)] (of_char c)"

definition at_boundary :: "string \<Rightarrow> nat \<Rightarrow> bool" where
  "at_boundary w i \<longleftrightarrow> (0 < i \<and> i \<le> length w \<and> word_char (w ! (i - 1))) \<noteq> (i < length w \<and> word_char (w ! i))"

section \<open>Matching\<close>

text \<open>The positions that at most \<open>n\<close>, or exactly \<open>m\<close>, steps lead to.\<close>

fun exactly_steps :: "(nat \<Rightarrow> nat set) \<Rightarrow> nat \<Rightarrow> nat set \<Rightarrow> nat set" where
  "exactly_steps f 0 S = S"
| "exactly_steps f (Suc m) S = exactly_steps f m (\<Union> (f ` S))"

fun upto_steps :: "(nat \<Rightarrow> nat set) \<Rightarrow> nat \<Rightarrow> nat set \<Rightarrow> nat set" where
  "upto_steps f 0 S = S"
| "upto_steps f (Suc n) S = S \<union> upto_steps f n (\<Union> (f ` S))"

text \<open>Where a match that begins at a position can end.\<close>

primrec ends :: "rx \<Rightarrow> string \<Rightarrow> nat \<Rightarrow> nat set" where
  "ends Eps w i = {i}"
| "ends (Cls ci neg rs) w i = (if i < length w \<and> cls_match ci neg rs (w ! i) then {Suc i} else {})"
| "ends (Cat a b) w i = \<Union> (ends b w ` ends a w i)"
| "ends (Or a b) w i = ends a w i \<union> ends b w i"
| "ends (Rep m n a) w i =
     (case n of
        None \<Rightarrow> upto_steps (ends a w) (length w) (exactly_steps (ends a w) (nat m) {i})
      | Some k \<Rightarrow>
          if nat k < nat m then {}
          else upto_steps (ends a w) (nat k - nat m) (exactly_steps (ends a w) (nat m) {i}))"
| "ends Begin_Text w i = (if i = 0 then {i} else {})"
| "ends End_Text w i = (if i = length w then {i} else {})"
| "ends Word_Boundary w i = (if at_boundary w i then {i} else {})"

definition rx_matches :: "rx \<Rightarrow> string \<Rightarrow> bool" where
  "rx_matches r w = list_ex (\<lambda>i. ends r w i \<noteq> {}) [0..<Suc (length w)]"

section \<open>Reading a pattern\<close>

text \<open>Characters, and characters behind a backslash.\<close>

datatype rx_unit = Raw char | Esc char

fun units :: "string \<Rightarrow> rx_unit list option" where
  "units [] = Some []"
| "units (c # s) =
     (if (of_char c :: int) > 127 then None
      else if of_char c = (92 :: int) then
        (case s of [] \<Rightarrow> None | d # s' \<Rightarrow> map_option ((#) (Esc d)) (units s'))
      else map_option ((#) (Raw c)) (units s))"

definition alnum :: "int \<Rightarrow> bool" where
  "alnum v = in_ranges [(48, 57), (65, 90), (97, 122)] v"

definition unit_code :: "rx_unit \<Rightarrow> int option" where
  "unit_code u =
     (case u of
        Raw c \<Rightarrow> Some (of_char c)
      | Esc c \<Rightarrow>
          if c = CHR ''n'' then Some 10 else if c = CHR ''t'' then Some 9 else if c = CHR ''r'' then Some 13
          else if c = CHR ''f'' then Some 12 else if c = CHR ''v'' then Some 11 else if c = CHR ''a'' then Some 7
          else if alnum (of_char c) \<or> (of_char c :: int) > 127 then None
          else Some (of_char c))"

definition perl_class :: "char \<Rightarrow> (int \<times> int) list option" where
  "perl_class c =
     (if c = CHR ''d'' then Some [(48, 57)]
      else if c = CHR ''s'' then Some [(9, 10), (12, 13), (32, 32)]
      else if c = CHR ''w'' then Some [(48, 57), (65, 90), (95, 95), (97, 122)]
      else None)"

definition unit_ranges :: "rx_unit \<Rightarrow> (int \<times> int) list option" where
  "unit_ranges u =
     (case u of
        Esc c \<Rightarrow>
          (case perl_class c of
             Some rs \<Rightarrow> Some rs
           | None \<Rightarrow> map_option (\<lambda>v. [(v, v)]) (unit_code u))
      | Raw c \<Rightarrow> Some [(of_char c, of_char c)])"

text \<open>The items of a class after the bracket and the circumflex, and how many units they are.\<close>

fun class_items :: "bool \<Rightarrow> rx_unit list \<Rightarrow> ((int \<times> int) list \<times> nat) option" where
  "class_items first [] = None"
| "class_items first (u # us) =
     (let single = (case unit_ranges u of
          None \<Rightarrow> None
        | Some r \<Rightarrow> map_option (\<lambda>(rs, k). (r @ rs, Suc k)) (class_items False us)) in
      if u = Raw CHR '']'' \<and> \<not> first then Some ([], 1)
      else if u = Raw CHR ''['' \<and> us \<noteq> [] \<and> hd us = Raw CHR '':'' then None
      else
        case us of
          m # hi # us' \<Rightarrow>
            if m = Raw CHR ''-'' \<and> hi \<noteq> Raw CHR '']'' then
              (case (unit_code u, unit_code hi) of
                 (Some a, Some b) \<Rightarrow>
                   if a \<le> b then map_option (\<lambda>(rs, k). ((a, b) # rs, k + 3)) (class_items False us') else None
               | _ \<Rightarrow> None)
            else single
        | _ \<Rightarrow> single)"

text \<open>The rest of a repetition count in braces: its bounds and how many units it is.\<close>

definition is_digit :: "rx_unit \<Rightarrow> bool" where
  "is_digit u = (case u of Raw c \<Rightarrow> in_ranges [(48, 57)] (of_char c) | Esc _ \<Rightarrow> False)"

definition number_of :: "rx_unit list \<Rightarrow> int" where
  "number_of us = foldl (\<lambda>n u. 10 * n + (case u of Raw c \<Rightarrow> of_char c - 48 | Esc _ \<Rightarrow> 0)) 0 us"

text \<open>A number does not begin with a zero, unless it is one digit.\<close>

definition count_units :: "rx_unit list \<Rightarrow> bool" where
  "count_units ds \<longleftrightarrow> ds \<noteq> [] \<and> (length ds = 1 \<or> hd ds \<noteq> Raw CHR ''0'')"

definition braces :: "rx_unit list \<Rightarrow> (int \<times> int option \<times> nat) option" where
  "braces us =
     (let ds = takeWhile is_digit us; rest = drop (length ds) us in
      if \<not> count_units ds then None
      else
        case rest of
          [] \<Rightarrow> None
        | u # rest \<Rightarrow>
            if u = Raw CHR ''}'' then Some (number_of ds, Some (number_of ds), length ds + 1)
            else if u \<noteq> Raw CHR '','' then None
            else
              let es = takeWhile is_digit rest; rest = drop (length es) rest in
              if es \<noteq> [] \<and> \<not> count_units es \<or> rest = [] \<or> hd rest \<noteq> Raw CHR ''}'' then None
              else Some (number_of ds, if es = [] then None else Some (number_of es), length ds + length es + 2))"

datatype token = Atom rx | Quant int "int option" | Open_Group | Close_Group | Bar

text \<open>The token that begins with a unit, and how many of the units behind it belong to it.\<close>

definition lazy_mark :: "rx_unit list \<Rightarrow> nat" where
  "lazy_mark us = (if us \<noteq> [] \<and> hd us = Raw CHR ''?'' then 1 else 0)"

definition token_of :: "bool \<Rightarrow> rx_unit \<Rightarrow> rx_unit list \<Rightarrow> (token \<times> nat) option" where
  "token_of ci u us =
     (if u = Raw CHR ''('' then
        (if us \<noteq> [] \<and> hd us = Raw CHR ''?'' then
           (if take 2 us = [Raw CHR ''?'', Raw CHR '':''] then Some (Open_Group, 2) else None)
         else Some (Open_Group, 0))
      else if u = Raw CHR '')'' then Some (Close_Group, 0)
      else if u = Raw CHR ''|'' then Some (Bar, 0)
      else if u = Raw CHR ''^'' then Some (Atom Begin_Text, 0)
      else if u = Raw CHR ''$'' then Some (Atom End_Text, 0)
      else if u = Raw CHR ''.'' then Some (Atom (Cls False True [(10, 10)]), 0)
      else if u = Raw CHR ''*'' then Some (Quant 0 None, lazy_mark us)
      else if u = Raw CHR ''+'' then Some (Quant 1 None, lazy_mark us)
      else if u = Raw CHR ''?'' then Some (Quant 0 (Some 1), lazy_mark us)
      else if u = Raw CHR ''{'' \<and> braces us \<noteq> None then
        (case the (braces us) of (m, n, k) \<Rightarrow>
           if m > 1000 \<or> (case n of None \<Rightarrow> False | Some n \<Rightarrow> n > 1000 \<or> n < m) then None
           else Some (Quant m n, k + lazy_mark (drop k us)))
      else if u = Raw CHR ''['' then
        (let neg = (us \<noteq> [] \<and> hd us = Raw CHR ''^''); skip = (if neg then 1 else 0) in
         case class_items True (drop skip us) of
           None \<Rightarrow> None
         | Some (rs, k) \<Rightarrow> Some (Atom (Cls ci neg rs), skip + k))
      else
        case u of
          Esc c \<Rightarrow>
            if c = CHR ''b'' then Some (Atom Word_Boundary, 0)
            else
              (case perl_class c of
                 Some rs \<Rightarrow> Some (Atom (Cls ci False rs), 0)
               | None \<Rightarrow>
                   (case perl_class (lower_char c) of
                      Some rs \<Rightarrow> Some (Atom (Cls ci True rs), 0)
                    | None \<Rightarrow> map_option (\<lambda>v. (Atom (Cls ci False [(v, v)]), 0)) (unit_code u)))
        | Raw c \<Rightarrow> Some (Atom (Cls ci False [(of_char c, of_char c)]), 0))"

function lex :: "bool \<Rightarrow> rx_unit list \<Rightarrow> token list option" where
  "lex ci [] = Some []"
| "lex ci (u # us) =
     (case token_of ci u us of
        None \<Rightarrow> None
      | Some (t, k) \<Rightarrow> map_option ((#) t) (lex ci (drop k us)))"
  by pat_completeness auto
termination
  by (relation "measure (\<lambda>(ci, us). length us)") auto

text \<open>
  The stack of the groups that are open: for each, the alternatives before the last bar and
  the items since, both with the last one first. A repetition needs something to repeat, and
  does not follow another one.
\<close>

type_synonym frame = "rx list \<times> rx list"

definition cat_of :: "rx list \<Rightarrow> rx" where
  "cat_of cur = foldl (\<lambda>acc r. Cat r acc) Eps cur"

definition alts_of :: "frame \<Rightarrow> rx" where
  "alts_of f = (case f of (alts, cur) \<Rightarrow> foldl (\<lambda>acc r. Or r acc) (cat_of cur) alts)"

text \<open>Repetitions in repetitions: at most a thousand times in all, by the largest counts.\<close>

primrec rep_valid :: "rx \<Rightarrow> int \<Rightarrow> bool" where
  "rep_valid Eps n = True"
| "rep_valid (Cls ci neg rs) n = True"
| "rep_valid (Cat a b) n = (rep_valid a n \<and> rep_valid b n)"
| "rep_valid (Or a b) n = (rep_valid a n \<and> rep_valid b n)"
| "rep_valid (Rep m u a) n =
     (let k = (case u of None \<Rightarrow> m | Some k \<Rightarrow> k) in
      u = Some 0 \<or> k \<le> n \<and> rep_valid a (if 0 < k then n div k else n))"
| "rep_valid Begin_Text n = True"
| "rep_valid End_Text n = True"
| "rep_valid Word_Boundary n = True"

fun build :: "token list \<Rightarrow> frame \<Rightarrow> frame list \<Rightarrow> rx option" where
  "build [] f [] = Some (alts_of f)"
| "build [] f (g # fs) = None"
| "build (Atom r # ts) (alts, cur) fs = build ts (alts, r # cur) fs"
| "build (Bar # ts) (alts, cur) fs = build ts (cat_of cur # alts, []) fs"
| "build (Open_Group # ts) f fs = build ts ([], []) (f # fs)"
| "build (Close_Group # ts) f [] = None"
| "build (Close_Group # ts) f ((alts, cur) # fs) = build ts (alts, alts_of f # cur) fs"
| "build (Quant m n # ts) (alts, []) fs = None"
| "build (Quant m n # ts) (alts, r # cur) fs =
     (case ts of
        Quant _ _ # _ \<Rightarrow> None
      | _ \<Rightarrow> if rep_valid (Rep m n r) 1000 then build ts (alts, Rep m n r # cur) fs else None)"

definition parse_rx :: "string \<Rightarrow> rx option" where
  "parse_rx p =
     (let ci = go_has_prefix p ''(?i)'' in
      case units (if ci then drop 4 p else p) of
        None \<Rightarrow> None
      | Some us \<Rightarrow> (case lex ci us of None \<Rightarrow> None | Some ts \<Rightarrow> build ts ([], []) []))"

text \<open>\<^verbatim>\<open>regexp.QuoteMeta\<close>: a pattern that matches the text itself.\<close>

definition special :: "char \<Rightarrow> bool" where
  "special c \<longleftrightarrow> c \<in> set ''.+*?()|[]{}^$'' \<or> of_char c = (92 :: nat)"

definition QuoteMeta :: "string \<Rightarrow> string" where
  "QuoteMeta s = concat (map (\<lambda>c. if special c then [char_of (92 :: nat), c] else [c]) s)"

section \<open>What a match is\<close>

text \<open>The pairs of positions that an expression matches between.\<close>

primrec matching :: "rx \<Rightarrow> string \<Rightarrow> (nat \<times> nat) set" where
  "matching Eps w = {(i, i) | i. i \<le> length w}"
| "matching (Cls ci neg rs) w = {(i, Suc i) | i. i < length w \<and> cls_match ci neg rs (w ! i)}"
| "matching (Cat a b) w = matching a w O matching b w"
| "matching (Or a b) w = matching a w \<union> matching b w"
| "matching (Rep m n a) w =
     {(i, j). i \<le> length w \<and> (\<exists>k. nat m \<le> k \<and> (\<forall>u. n = Some u \<longrightarrow> k \<le> nat u) \<and> (i, j) \<in> matching a w ^^ k)}"
| "matching Begin_Text w = {(0, 0)}"
| "matching End_Text w = {(length w, length w)}"
| "matching Word_Boundary w = {(i, i) | i. i \<le> length w \<and> at_boundary w i}"

definition onward :: "nat \<Rightarrow> (nat \<times> nat) set" where
  "onward l = {(i, j). i \<le> j \<and> j \<le> l}"

lemma relpow_onward:
  assumes "R \<subseteq> onward l" "(i, j) \<in> R ^^ k" "i \<le> l"
  shows "(i, j) \<in> onward l"
  using assms(2)
proof (induction k arbitrary: j)
  case 0
  then show ?case using assms(3) by (simp add: onward_def)
next
  case (Suc k)
  then obtain p where "(i, p) \<in> R ^^ k" "(p, j) \<in> R" by auto
  with Suc.IH [of p] assms(1) show ?case by (auto simp: onward_def)
qed

lemma matching_onward: "matching r w \<subseteq> onward (length w)"
proof (induction r)
  case (Rep m n a)
  then show ?case using relpow_onward [OF Rep] by auto
qed (fastforce simp: onward_def)+

text \<open>Steps that do not move can be left out.\<close>

lemma relpow_short:
  assumes "R \<subseteq> onward l" "(i, j) \<in> R ^^ k" "i \<le> l"
  shows "\<exists>k' \<le> j - i. (i, j) \<in> R ^^ k'"
  using assms(2)
proof (induction k arbitrary: j)
  case 0
  then show ?case by auto
next
  case (Suc k)
  then obtain p where p: "(i, p) \<in> R ^^ k" "(p, j) \<in> R" by auto
  with Suc.IH obtain k' where k': "k' \<le> p - i" "(i, p) \<in> R ^^ k'" by blast
  have "i \<le> p" "p \<le> j"
    using relpow_onward [OF assms(1) p(1) assms(3)] p(2) assms(1) by (auto simp: onward_def)
  show ?case
  proof (cases "p = j")
    case True
    with k' show ?thesis by blast
  next
    case False
    with \<open>p \<le> j\<close> \<open>i \<le> p\<close> k'(1) have "Suc k' \<le> j - i" by simp
    moreover have "(i, j) \<in> R ^^ Suc k'" using k'(2) p(2) by auto
    ultimately show ?thesis by blast
  qed
qed

lemma exactly_steps_relpow:
  assumes "S \<subseteq> {..l}" "\<And>i j. i \<le> l \<Longrightarrow> j \<in> f i \<longleftrightarrow> (i, j) \<in> R" "R \<subseteq> onward l"
  shows "exactly_steps f m S = (R ^^ m) `` S"
  using assms(1)
proof (induction m arbitrary: S)
  case (Suc m)
  have step: "\<Union> (f ` S) = R `` S" using Suc.prems assms(2) by (auto simp: subset_iff)
  moreover have "R `` S \<subseteq> {..l}" using assms(3) by (auto simp: onward_def)
  ultimately have "exactly_steps f (Suc m) S = (R ^^ m) `` R `` S" using Suc.IH by simp
  then show ?case by (simp only: relcomp_Image [symmetric] relpow.simps relpow_commute)
qed simp

lemma upto_steps_relpow:
  assumes "S \<subseteq> {..l}" "\<And>i j. i \<le> l \<Longrightarrow> j \<in> f i \<longleftrightarrow> (i, j) \<in> R" "R \<subseteq> onward l"
  shows "upto_steps f n S = (\<Union>k \<le> n. (R ^^ k) `` S)"
  using assms(1)
proof (induction n arbitrary: S)
  case (Suc n)
  have step: "\<Union> (f ` S) = R `` S" using Suc.prems assms(2) by (auto simp: subset_iff)
  moreover have "R `` S \<subseteq> {..l}" using assms(3) by (auto simp: onward_def)
  ultimately have "upto_steps f (Suc n) S = S \<union> (\<Union>k \<le> n. (R ^^ k) `` R `` S)" using Suc.IH by simp
  also have "\<dots> = S \<union> (\<Union>k \<le> n. (R ^^ Suc k) `` S)"
    by (simp only: relcomp_Image [symmetric] relpow.simps relpow_commute)
  also have "\<dots> = (\<Union>k \<le> Suc n. (R ^^ k) `` S)"
    by (subst atMost_Suc_eq_insert_0) (auto simp del: relpow.simps(2))
  finally show ?case .
qed simp

text \<open>The positions computed are the ends of the matches.\<close>

lemma ends_matching: "i \<le> length w \<Longrightarrow> j \<in> ends r w i \<longleftrightarrow> (i, j) \<in> matching r w"
proof (induction r arbitrary: i j)
  case (Cat a b)
  have inside: "p \<le> length w" if "(i, p) \<in> matching a w" for p
    using that matching_onward [of a w] by (auto simp: onward_def)
  have "j \<in> ends (Cat a b) w i \<longleftrightarrow> (\<exists>p. (i, p) \<in> matching a w \<and> j \<in> ends b w p)"
    using Cat.IH(1) [OF Cat.prems] by simp blast
  also have "\<dots> \<longleftrightarrow> (\<exists>p. (i, p) \<in> matching a w \<and> (p, j) \<in> matching b w)"
    using Cat.IH(2) [OF inside] by blast
  finally show ?case by auto
next
  case (Rep m n a)
  let ?R = "matching a w"
  note conv = Rep.IH matching_onward
  have ex: "exactly_steps (ends a w) (nat m) {i} = (?R ^^ nat m) `` {i}"
    by (rule exactly_steps_relpow [OF _ conv]) (use Rep.prems in auto)
  have sub: "(?R ^^ nat m) `` {i} \<subseteq> {..length w}"
    using relpow_onward [OF matching_onward _ Rep.prems] by (auto simp: onward_def)
  have up: "upto_steps (ends a w) k (exactly_steps (ends a w) (nat m) {i}) = (\<Union>k' \<le> k. (?R ^^ (nat m + k')) `` {i})" for k
    unfolding ex by (subst upto_steps_relpow [OF sub conv]) (simp_all add: relpow_add relcomp_Image)
  show ?case
  proof (cases n)
    case None
    have "\<exists>k' \<le> length w. (i, j) \<in> ?R ^^ (nat m + k')" if "nat m \<le> k" "(i, j) \<in> ?R ^^ k" for k
    proof -
      from that have "(i, j) \<in> ?R ^^ nat m O ?R ^^ (k - nat m)" by (simp add: relpow_add [symmetric])
      then obtain p where p: "(i, p) \<in> ?R ^^ nat m" "(p, j) \<in> ?R ^^ (k - nat m)" by auto
      have "p \<le> length w" using p(1) sub by auto
      from relpow_short [OF matching_onward p(2) this] obtain k'
        where k': "k' \<le> j - p" "(p, j) \<in> ?R ^^ k'" by blast
      have "j \<le> length w" using relpow_onward [OF matching_onward p(2) \<open>p \<le> length w\<close>] by (simp add: onward_def)
      with k'(1) have "k' \<le> length w" by simp
      moreover have "(i, j) \<in> ?R ^^ (nat m + k')" using p(1) k'(2) by (auto simp: relpow_add)
      ultimately show ?thesis by blast
    qed
    then show ?thesis using Rep.prems None by (auto simp: up intro: le_add1)
  next
    case (Some u)
    show ?thesis
    proof (cases "nat u < nat m")
      case False
      then have "(\<exists>k' \<le> nat u - nat m. (i, j) \<in> ?R ^^ (nat m + k')) \<longleftrightarrow>
          (\<exists>k. nat m \<le> k \<and> k \<le> nat u \<and> (i, j) \<in> ?R ^^ k)"
        by (metis add.commute add_le_imp_le_diff le_add1 le_add_diff_inverse le_diff_conv2 not_less)
      moreover from Some False have "j \<in> ends (Rep m n a) w i \<longleftrightarrow>
          (\<exists>k' \<le> nat u - nat m. (i, j) \<in> ?R ^^ (nat m + k'))"
        by (simp only: ends.simps option.case if_False up UN_iff Bex_def atMost_iff Image_singleton_iff)
      ultimately show ?thesis using Rep.prems Some by simp
    qed (use Rep.prems Some in auto)
  qed
qed (auto split: if_splits)

lemma rx_matches_iff: "rx_matches r w \<longleftrightarrow> matching r w \<noteq> {}"
proof -
  have "rx_matches r w \<longleftrightarrow> (\<exists>i \<le> length w. \<exists>j. (i, j) \<in> matching r w)"
    using ends_matching by (fastforce simp: rx_matches_def list_ex_iff less_Suc_eq_le simp del: upt_Suc)
  then show ?thesis using matching_onward [of r w] by (fastforce simp: onward_def)
qed

section \<open>Expressions without assertions\<close>

text \<open>Without assertions what an expression matches does not depend on what is around it.\<close>

primrec plain :: "rx \<Rightarrow> bool" where
  "plain Eps \<longleftrightarrow> True"
| "plain (Cls ci neg rs) \<longleftrightarrow> True"
| "plain (Cat a b) \<longleftrightarrow> plain a \<and> plain b"
| "plain (Or a b) \<longleftrightarrow> plain a \<and> plain b"
| "plain (Rep m n a) \<longleftrightarrow> plain a"
| "plain Begin_Text \<longleftrightarrow> False"
| "plain End_Text \<longleftrightarrow> False"
| "plain Word_Boundary \<longleftrightarrow> False"

primrec lang :: "rx \<Rightarrow> string set" where
  "lang Eps = {[]}"
| "lang (Cls ci neg rs) = {[c] | c. cls_match ci neg rs c}"
| "lang (Cat a b) = {u @ v | u v. u \<in> lang a \<and> v \<in> lang b}"
| "lang (Or a b) = lang a \<union> lang b"
| "lang (Rep m n a) =
     {concat us | us. nat m \<le> length us \<and> (\<forall>k. n = Some k \<longrightarrow> length us \<le> nat k) \<and> set us \<subseteq> lang a}"
| "lang Begin_Text = {}"
| "lang End_Text = {}"
| "lang Word_Boundary = {}"

definition part :: "nat \<Rightarrow> nat \<Rightarrow> string \<Rightarrow> string" where
  "part i j w = take (j - i) (drop i w)"

lemma part_Cons: "i < length w \<Longrightarrow> part i (Suc i) w = [w ! i]"
  by (simp add: part_def Suc_diff_le take_Suc_conv_app_nth)

lemma length_part [simp]: "j \<le> length w \<Longrightarrow> length (part i j w) = j - i"
  by (simp add: part_def)

lemma part_append:
  assumes "i \<le> p" "p \<le> j"
  shows "part i j w = part i p w @ part p j w"
proof -
  have "part i j w = take ((p - i) + (j - p)) (drop i w)" using assms by (simp add: part_def)
  also have "\<dots> = part i p w @ take (j - p) (drop (p - i) (drop i w))" unfolding take_add part_def ..
  finally show ?thesis using assms(1) by (simp add: part_def)
qed

lemma part_appendD:
  assumes "part i j w = x @ y" "i \<le> j" "j \<le> length w"
  shows "\<exists>p. i \<le> p \<and> p \<le> j \<and> part i p w = x \<and> part p j w = y"
proof -
  from assms have len: "j - i = length x + length y" using length_part [of j w i] by simp
  let ?p = "i + length x"
  have "i \<le> ?p" "?p \<le> j" using len assms(2) by linarith+
  with part_append [OF this, of w] assms(1,3) show ?thesis
    by (intro exI [of _ ?p]) (simp add: append_eq_append_conv)
qed

lemma relpow_lang:
  assumes "\<And>i j. (i, j) \<in> R \<longleftrightarrow> i \<le> j \<and> j \<le> length w \<and> part i j w \<in> A" "i \<le> length w"
  shows "(i, j) \<in> R ^^ k \<longleftrightarrow>
    i \<le> j \<and> j \<le> length w \<and> (\<exists>us. length us = k \<and> set us \<subseteq> A \<and> part i j w = concat us)"
proof (induction k arbitrary: j)
  case 0
  then show ?case using assms(2) by (auto simp: part_def)
next
  case (Suc k)
  show ?case
  proof
    assume "(i, j) \<in> R ^^ Suc k"
    then obtain p where p: "(i, p) \<in> R ^^ k" "(p, j) \<in> R" by auto
    with Suc.IH obtain us where us: "length us = k" "set us \<subseteq> A" "part i p w = concat us" "i \<le> p"
      by blast
    from p(2) have u: "p \<le> j" "j \<le> length w" "part p j w \<in> A" by (simp_all add: assms(1))
    have "part i j w = concat (us @ [part p j w])" using us u by (simp add: part_append [of i p j])
    with us u show "i \<le> j \<and> j \<le> length w \<and> (\<exists>us. length us = Suc k \<and> set us \<subseteq> A \<and> part i j w = concat us)"
      by (intro conjI exI [of _ "us @ [part p j w]"]) auto
  next
    assume r: "i \<le> j \<and> j \<le> length w \<and> (\<exists>us. length us = Suc k \<and> set us \<subseteq> A \<and> part i j w = concat us)"
    then obtain us u where us: "length us = k" "set us \<subseteq> A" "u \<in> A" "part i j w = concat us @ u"
      by (auto simp: length_Suc_conv_rev)
    with part_appendD r obtain p where "i \<le> p" "p \<le> j" "part i p w = concat us" "part p j w = u" by metis
    with us r Suc.IH [of p] assms(1) [of p j] have "(i, p) \<in> R ^^ k" "(p, j) \<in> R" by auto
    then show "(i, j) \<in> R ^^ Suc k" by auto
  qed
qed

lemma matching_lang:
  "plain r \<Longrightarrow> (i, j) \<in> matching r w \<longleftrightarrow> i \<le> j \<and> j \<le> length w \<and> part i j w \<in> lang r"
proof (induction r arbitrary: i j)
  case Eps
  then show ?case by (auto simp: part_def)
next
  case (Cls ci neg rs)
  have "i \<le> j \<and> j \<le> length w \<and> part i j w \<in> lang (Cls ci neg rs) \<longleftrightarrow>
      i < length w \<and> j = Suc i \<and> cls_match ci neg rs (w ! i)"
  proof
    assume a: "i \<le> j \<and> j \<le> length w \<and> part i j w \<in> lang (Cls ci neg rs)"
    then obtain c where "part i j w = [c]" by auto
    with a length_part [of j w i] have "j = Suc i" by simp
    with a show "i < length w \<and> j = Suc i \<and> cls_match ci neg rs (w ! i)" by (auto simp: part_Cons)
  qed (auto simp: part_Cons)
  then show ?case by auto
next
  case (Cat a b)
  then have IH: "(i, j) \<in> matching a w \<longleftrightarrow> i \<le> j \<and> j \<le> length w \<and> part i j w \<in> lang a"
    "(i, j) \<in> matching b w \<longleftrightarrow> i \<le> j \<and> j \<le> length w \<and> part i j w \<in> lang b" for i j
    by simp_all
  show ?case
  proof
    assume "(i, j) \<in> matching (Cat a b) w"
    then obtain p where "(i, p) \<in> matching a w" "(p, j) \<in> matching b w" by auto
    then show "i \<le> j \<and> j \<le> length w \<and> part i j w \<in> lang (Cat a b)"
      by (auto simp: IH part_append [of i p j])
  next
    assume r: "i \<le> j \<and> j \<le> length w \<and> part i j w \<in> lang (Cat a b)"
    then obtain u v where uv: "u \<in> lang a" "v \<in> lang b" "part i j w = u @ v" by auto
    with part_appendD r obtain p where "i \<le> p" "p \<le> j" "part i p w = u" "part p j w = v" by metis
    with uv r have "(i, p) \<in> matching a w" "(p, j) \<in> matching b w" by (simp_all add: IH)
    then show "(i, j) \<in> matching (Cat a b) w" by auto
  qed
next
  case (Rep m n a)
  then have IH: "(i, j) \<in> matching a w \<longleftrightarrow> i \<le> j \<and> j \<le> length w \<and> part i j w \<in> lang a" for i j
    by simp
  show ?case
    using relpow_lang [OF IH, of i] by (cases "i \<le> length w") auto
qed auto

text \<open>An expression without assertions matches a text that has a word of its language in it.\<close>

lemma rx_matches_lang: "plain r \<Longrightarrow> rx_matches r w \<longleftrightarrow> (\<exists>p u q. w = p @ u @ q \<and> u \<in> lang r)"
proof
  assume r: "plain r" "rx_matches r w"
  then obtain i j where "(i, j) \<in> matching r w" unfolding rx_matches_iff by auto
  then have m: "i \<le> j" "j \<le> length w" "part i j w \<in> lang r" by (simp_all add: matching_lang [OF r(1)])
  have "w = take i w @ part i j w @ drop j w"
    using m(1,2) by (metis append_take_drop_id drop_drop le_add_diff_inverse2 part_def)
  with m(3) show "\<exists>p u q. w = p @ u @ q \<and> u \<in> lang r" by blast
next
  assume r: "plain r" "\<exists>p u q. w = p @ u @ q \<and> u \<in> lang r"
  then obtain p u q where w: "w = p @ u @ q" "u \<in> lang r" by blast
  then have "(length p, length p + length u) \<in> matching r w"
    by (simp add: matching_lang [OF r(1)] part_def)
  then show "rx_matches r w" unfolding rx_matches_iff by blast
qed

end
