(* ===== verification/Net_IP.thy ===== *)
theory Net_IP
  imports Go_Base
begin

text \<open>
  Addresses of Go's package \<^verbatim>\<open>net\<close> as the Go sources use them: \<^verbatim>\<open>net.IP\<close> (4 or 16 bytes),
  \<^verbatim>\<open>IP.String\<close>, which the eBPF loader writes into \<^verbatim>\<open>dst_ip\<close>, \<^verbatim>\<open>net.ParseIP\<close>, with which the
  detection engine reads that field back, and the address classes it tests. The main fact
  is \<open>parse_ip_string\<close>: reading back gives the same address.
\<close>

type_synonym ip = "u8 list"

section \<open>Printing\<close>

definition to4 :: "ip \<Rightarrow> ip option" where
  "to4 a = (if length a = 4 then Some a
     else if length a = 16 \<and> take 12 a = replicate 10 0 @ [255, 255] then Some (drop 12 a)
     else None)"

definition dotted :: "ip \<Rightarrow> string" where
  "dotted a = go_join (map (\<lambda>b. format_uint (unat b)) a) ''.''"

fun groups_of :: "ip \<Rightarrow> nat list" where
  "groups_of (hi # lo # a) = (256 * unat hi + unat lo) # groups_of a"
| "groups_of _ = []"

definition zero_run :: "nat list \<Rightarrow> nat \<Rightarrow> nat" where
  "zero_run gs i = length (takeWhile (\<lambda>g. g = 0) (drop i gs))"

text \<open>The first longest run of at least two zero groups: its start and length.\<close>

definition longest_run :: "nat list \<Rightarrow> nat \<times> nat" where
  "longest_run gs = foldl (\<lambda>(a, l) i. let n = zero_run gs i in if 2 \<le> n \<and> l < n then (i, n) else (a, l))
     (255, 0) [0..<8]"

definition hex_group :: "nat \<Rightarrow> string" where
  "hex_group g = format_base 16 g"

definition colons :: "nat list \<Rightarrow> string" where
  "colons gs = go_join (map hex_group gs) '':''"

definition print6 :: "nat list \<Rightarrow> string" where
  "print6 gs = (case longest_run gs of (a, l) \<Rightarrow>
     if l = 0 then colons gs else colons (take a gs) @ ''::'' @ colons (drop (a + l) gs))"

definition hex_string :: "ip \<Rightarrow> string" where
  "hex_string a = concat (map (\<lambda>b. [digit (unat b div 16), digit (unat b mod 16)]) a)"

definition ip_string :: "ip \<Rightarrow> string" where
  "ip_string a =
     (if a = [] then ''<nil>''
      else if length a \<noteq> 4 \<and> length a \<noteq> 16 then ''?'' @ hex_string a
      else case to4 a of Some p4 \<Rightarrow> dotted p4 | None \<Rightarrow> print6 (groups_of a))"

section \<open>Parsing\<close>

definition dot :: char where "dot = CHR ''.''"
definition colon :: char where "colon = CHR '':''"
definition percent :: char where "percent = CHR ''%''"

definition decimal :: "char \<Rightarrow> nat option" where
  "decimal c = (case digit_value c of Some d \<Rightarrow> if d < 10 then Some d else None | None \<Rightarrow> None)"

text \<open>The octets: value and digit count of the current one, and the ones before it.\<close>

fun parse4 :: "nat \<Rightarrow> nat \<Rightarrow> u8 list \<Rightarrow> string \<Rightarrow> ip option" where
  "parse4 val n fields [] = (if length fields < 3 then None else Some (fields @ [of_nat val]))"
| "parse4 val n fields (c # s) =
     (case decimal c of
        Some d \<Rightarrow>
          if n = 1 \<and> val = 0 then None
          else if val * 10 + d > 255 then None
          else parse4 (val * 10 + d) (n + 1) fields s
      | None \<Rightarrow>
          if c = dot then
            if n = 0 \<or> s = [] then None
            else if length fields = 3 then None
            else parse4 0 0 (fields @ [of_nat val]) s
          else None)"

definition hex_span :: "string \<Rightarrow> string \<times> string" where
  "hex_span s = (takeWhile (\<lambda>c. digit_value c \<noteq> None) s, dropWhile (\<lambda>c. digit_value c \<noteq> None) s)"

definition group_bytes :: "nat \<Rightarrow> u8 list" where
  "group_bytes g = [of_nat (g div 256), of_nat (g mod 256)]"

text \<open>
  The groups of an IPv6 address: room for \<open>r\<close> more, the bytes so far and the position of
  the ellipsis if there was one.
\<close>

fun parse6_groups :: "nat \<Rightarrow> u8 list \<Rightarrow> nat option \<Rightarrow> string \<Rightarrow> (u8 list \<times> nat option \<times> string) option" where
  "parse6_groups 0 bs ell s = Some (bs, ell, s)"
| "parse6_groups (Suc r) bs ell s =
     (case hex_span s of (ds, rest) \<Rightarrow>
      if ds = [] \<or> length ds > 4 then None
      else if rest \<noteq> [] \<and> hd rest = dot then
        (if ell = None \<and> length bs \<noteq> 12 then None
         else if length bs + 4 > 16 then None
         else map_option (\<lambda>f. (bs @ f, ell, [])) (parse4 0 0 [] s))
      else
        case parse_base 16 0 ds of
          None \<Rightarrow> None
        | Some g \<Rightarrow>
            (let bs = bs @ group_bytes g in
             case rest of
               [] \<Rightarrow> Some (bs, ell, [])
             | [c] \<Rightarrow> None
             | c # d # rest \<Rightarrow>
                 if c \<noteq> colon then None
                 else if d \<noteq> colon then parse6_groups r bs ell (d # rest)
                 else if ell \<noteq> None then None
                 else if rest = [] then Some (bs, Some (length bs), [])
                 else parse6_groups r bs (Some (length bs)) rest))"

definition expand6 :: "(u8 list \<times> nat option \<times> string) option \<Rightarrow> ip option" where
  "expand6 p = (case p of
      None \<Rightarrow> None
    | Some (bs, ell, s) \<Rightarrow>
        if s \<noteq> [] then None
        else if length bs < 16 then
          map_option (\<lambda>k. take k bs @ replicate (16 - length bs) 0 @ drop k bs) ell
        else if ell \<noteq> None then None else Some bs)"

definition parse6 :: "string \<Rightarrow> ip option" where
  "parse6 s =
     (if s = ''::'' then Some (replicate 16 0)
      else if take 2 s = ''::'' then expand6 (parse6_groups 8 [] (Some 0) (drop 2 s))
      else expand6 (parse6_groups 8 [] None s))"

text \<open>
  \<^verbatim>\<open>net.ParseIP\<close>: the first special character decides the form; an address with a zone is
  refused, an IPv4 address is returned in its 16-byte form.
\<close>

definition parse_ip :: "string \<Rightarrow> ip option" where
  "parse_ip s = (case find (\<lambda>c. c \<in> {dot, colon, percent}) s of
      None \<Rightarrow> None
    | Some c \<Rightarrow>
        if c = dot then map_option (\<lambda>a. replicate 10 0 @ [255, 255] @ a) (parse4 0 0 [] s)
        else if c = percent \<or> percent \<in> set s then None
        else parse6 s)"

section \<open>Classes\<close>

definition is_loopback :: "ip \<Rightarrow> bool" where
  "is_loopback a = (case to4 a of Some p \<Rightarrow> p ! 0 = 127 | None \<Rightarrow> a = replicate 15 0 @ [1])"

definition is_link_local_unicast :: "ip \<Rightarrow> bool" where
  "is_link_local_unicast a = (case to4 a of Some p \<Rightarrow> p ! 0 = 169 \<and> p ! 1 = 254
     | None \<Rightarrow> length a = 16 \<and> a ! 0 = 254 \<and> and (a ! 1) 192 = 128)"

definition is_link_local_multicast :: "ip \<Rightarrow> bool" where
  "is_link_local_multicast a = (case to4 a of Some p \<Rightarrow> p ! 0 = 224 \<and> p ! 1 = 0 \<and> p ! 2 = 0
     | None \<Rightarrow> length a = 16 \<and> a ! 0 = 255 \<and> and (a ! 1) 15 = 2)"

section \<open>Reading back what was printed\<close>

lemma digit_chars: "d < 16 \<Longrightarrow> digit d \<noteq> dot \<and> digit d \<noteq> colon \<and> digit d \<noteq> percent"
  using digit_value_digit [of d] by (auto simp: digit_value_def dot_def colon_def percent_def)

lemma hex_digits:
  assumes "c \<in> set (hex_group g)"
  shows "digit_value c \<noteq> None \<and> c \<noteq> dot \<and> c \<noteq> colon \<and> c \<noteq> percent"
  using format_base_digits [of 16 c g] assms digit_chars digit_value_digit
  by (auto simp: hex_group_def)

lemma decimal_digit: "d < 10 \<Longrightarrow> decimal (digit d) = Some d"
  by (simp add: decimal_def digit_value_digit)

lemma parse4_number:
  "n < 256 \<Longrightarrow> parse4 0 0 fields (format_uint n @ s) = parse4 n (length (format_uint n)) fields s"
  unfolding format_uint_def
proof (induction n arbitrary: s rule: less_induct)
  case (less n)
  show ?case
  proof (cases "n < 10")
    case True
    then show ?thesis
      by (simp add: format_base.simps [of 10 n] decimal_digit)
  next
    case False
    have f: "format_base 10 n = format_base 10 (n div 10) @ [digit (n mod 10)]"
      using False by (simp add: format_base.simps [of 10 n])
    have "parse4 0 0 fields (format_base 10 n @ s) =
        parse4 (n div 10) (length (format_base 10 (n div 10))) fields (digit (n mod 10) # s)"
      using less.IH [of "n div 10"] less.prems False by (simp add: f)
    moreover have "n div 10 * 10 + n mod 10 = n" "n div 10 \<noteq> 0"
      using False by (simp_all add: div_eq_0_iff)
    ultimately show ?thesis
      using less.prems by (simp add: f decimal_digit)
  qed
qed

lemma format_uint_nonempty: "format_uint n \<noteq> []"
  by (simp add: format_uint_def format_base_nonempty)

lemma parse4_octet:
  "length fields < 3 \<Longrightarrow> s \<noteq> [] \<Longrightarrow>
   parse4 0 0 fields (format_uint (unat b) @ dot # s) = parse4 0 0 (fields @ [b]) s"
  using decimal_def [of dot] unat_u8 [of b] format_uint_nonempty [of "unat b"]
  by (simp add: parse4_number digit_value_def dot_def)

lemma parse_dotted:
  assumes "length a = 4"
  shows "parse4 0 0 [] (dotted a) = Some a"
proof -
  obtain b0 b1 b2 b3 where a: "a = [b0, b1, b2, b3]"
    using assms by (auto simp: length_Suc_conv numeral_eq_Suc)
  have d: "dotted a = format_uint (unat b0) @ dot # (format_uint (unat b1) @ dot #
      (format_uint (unat b2) @ dot # format_uint (unat b3)))"
    by (simp add: dotted_def a dot_def)
  have "parse4 0 0 [b0, b1, b2] (format_uint (unat b3)) = Some a"
    using parse4_number [of "unat b3" "[b0, b1, b2]" "[]"] unat_u8 [of b3] by (simp add: a)
  then show ?thesis
    unfolding d by (simp add: parse4_octet format_uint_nonempty)
qed

text \<open>One group of an IPv6 address and what follows it.\<close>

lemma hex_span_group:
  assumes "rest = [] \<or> hd rest = colon"
  shows "hex_span (hex_group g @ rest) = (hex_group g, rest)"
proof -
  have "digit_value colon = None" by (simp add: digit_value_def colon_def)
  then show ?thesis
    using assms hex_digits [of _ g]
    by (cases rest) (auto simp: hex_span_def takeWhile_append dropWhile_append)
qed

lemma hex_group_length: "g < 65536 \<Longrightarrow> length (hex_group g) \<le> 4"
proof -
  have "length (format_base 16 n) \<le> k" if "0 < k" "n < 16 ^ k" for n k
    using that
  proof (induction k arbitrary: n)
    case (Suc k)
    show ?case
    proof (cases "n < 16")
      case False
      with Suc.prems have "n div 16 < 16 ^ k" "0 < k"
        by (auto simp: div_less_iff_less_mult mult.commute intro: gr0I)
      with Suc.IH [of "n div 16"] False show ?thesis
        by (simp add: format_base.simps [of 16 n])
    qed (simp add: format_base.simps [of 16 n])
  qed simp
  from this [of 4 g] show "g < 65536 \<Longrightarrow> length (hex_group g) \<le> 4"
    by (simp add: hex_group_def)
qed

lemma parse_hex_group: "parse_base 16 0 (hex_group g) = Some g"
  by (simp add: hex_group_def parse_format_base)

lemma hex_group_nonempty: "hex_group g \<noteq> []"
  by (simp add: hex_group_def format_base_nonempty)

lemma colon_not_dot: "colon \<noteq> dot"
  by (simp add: colon_def dot_def)

lemma parse6_last:
  "g < 65536 \<Longrightarrow> parse6_groups (Suc r) bs ell (hex_group g) = Some (bs @ group_bytes g, ell, [])"
  using hex_span_group [of "[]" g]
  by (simp add: leD [OF hex_group_length] hex_group_nonempty parse_hex_group)

lemma parse6_next:
  "g < 65536 \<Longrightarrow> d \<noteq> colon \<Longrightarrow>
   parse6_groups (Suc r) bs ell (hex_group g @ colon # d # rest) =
     parse6_groups r (bs @ group_bytes g) ell (d # rest)"
  using hex_span_group [of "colon # d # rest" g] colon_not_dot
  by (simp add: leD [OF hex_group_length] hex_group_nonempty parse_hex_group Let_def)

lemma parse6_ellipsis:
  "g < 65536 \<Longrightarrow>
   parse6_groups (Suc r) bs None (hex_group g @ colon # colon # rest) =
     (if rest = [] then Some (bs @ group_bytes g, Some (length bs + 2), [])
      else parse6_groups r (bs @ group_bytes g) (Some (length bs + 2)) rest)"
  using hex_span_group [of "colon # colon # rest" g] colon_not_dot
  by (simp add: leD [OF hex_group_length] hex_group_nonempty parse_hex_group Let_def group_bytes_def)

declare parse6_groups.simps(2) [simp del] parse4.simps [simp del]

definition bytes_of :: "nat list \<Rightarrow> ip" where
  "bytes_of gs = concat (map group_bytes gs)"

lemma bytes_of_simps [simp]:
  "bytes_of [] = []" "bytes_of (g # gs) = group_bytes g @ bytes_of gs"
  "bytes_of (gs @ hs) = bytes_of gs @ bytes_of hs" "length (bytes_of gs) = 2 * length gs"
  by (induction gs) (simp_all add: bytes_of_def group_bytes_def)

lemma colons_Cons: "gs \<noteq> [] \<Longrightarrow> colons (g # gs) = hex_group g @ colon # colons gs"
  by (cases gs) (simp_all add: colons_def colon_def)

lemma colons_single [simp]: "colons [g] = hex_group g"
  by (simp add: colons_def)

lemma colons_head: "gs \<noteq> [] \<Longrightarrow> \<exists>d rest. colons gs = d # rest \<and> d \<noteq> colon"
proof (cases gs)
  case (Cons g hs)
  obtain d ds where d: "hex_group g = d # ds"
    using hex_group_nonempty [of g] by (cases "hex_group g") auto
  then have "d \<noteq> colon" using hex_digits [of d g] by simp
  then show ?thesis
    using d by (cases hs) (simp_all add: Cons colons_Cons)
qed simp

lemma parse6_colons:
  "gs \<noteq> [] \<Longrightarrow> list_all (\<lambda>g. g < 65536) gs \<Longrightarrow> length gs \<le> r \<Longrightarrow>
   parse6_groups r bs ell (colons gs) = Some (bs @ bytes_of gs, ell, [])"
proof (induction gs arbitrary: r bs)
  case (Cons g gs)
  obtain r' where r: "r = Suc r'" using Cons.prems(3) by (cases r) auto
  show ?case
  proof (cases gs)
    case Nil
    then show ?thesis using Cons.prems by (simp add: r parse6_last)
  next
    case (Cons h hs)
    then obtain d rest where d: "colons gs = d # rest" "d \<noteq> colon"
      using colons_head [of gs] by auto
    then show ?thesis
      using Cons Cons.prems Cons.IH [of r' "bs @ group_bytes g"] by (simp add: r colons_Cons parse6_next)
  qed
qed simp

lemma parse6_colons_ellipsis:
  "gs \<noteq> [] \<Longrightarrow> list_all (\<lambda>g. g < 65536) gs \<Longrightarrow> length gs \<le> r \<Longrightarrow>
   parse6_groups r bs None (colons gs @ colon # colon # rest) =
     (if rest = [] then Some (bs @ bytes_of gs, Some (length bs + 2 * length gs), [])
      else parse6_groups (r - length gs) (bs @ bytes_of gs) (Some (length bs + 2 * length gs)) rest)"
proof (induction gs arbitrary: r bs)
  case (Cons g gs)
  obtain r' where r: "r = Suc r'" using Cons.prems(3) by (cases r) auto
  show ?case
  proof (cases gs)
    case Nil
    then show ?thesis using Cons.prems by (simp add: r parse6_ellipsis)
  next
    case (Cons h hs)
    then obtain d tl where d: "colons gs = d # tl" "d \<noteq> colon"
      using colons_head [of gs] by auto
    then show ?thesis
      using Cons Cons.prems Cons.IH [of r' "bs @ group_bytes g"]
      by (simp add: r colons_Cons parse6_next group_bytes_def)
  qed
qed simp

text \<open>The run that is left out consists of zeroes.\<close>

lemma longest_run_spec:
  assumes "longest_run gs = (a, l)" and "l \<noteq> 0"
  shows "2 \<le> l \<and> gs = take a gs @ replicate l 0 @ drop (a + l) gs \<and> a + l \<le> length gs"
proof -
  have step: "snd p = 0 \<or> snd p \<ge> 2 \<and> snd p = zero_run gs (fst p)"
    if "p = foldl (\<lambda>(a, l) i. let n = zero_run gs i in if 2 \<le> n \<and> l < n then (i, n) else (a, l)) (255, 0) xs"
    for p xs
    using that by (induction xs arbitrary: p rule: rev_induct) (auto simp: Let_def split: prod.splits if_splits)
  have l: "2 \<le> l" "l = zero_run gs a"
    using step [of "(a, l)" "[0..<8]"] assms by (auto simp: longest_run_def)
  have "takeWhile (\<lambda>g. g = 0) (drop a gs) = replicate l 0"
    using l(2) by (simp add: zero_run_def) (metis (mono_tags, lifting) replicate_length_same set_takeWhileD)
  then have d: "drop a gs = replicate l 0 @ dropWhile (\<lambda>g. g = 0) (drop a gs)"
    by (metis takeWhile_dropWhile_id)
  then have "drop l (drop a gs) = dropWhile (\<lambda>g. g = 0) (drop a gs)"
    by (metis append_eq_conv_conj length_replicate)
  then have "gs = take a gs @ replicate l 0 @ drop (a + l) gs"
    using d by (metis add.commute append_take_drop_id drop_drop)
  moreover have "a + l \<le> length gs"
    using arg_cong [OF d, of length] l(1) by simp
  ultimately show ?thesis using l by blast
qed

lemma bytes_of_zeroes: "bytes_of (replicate l 0) = replicate (2 * l) 0"
  by (induction l) (simp_all add: group_bytes_def)

lemma parse6_print6:
  assumes "length gs = 8" and "list_all (\<lambda>g. g < 65536) gs"
  shows "parse6 (print6 gs) = Some (bytes_of gs)"
proof -
  obtain a l where run: "longest_run gs = (a, l)" by (cases "longest_run gs")
  have plain: "parse6 (colons hs @ rest) = expand6 (parse6_groups 8 [] None (colons hs @ rest))"
    if "hs \<noteq> []" for hs rest
    using colons_head [OF that] by (auto simp: parse6_def colon_def)
  show ?thesis
  proof (cases "l = 0")
    case True
    then have "print6 gs = colons gs @ []" using run by (simp add: print6_def)
    moreover have "gs \<noteq> []" using assms(1) by auto
    ultimately show ?thesis
      using plain [of gs "[]"] assms by (simp add: parse6_colons expand6_def)
  next
    case False
    let ?pre = "take a gs" and ?post = "drop (a + l) gs"
    note spec = longest_run_spec [OF run False]
    have l: "2 \<le> l" using spec by blast
    have pre: "list_all (\<lambda>g. g < 65536) ?pre" and post: "list_all (\<lambda>g. g < 65536) ?post"
      using assms(2) by (auto simp: list_all_iff dest: in_set_takeD in_set_dropD)
    have len: "length ?pre = a" "length ?post = 8 - (a + l)" "a + l \<le> 8"
      using spec assms(1) by auto
    have s: "print6 gs = colons ?pre @ colon # colon # colons ?post"
      using run False by (simp add: print6_def colon_def)
    have "bytes_of gs = bytes_of ?pre @ replicate (2 * l) 0 @ bytes_of ?post"
      using spec by (metis bytes_of_simps(3) bytes_of_zeroes)
    moreover have "parse6 (print6 gs) = Some (bytes_of ?pre @ replicate (2 * l) 0 @ bytes_of ?post)"
    proof (cases "?pre = []")
      case True
      then have a: "a = 0" using assms(1) by auto
      show ?thesis
      proof (cases "?post = []")
        case True
        then show ?thesis using len assms(1) a
          by (simp add: s parse6_def colons_def colon_def)
      next
        case False
        then show ?thesis
          using parse6_colons [OF False post, of 8 "[]" "Some 0"] colons_head [OF False] len a l
          by (auto simp: s parse6_def colons_def colon_def expand6_def)
      qed
    next
      case False
      note parsed = parse6_colons_ellipsis [OF False pre, of 8 "[]" "colons ?post"]
      show ?thesis
      proof (cases "?post = []")
        case True
        then have "a + l = 8" using len by simp
        with l have "16 - 2 * a = 2 * l" "a < 8" by linarith+
        then show ?thesis
          using parsed len plain [OF False] True by (simp add: s colons_def expand6_def)
      next
        case post': False
        then have "colons ?post \<noteq> []" using colons_head [OF post'] by auto
        moreover have "2 * a + 2 * (8 - (a + l)) < 16" "16 - (2 * a + 2 * (8 - (a + l))) = 2 * l"
          using len(3) l by linarith+
        ultimately show ?thesis
          using parsed len plain [OF False] l
            parse6_colons [OF post' post, of "8 - a" "bytes_of ?pre" "Some (2 * a)"]
          by (simp add: s expand6_def)
      qed
    qed
    ultimately show ?thesis by simp
  qed
qed

lemma groups_of_spec:
  "even (length a) \<Longrightarrow>
   bytes_of (groups_of a) = a \<and> length (groups_of a) = length a div 2 \<and>
   list_all (\<lambda>g. g < 65536) (groups_of a)"
proof (induction a rule: groups_of.induct)
  case (1 hi lo a)
  have "group_bytes (256 * unat hi + unat lo) = [hi, lo]" and "256 * unat hi + unat lo < 65536"
    using unat_u8 [of hi] unat_u8 [of lo] by (simp_all add: group_bytes_def)
  with 1 show ?case by simp
qed simp_all

lemma set_go_join: "set (go_join ss sep) \<subseteq> (\<Union>s \<in> set ss. set s) \<union> set sep"
  by (induction ss sep rule: go_join.induct) auto

lemma find_special:
  "c \<in> set s \<Longrightarrow> P c \<Longrightarrow> (\<And>d. d \<in> set s \<Longrightarrow> P d \<Longrightarrow> d = c) \<Longrightarrow> find P s = Some c"
proof (induction s)
  case (Cons x s)
  show ?case
  proof (cases "P x")
    case True
    then show ?thesis using Cons.prems(3) [of x] by simp
  next
    case False
    then have "c \<in> set s" using Cons.prems(1,2) by auto
    then have "find P s = Some c"
      by (rule Cons.IH) (rule Cons.prems(2), rule Cons.prems(3) [OF list.set_intros(2)])
    then show ?thesis using False by simp
  qed
qed simp

lemma dotted_chars:
  assumes "d \<in> set (dotted a)"
  shows "d = dot \<or> d \<notin> {dot, colon, percent}"
proof -
  have "d \<in> (\<Union>b \<in> set a. set (format_uint (unat b))) \<union> {dot}"
    using assms set_go_join [of "map (\<lambda>b. format_uint (unat b)) a" "''.''"]
    by (auto simp: dotted_def dot_def)
  then consider "d = dot" | b :: u8 where "d \<in> set (format_base 10 (unat b))"
    by (auto simp: format_uint_def)
  then show ?thesis
  proof cases
    case 2
    then obtain v where "v < 10" "d = digit v"
      using format_base_digits [of 10 d "unat b"] by auto
    then show ?thesis using digit_chars [of v] by simp
  qed simp
qed

lemma colons_chars: "d \<in> set (colons gs) \<Longrightarrow> d = colon \<or> d \<notin> {dot, colon, percent}"
  using set_go_join [of "map hex_group gs" "'':''"] hex_digits [of d]
  by (auto simp: colons_def colon_def)

lemma print6_chars: "d \<in> set (print6 gs) \<Longrightarrow> d = colon \<or> d \<notin> {dot, colon, percent}"
  using colons_chars [of d] by (auto simp: print6_def colon_def split: prod.splits if_splits)

lemma print6_colon:
  assumes "length gs = 8"
  shows "colon \<in> set (print6 gs)"
proof -
  have "gs = hd gs # tl gs" "tl gs \<noteq> []"
    using assms by (cases gs; cases "tl gs"; simp)+
  then have "colon \<in> set (colons gs)"
    by (metis colons_Cons in_set_conv_decomp)
  then show ?thesis by (cases "longest_run gs") (simp add: print6_def colon_def)
qed

text \<open>\<^verbatim>\<open>net.ParseIP\<close> returns the 16-byte form of the address that \<^verbatim>\<open>IP.String\<close> printed.\<close>

definition to16 :: "ip \<Rightarrow> ip" where
  "to16 a = (if length a = 4 then replicate 10 0 @ [255, 255] @ a else a)"

lemma parse_ip_dotted:
  assumes "length a = 4"
  shows "parse_ip (dotted a) = Some (replicate 10 0 @ [255, 255] @ a)"
proof -
  have "dot \<in> set (dotted a)"
    using assms by (auto simp: dotted_def dot_def length_Suc_conv numeral_eq_Suc)
  then have "find (\<lambda>c. c \<in> {dot, colon, percent}) (dotted a) = Some dot"
    using dotted_chars by (intro find_special) auto
  then show ?thesis
    by (simp add: parse_ip_def parse_dotted [OF assms])
qed

lemma parse_ip_print6:
  assumes "length a = 16"
  shows "parse_ip (print6 (groups_of a)) = Some a"
proof -
  have g: "length (groups_of a) = 8" "list_all (\<lambda>g. g < 65536) (groups_of a)" "bytes_of (groups_of a) = a"
    using groups_of_spec [of a] assms by simp_all
  have "find (\<lambda>c. c \<in> {dot, colon, percent}) (print6 (groups_of a)) = Some colon"
    using print6_chars print6_colon [OF g(1)] by (intro find_special) auto
  moreover have "percent \<notin> set (print6 (groups_of a))"
    using print6_chars [of percent] by (auto simp: percent_def colon_def)
  ultimately show ?thesis
    using g parse6_print6 [OF g(1,2)]
    by (simp add: parse_ip_def) (simp add: colon_def dot_def percent_def)
qed

lemma parse_ip_string:
  assumes "length a = 4 \<or> length a = 16"
  shows "parse_ip (ip_string a) = Some (to16 a)"
proof (cases "to4 a")
  case None
  with assms have "length a = 16" by (auto simp: to4_def split: if_splits)
  then show ?thesis
    using None by (auto simp: ip_string_def to16_def parse_ip_print6)
next
  case (Some p)
  with assms have p: "length p = 4" "to16 a = replicate 10 0 @ [255, 255] @ p"
    by (auto simp: to4_def to16_def split: if_splits) (metis append_take_drop_id append.assoc append_Cons append_Nil)
  then show ?thesis
    using Some assms parse_ip_dotted [OF p(1)] by (auto simp: ip_string_def)
qed

end
