(* ===== verification/Events.thy ===== *)
theory Events
  imports Go_Base
begin

text \<open>
  \<^verbatim>\<open>internal/events/events.go\<close>: severities, the event record that every monitor produces
  and every dispatcher consumes, its fields and its flat rendering. Times are nanoseconds.
\<close>

section \<open>Severities\<close>

datatype severity = Info | Low | Medium | High | Critical

fun severity_rank :: "severity \<Rightarrow> nat" where
  "severity_rank Info = 0"
| "severity_rank Low = 1"
| "severity_rank Medium = 2"
| "severity_rank High = 3"
| "severity_rank Critical = 4"

lemma severity_rank_inject: "severity_rank s = severity_rank t \<longleftrightarrow> s = t"
  by (cases s; cases t) simp_all

instantiation severity :: linorder
begin

definition less_eq_severity :: "severity \<Rightarrow> severity \<Rightarrow> bool" where
  "less_eq_severity s t \<longleftrightarrow> severity_rank s \<le> severity_rank t"

definition less_severity :: "severity \<Rightarrow> severity \<Rightarrow> bool" where
  "less_severity s t \<longleftrightarrow> severity_rank s < severity_rank t"

instance
  by standard (auto simp: less_eq_severity_def less_severity_def severity_rank_inject)

end

lemmas severity_order = less_eq_severity_def less_severity_def

lemma Info_least: "Info \<le> s"
  by (simp add: severity_order)

lemma Critical_greatest: "s \<le> Critical"
  by (cases s) (simp_all add: severity_order)

fun severity_string :: "severity \<Rightarrow> string" where
  "severity_string Info = ''INFO''"
| "severity_string Low = ''LOW''"
| "severity_string Medium = ''MEDIUM''"
| "severity_string High = ''HIGH''"
| "severity_string Critical = ''CRITICAL''"

text \<open>
  \<^verbatim>\<open>ParseSeverity\<close>: the severity, and whether there was no error (\<open>Info\<close> comes with every
  error).
\<close>

definition parse_severity :: "string \<Rightarrow> severity \<times> bool" where
  "parse_severity s =
     (let t = go_to_lower (go_trim_space s) in
      if t = ''info'' then (Info, True)
      else if t = ''low'' then (Low, True)
      else if t = ''medium'' \<or> t = ''med'' then (Medium, True)
      else if t = ''high'' then (High, True)
      else if t = ''critical'' \<or> t = ''crit'' then (Critical, True)
      else (Info, False))"

text \<open>\<^verbatim>\<open>Color\<close>: ANSI escapes, \<^verbatim>\<open>0x1b\<close> first.\<close>

definition escape :: "string \<Rightarrow> string" where
  "escape s = char_of (27 :: nat) # s"

fun severity_color :: "severity \<Rightarrow> string" where
  "severity_color Critical = escape ''[1;97;41m''"
| "severity_color High = escape ''[1;31m''"
| "severity_color Medium = escape ''[33m''"
| "severity_color Low = escape ''[34m''"
| "severity_color Info = escape ''[2m''"

section \<open>Events\<close>

text \<open>A Go map that has not been made is \<open>None\<close>.\<close>

record event =
  e_time :: int
  e_severity :: severity
  e_category :: string
  e_title :: string
  e_message :: string
  e_fields :: "(string \<rightharpoonup> string) option"
  e_technique :: string
  e_host :: string
  e_key :: string

definition empty_event :: event where
  "empty_event = \<lparr>e_time = 0, e_severity = Info, e_category = [], e_title = [], e_message = [],
     e_fields = None, e_technique = [], e_host = [], e_key = []\<rparr>"

definition with_field :: "string \<Rightarrow> string \<Rightarrow> event \<Rightarrow> event" where
  "with_field k v e =
     (let m = (case e_fields e of None \<Rightarrow> Map.empty | Some m \<Rightarrow> m) in
      e\<lparr>e_fields := Some (m(k \<mapsto> v))\<rparr>)"

definition field_of :: "event \<Rightarrow> string \<Rightarrow> string" where
  "field_of e k = (case e_fields e of
      None \<Rightarrow> []
    | Some m \<Rightarrow> (case m k of None \<Rightarrow> [] | Some v \<Rightarrow> v))"

definition with_fields :: "(string \<times> string) list \<Rightarrow> event \<Rightarrow> event" where
  "with_fields kvs e = fold (\<lambda>(k, v). with_field k v) kvs e"

definition CatProcess :: string where "CatProcess = ''process''"
definition CatAuth :: string where "CatAuth = ''auth''"
definition CatFile :: string where "CatFile = ''file''"
definition CatNetwork :: string where "CatNetwork = ''network''"

text \<open>
  \<^verbatim>\<open>Flat\<close>: scalars first, then the fields, which overwrite scalars of the same name. The
  time's rendering is a parameter.
\<close>

definition flat :: "(int \<Rightarrow> string) \<Rightarrow> event \<Rightarrow> (string \<rightharpoonup> string)" where
  "flat rfc3339 e =
     (let m = [''time'' \<mapsto> rfc3339 (e_time e), ''severity'' \<mapsto> severity_string (e_severity e),
           ''category'' \<mapsto> e_category e, ''title'' \<mapsto> e_title e, ''message'' \<mapsto> e_message e];
          m = (if e_technique e \<noteq> [] then m(''technique'' \<mapsto> e_technique e) else m);
          m = (if e_host e \<noteq> [] then m(''host'' \<mapsto> e_host e) else m) in
      case e_fields e of None \<Rightarrow> m | Some f \<Rightarrow> m ++ f)"

lemma field_with_field [simp]:
  "field_of (with_field k v e) k' = (if k' = k then v else field_of e k')"
  by (auto simp: with_field_def field_of_def Let_def split: option.splits)

lemma with_field_simps [simp]:
  "e_severity (with_field k v e) = e_severity e" "e_category (with_field k v e) = e_category e"
  "e_title (with_field k v e) = e_title e" "e_message (with_field k v e) = e_message e"
  "e_technique (with_field k v e) = e_technique e" "e_key (with_field k v e) = e_key e"
  "e_time (with_field k v e) = e_time e" "e_host (with_field k v e) = e_host e"
  by (simp_all add: with_field_def Let_def)

lemma with_fields_simps [simp]:
  "with_fields [] e = e" "with_fields ((k, v) # kvs) e = with_fields kvs (with_field k v e)"
  by (simp_all add: with_fields_def)

lemma severity_lower:
  "go_to_lower ''INFO'' = ''info''" "go_to_lower ''LOW'' = ''low''" "go_to_lower ''MEDIUM'' = ''medium''"
  "go_to_lower ''HIGH'' = ''high''" "go_to_lower ''CRITICAL'' = ''critical''"
  by code_simp+

lemma severity_trim:
  "go_trim_space ''INFO'' = ''INFO''" "go_trim_space ''LOW'' = ''LOW''" "go_trim_space ''MEDIUM'' = ''MEDIUM''"
  "go_trim_space ''HIGH'' = ''HIGH''" "go_trim_space ''CRITICAL'' = ''CRITICAL''"
  by code_simp+

section \<open>Properties\<close>

text \<open>
  Parsing the printed name of a severity, in any letter case and with any
  surrounding white space, gives the severity back without an error; and the parser
  accepts nothing but the seven documented names.
\<close>

theorem severity_roundtrip:
  "parse_severity (severity_string s) = (s, True) \<and>
   (snd (parse_severity t) \<longleftrightarrow> go_to_lower (go_trim_space t) \<in>
      {''info'', ''low'', ''medium'', ''med'', ''high'', ''critical'', ''crit''}) \<and>
   (go_to_lower (go_trim_space t) = go_to_lower (severity_string s) \<longrightarrow> parse_severity t = (s, True)) \<and>
   (\<not> snd (parse_severity t) \<longrightarrow> fst (parse_severity t) = Info)"
proof -
  have lower: "go_to_lower (severity_string s) = (case s of Info \<Rightarrow> ''info'' | Low \<Rightarrow> ''low''
      | Medium \<Rightarrow> ''medium'' | High \<Rightarrow> ''high'' | Critical \<Rightarrow> ''critical'')"
    by (cases s) (simp_all add: severity_lower)
  have trim: "go_trim_space (severity_string s) = severity_string s"
    by (cases s) (simp_all add: severity_trim)
  show ?thesis
    unfolding parse_severity_def Let_def trim lower by (cases s) auto
qed

end
