(* ===== verification/Dedupe.thy ===== *)
theory Dedupe
  imports Events "HOL-Library.AList"
begin

text \<open>
  \<^verbatim>\<open>internal/events/dedupe.go\<close>: suppression of repeated alerts within a cooldown, and the
  sliding-window counter behind the brute-force detection. Times and durations are in
  nanoseconds. Both types hold a mutex for the whole of their one operation, so a
  concurrent history is a sequence of operations.
\<close>

section \<open>Dedupe\<close>

text \<open>The map \<^verbatim>\<open>last\<close> as an association list with one entry per key.\<close>

record dedupe =
  dd_cooldown :: int
  dd_last :: "(string \<times> int) list"

definition new_dedupe :: "int \<Rightarrow> dedupe" where
  "new_dedupe cooldown = \<lparr>dd_cooldown = cooldown, dd_last = []\<rparr>"

definition suppressed :: "event \<Rightarrow> int \<Rightarrow> dedupe \<Rightarrow> bool \<times> dedupe" where
  "suppressed e now d =
     (if e_key e = [] then (False, d)
      else if (case map_of (dd_last d) (e_key e) of Some t \<Rightarrow> now - t < dd_cooldown d | None \<Rightarrow> False)
      then (True, d)
      else
        let last = AList.update (e_key e) now (dd_last d);
            last = (if length last > 4096 then [(e_key e, now)] else last)
        in (False, d\<lparr>dd_last := last\<rparr>))"

text \<open>A run over events with their times: which of them were suppressed.\<close>

fun dedupe_run :: "dedupe \<Rightarrow> (event \<times> int) list \<Rightarrow> bool list \<times> dedupe" where
  "dedupe_run d [] = ([], d)"
| "dedupe_run d ((e, now) # es) =
     (case suppressed e now d of (s, d) \<Rightarrow>
      case dedupe_run d es of (ss, d) \<Rightarrow> (s # ss, d))"

definition dedupe_inv :: "dedupe \<Rightarrow> bool" where
  "dedupe_inv d \<longleftrightarrow> distinct (map fst (dd_last d)) \<and> length (dd_last d) \<le> 4096"

lemma suppressed_cooldown [simp]: "dd_cooldown (snd (suppressed e now d)) = dd_cooldown d"
  by (simp add: suppressed_def Let_def)

lemma suppressed_inv: "dedupe_inv d \<Longrightarrow> dedupe_inv (snd (suppressed e now d))"
  by (simp add: suppressed_def dedupe_inv_def Let_def distinct_update)

lemma dedupe_run_inv: "dedupe_inv d \<Longrightarrow> dedupe_inv (snd (dedupe_run d es))"
proof (induction es arbitrary: d)
  case (Cons x es)
  obtain e now where x: "x = (e, now)" by (cases x)
  show ?case
    using Cons.IH [of "snd (suppressed e now d)"] suppressed_inv [OF Cons.prems, of e now]
    by (auto simp: x split: prod.splits)
qed simp

lemma keys_suppressed:
  "set (map fst (dd_last (snd (suppressed e now d)))) \<subseteq> insert (e_key e) (set (map fst (dd_last d)))"
  by (auto simp: suppressed_def Let_def dom_map_of_conv_image_fst [symmetric] update_conv')

text \<open>An event that passes is recorded, unless it has no key.\<close>

lemma passed_recorded:
  assumes "\<not> fst (suppressed e now d)" and "e_key e \<noteq> []"
  shows "map_of (dd_last (snd (suppressed e now d))) (e_key e) = Some now"
  using assms by (auto simp: suppressed_def Let_def update_conv' split: if_splits)

lemma others_kept:
  assumes "k \<noteq> e_key e" and "dedupe_inv d"
    and "card (insert (e_key e) (set (map fst (dd_last d)))) \<le> 4096"
  shows "map_of (dd_last (snd (suppressed e now d))) k = map_of (dd_last d) k"
proof -
  have "length (AList.update (e_key e) now (dd_last d)) \<le> 4096"
  proof -
    have "distinct (map fst (AList.update (e_key e) now (dd_last d)))"
      using assms(2) by (simp add: dedupe_inv_def distinct_update)
    then have "length (AList.update (e_key e) now (dd_last d)) =
        card (fst ` set (AList.update (e_key e) now (dd_last d)))"
      by (metis distinct_card length_map list.set_map)
    also have "fst ` set (AList.update (e_key e) now (dd_last d)) = insert (e_key e) (fst ` set (dd_last d))"
      by (simp add: dom_map_of_conv_image_fst [symmetric] update_conv')
    finally show ?thesis using assms(3) by simp
  qed
  with assms(1) show ?thesis
    by (simp add: suppressed_def Let_def update_conv')
qed

lemma dedupe_run_Cons [simp]:
  "fst (dedupe_run d ((e, now) # es)) =
     fst (suppressed e now d) # fst (dedupe_run (snd (suppressed e now d)) es)"
  by (simp split: prod.splits)

declare dedupe_run.simps(2) [simp del]

lemma length_dedupe_run [simp]: "length (fst (dedupe_run d es)) = length es"
proof (induction es arbitrary: d)
  case (Cons x es)
  obtain e now where "x = (e, now)" by (cases x)
  with Cons show ?case by simp
qed simp

lemma card_insert_le_trans:
  assumes "finite K" and "card K \<le> 4096" and "insert k A \<subseteq> K"
  shows "card (insert k A) \<le> 4096"
  using card_mono [OF assms(1,3)] assms(2) by linarith

lemma recorded_gap:
  assumes "map_of (dd_last d) k = Some t" and "dedupe_inv d" and "0 \<le> dd_cooldown d"
    and "finite K" and "card K \<le> 4096"
    and "e_key ` fst ` set es \<union> fst ` set (dd_last d) \<subseteq> K"
    and "k \<noteq> []" and "j < length es" and "e_key (fst (es ! j)) = k" and "\<not> fst (dedupe_run d es) ! j"
  shows "dd_cooldown d \<le> snd (es ! j) - t"
  using assms
proof (induction es arbitrary: d t j)
  case (Cons x es)
  obtain e now where x: "x = (e, now)" by (cases x)
  let ?d = "snd (suppressed e now d)"
  have keys: "e_key ` fst ` set es \<union> fst ` set (dd_last ?d) \<subseteq> K"
  proof -
    have "fst ` set (dd_last ?d) \<subseteq> insert (e_key e) (fst ` set (dd_last d))"
      using keys_suppressed [of e now d] by simp
    moreover have "insert (e_key e) (fst ` set (dd_last d)) \<subseteq> K" "e_key ` fst ` set es \<subseteq> K"
      using Cons.prems(6) by (simp_all add: x)
    ultimately show ?thesis by blast
  qed
  have few: "card (insert (e_key e) (set (map fst (dd_last d)))) \<le> 4096"
    using Cons.prems(6) by (intro card_insert_le_trans [OF Cons.prems(4,5)]) (auto simp: x)
  have first: "dd_cooldown d \<le> now - t" if "e_key e = k" "\<not> fst (suppressed e now d)"
    using that Cons.prems(1,7) by (auto simp: suppressed_def Let_def split: if_splits)
  show ?case
  proof (cases j)
    case 0
    then show ?thesis using first Cons.prems(9,10) by (simp add: x)
  next
    case (Suc j')
    have rest: "j' < length es" "e_key (fst (es ! j')) = k" "\<not> fst (dedupe_run ?d es) ! j'"
      using Cons.prems(8-10) by (simp_all add: Suc x)
    have "dd_cooldown d \<le> snd (es ! j') - t"
    proof (cases "e_key e = k \<and> \<not> fst (suppressed e now d)")
      case True
      then have "map_of (dd_last ?d) k = Some now"
        using passed_recorded Cons.prems(7) by blast
      then have "dd_cooldown d \<le> snd (es ! j') - now"
        using Cons.IH [OF _ suppressed_inv [OF Cons.prems(2)] _ Cons.prems(4,5) keys Cons.prems(7) rest] Cons.prems(3)
        by simp
      then show ?thesis using first True Cons.prems(3) by linarith
    next
      case False
      then have "map_of (dd_last ?d) k = Some t"
      proof (cases "e_key e = k")
        case True
        with False have "fst (suppressed e now d)" by simp
        then have "?d = d" by (auto simp: suppressed_def Let_def split: if_splits)
        then show ?thesis using Cons.prems(1) by simp
      next
        case ne: False
        then show ?thesis using others_kept [OF _ Cons.prems(2) few, of k now] Cons.prems(1) by simp
      qed
      then show ?thesis
        using Cons.IH [OF _ suppressed_inv [OF Cons.prems(2)] _ Cons.prems(4,5) keys Cons.prems(7) rest] Cons.prems(3)
        by simp
    qed
    then show ?thesis by (simp add: Suc)
  qed
qed simp

lemma passed_gap:
  assumes "dedupe_inv d" and "0 \<le> dd_cooldown d" and "finite K" and "card K \<le> 4096"
    and "e_key ` fst ` set es \<union> fst ` set (dd_last d) \<subseteq> K"
    and "i < j" and "j < length es" and "e_key (fst (es ! i)) = k" and "e_key (fst (es ! j)) = k" and "k \<noteq> []"
    and "\<not> fst (dedupe_run d es) ! i" and "\<not> fst (dedupe_run d es) ! j"
  shows "dd_cooldown d \<le> snd (es ! j) - snd (es ! i)"
  using assms
proof (induction es arbitrary: d i j)
  case (Cons x es)
  obtain e now where x: "x = (e, now)" by (cases x)
  let ?d = "snd (suppressed e now d)"
  have keys: "e_key ` fst ` set es \<union> fst ` set (dd_last ?d) \<subseteq> K"
  proof -
    have "fst ` set (dd_last ?d) \<subseteq> insert (e_key e) (fst ` set (dd_last d))"
      using keys_suppressed [of e now d] by simp
    moreover have "insert (e_key e) (fst ` set (dd_last d)) \<subseteq> K" "e_key ` fst ` set es \<subseteq> K"
      using Cons.prems(5) by (simp_all add: x)
    ultimately show ?thesis by blast
  qed
  obtain j' where j: "j = Suc j'" using Cons.prems(6) by (cases j) auto
  note inv = suppressed_inv [OF Cons.prems(1), of e now]
  show ?case
  proof (cases i)
    case 0
    then have "map_of (dd_last ?d) k = Some now"
      using passed_recorded [of e now d] Cons.prems(8,10,11) by (simp add: x)
    then show ?thesis
      using recorded_gap [OF _ inv _ Cons.prems(3,4) keys Cons.prems(10), of now j'] Cons.prems
      by (simp add: 0 j x)
  next
    case (Suc i')
    then show ?thesis
      using Cons.IH [OF inv _ Cons.prems(3,4) keys, of i' j'] Cons.prems by (simp add: j x)
  qed
qed simp

lemma suppressed_reason:
  assumes "j < length es" and "fst (dedupe_run d es) ! j"
  shows "e_key (fst (es ! j)) \<noteq> [] \<and>
    ((\<exists>i < j. e_key (fst (es ! i)) = e_key (fst (es ! j)) \<and> \<not> fst (dedupe_run d es) ! i \<and>
        snd (es ! j) - snd (es ! i) < dd_cooldown d) \<or>
     (\<exists>t. map_of (dd_last d) (e_key (fst (es ! j))) = Some t \<and> snd (es ! j) - t < dd_cooldown d))"
  using assms
proof (induction es arbitrary: d j)
  case (Cons x es)
  obtain e now where x: "x = (e, now)" by (cases x)
  let ?d = "snd (suppressed e now d)"
  show ?case
  proof (cases j)
    case 0
    then show ?thesis
      using Cons.prems(2) by (auto simp: x suppressed_def Let_def split: if_splits option.splits)
  next
    case (Suc j')
    let ?k = "e_key (fst (es ! j'))"
    have IH: "?k \<noteq> [] \<and>
      ((\<exists>i < j'. e_key (fst (es ! i)) = ?k \<and> \<not> fst (dedupe_run ?d es) ! i \<and>
          snd (es ! j') - snd (es ! i) < dd_cooldown d) \<or>
       (\<exists>t. map_of (dd_last ?d) ?k = Some t \<and> snd (es ! j') - t < dd_cooldown d))"
      using Cons.IH [of j' ?d] Cons.prems by (simp add: Suc x)
    then show ?thesis
    proof (elim conjE disjE exE, goal_cases)
      case (1 i)
      then show ?case by (auto simp: Suc x intro!: exI [of _ "Suc i"])
    next
      case (2 t)
      show ?case
      proof (cases "map_of (dd_last d) ?k = Some t")
        case False
        with 2 have "e_key e = ?k" "t = now" "\<not> fst (suppressed e now d)"
          by (auto simp: suppressed_def Let_def update_conv' split: if_splits)
        with 2 show ?thesis by (auto simp: Suc x intro!: exI [of _ 0])
      qed (use 2 in \<open>auto simp: Suc x\<close>)
    qed
  qed
qed simp

section \<open>Threshold\<close>

record threshold_level =
  tl_count :: int
  tl_severity :: severity
  tl_title :: string

record threshold =
  th_window :: int
  th_levels :: "threshold_level list"
  th_series :: "string \<Rightarrow> int list"

definition new_threshold :: "int \<Rightarrow> threshold_level list \<Rightarrow> threshold" where
  "new_threshold w levels = \<lparr>th_window = w, th_levels = levels, th_series = (\<lambda>_. [])\<rparr>"

text \<open>A key that is not in the map has the empty series, as in Go.\<close>

definition hit :: "string \<Rightarrow> int \<Rightarrow> threshold \<Rightarrow> threshold_level option \<times> threshold" where
  "hit key now t =
     (let cutoff = now - th_window t;
          kept = filter (\<lambda>ts. ts > cutoff) (th_series t key);
          times = kept @ [now] in
      (find (\<lambda>l. int (length times) = tl_count l) (th_levels t),
       t\<lparr>th_series := (th_series t)(key := times)\<rparr>))"

fun hit_run :: "threshold \<Rightarrow> (string \<times> int) list \<Rightarrow> threshold_level option list \<times> threshold" where
  "hit_run t [] = ([], t)"
| "hit_run t ((key, now) # hs) =
     (case hit key now t of (l, t) \<Rightarrow>
      case hit_run t hs of (ls, t) \<Rightarrow> (l # ls, t))"

text \<open>
  The specification: the hits of a key in the half-open window that ends at \<open>now\<close>,
  counted in the whole history.
\<close>

definition window_count :: "int \<Rightarrow> (string \<times> int) list \<Rightarrow> string \<Rightarrow> int \<Rightarrow> nat" where
  "window_count w hs key now = length (filter (\<lambda>(k, t). k = key \<and> t > now - w) hs)"

definition times_of :: "(string \<times> int) list \<Rightarrow> string \<Rightarrow> int list" where
  "times_of hs key = map snd (filter (\<lambda>(k, t). k = key) hs)"

lemma window_count_times: "window_count w hs key now = length (filter (\<lambda>t. t > now - w) (times_of hs key))"
  by (induction hs) (auto simp: window_count_def times_of_def)

text \<open>
  What a series keeps of its history: everything not older than the window before the
  last hit of the key.
\<close>

definition keeps :: "threshold \<Rightarrow> (string \<times> int) list \<Rightarrow> bool" where
  "keeps t hs \<longleftrightarrow> (\<forall>key now. (\<forall>ts \<in> set (times_of hs key). ts \<le> now) \<longrightarrow>
     filter (\<lambda>ts. ts > now - th_window t) (th_series t key) =
     filter (\<lambda>ts. ts > now - th_window t) (times_of hs key))"

lemma keeps_new: "keeps (new_threshold w ls) []"
  by (simp add: keeps_def new_threshold_def times_of_def)

lemma times_of_snoc [simp]:
  "times_of (hs @ [(k, now)]) key = (if k = key then times_of hs key @ [now] else times_of hs key)"
  by (simp add: times_of_def)

lemma hit_window [simp]: "th_window (snd (hit key now t)) = th_window t"
  "th_levels (snd (hit key now t)) = th_levels t"
  by (simp_all add: hit_def Let_def)

lemma filter_later:
  assumes "(now :: int) \<le> now'"
  shows "filter (\<lambda>ts. ts > now' - w) (filter (\<lambda>ts. ts > now - w) xs) = filter (\<lambda>ts. ts > now' - w) xs"
  using assms by (induction xs) auto

lemma keeps_hit:
  assumes "keeps t hs" and "\<And>ts. ts \<in> set (times_of hs key) \<Longrightarrow> ts \<le> now"
  shows "keeps (snd (hit key now t)) (hs @ [(key, now)])"
  unfolding keeps_def
proof (intro allI impI)
  fix k now'
  assume le: "\<forall>ts \<in> set (times_of (hs @ [(key, now)]) k). ts \<le> now'"
  let ?w = "th_window t"
  show "filter (\<lambda>ts. ts > now' - th_window (snd (hit key now t))) (th_series (snd (hit key now t)) k) =
      filter (\<lambda>ts. ts > now' - th_window (snd (hit key now t))) (times_of (hs @ [(key, now)]) k)"
  proof (cases "k = key")
    case True
    then have "now \<le> now'" using le by simp
    have "filter (\<lambda>ts. ts > now - ?w) (th_series t key) = filter (\<lambda>ts. ts > now - ?w) (times_of hs key)"
      using assms by (simp add: keeps_def)
    then have "filter (\<lambda>ts. ts > now' - ?w) (filter (\<lambda>ts. ts > now - ?w) (th_series t key)) =
        filter (\<lambda>ts. ts > now' - ?w) (times_of hs key)"
      using filter_later [OF \<open>now \<le> now'\<close>, of ?w "times_of hs key"] by simp
    then show ?thesis by (simp add: hit_def Let_def True del: filter_filter)
  next
    case False
    then show ?thesis using assms(1) le by (simp add: hit_def Let_def keeps_def)
  qed
qed

lemma hit_count:
  assumes "keeps t hs" and "\<And>ts. ts \<in> set (times_of hs key) \<Longrightarrow> ts \<le> now" and "0 < th_window t"
  shows "fst (hit key now t) =
    find (\<lambda>l. int (window_count (th_window t) (hs @ [(key, now)]) key now) = tl_count l) (th_levels t)"
  using assms by (simp add: hit_def Let_def keeps_def window_count_times)

lemma hit_run_Cons [simp]:
  "fst (hit_run t ((key, now) # hs)) = fst (hit key now t) # fst (hit_run (snd (hit key now t)) hs)"
  by (simp split: prod.splits)

declare hit_run.simps(2) [simp del]

lemma hit_run_spec:
  assumes "keeps t hs" and "0 < th_window t"
    and "sorted (map snd (hs @ es))" and "j < length es"
  shows "fst (hit_run t es) ! j =
    find (\<lambda>l. int (window_count (th_window t) (hs @ take (Suc j) es) (fst (es ! j)) (snd (es ! j))) = tl_count l)
      (th_levels t)"
  using assms
proof (induction es arbitrary: t hs j)
  case (Cons x es)
  obtain key now where x: "x = (key, now)" by (cases x)
  have le: "ts \<le> now" if "ts \<in> set (times_of hs key)" for ts
    using that Cons.prems(3) by (auto simp: times_of_def x sorted_append)
  show ?case
  proof (cases j)
    case 0
    have "fst (hit key now t) = find (\<lambda>l. int (window_count (th_window t) (hs @ [(key, now)]) key now) = tl_count l)
        (th_levels t)"
      by (rule hit_count [OF Cons.prems(1) le Cons.prems(2)])
    then show ?thesis by (simp add: 0 x)
  next
    case (Suc j')
    have "sorted (map snd ((hs @ [(key, now)]) @ es))"
      using Cons.prems(3) by (simp add: x)
    moreover have "keeps (snd (hit key now t)) (hs @ [(key, now)])"
      by (rule keeps_hit [OF Cons.prems(1) le])
    ultimately show ?thesis
      using Cons.IH [of "snd (hit key now t)" "hs @ [(key, now)]" j'] Cons.prems(2,4)
      by (simp add: Suc x)
  qed
qed simp

section \<open>Properties\<close>

text \<open>
  Two alerts with the same key that both pass are at least the cooldown apart,
  as long as at most 4096 keys are in use: then the table is never pruned.
\<close>

theorem dedupe_spacing:
  assumes "0 \<le> c" and "card (e_key ` fst ` set es) \<le> 4096" and "i < j" and "j < length es"
    and "e_key (fst (es ! i)) = e_key (fst (es ! j))" and "e_key (fst (es ! j)) \<noteq> []"
    and "\<not> fst (dedupe_run (new_dedupe c) es) ! i" and "\<not> fst (dedupe_run (new_dedupe c) es) ! j"
  shows "c \<le> snd (es ! j) - snd (es ! i)"
  using passed_gap [of "new_dedupe c" "e_key ` fst ` set es" es i j] assms
  by (simp add: new_dedupe_def dedupe_inv_def)

definition keyed :: "string \<Rightarrow> event" where
  "keyed k = empty_event\<lparr>e_key := k\<rparr>"

theorem dedupe_spacing_witness:
  "fst (dedupe_run (new_dedupe 10) [(keyed ''a'', 0), (keyed ''a'', 9), (keyed ''a'', 10)]) = [False, True, False] \<and>
   (10 :: int) \<le> 10 - 0"
proof -
  have r: "fst (dedupe_run (new_dedupe 10) [(keyed ''a'', 0), (keyed ''a'', 9), (keyed ''a'', 10)]) = [False, True, False]"
    by (simp add: suppressed_def new_dedupe_def keyed_def dedupe_run.simps Let_def)
  then show ?thesis
    using dedupe_spacing [of 10 "[(keyed ''a'', 0), (keyed ''a'', 9), (keyed ''a'', 10)]" 0 2]
    by (simp add: keyed_def)
qed

text \<open>
  An alert is suppressed only because an alert with the same key passed
  less than the cooldown before; an event without a key, and the first event of a key,
  always pass.
\<close>

theorem dedupe_no_loss:
  "\<forall>j < length es. fst (dedupe_run (new_dedupe c) es) ! j \<longrightarrow>
     e_key (fst (es ! j)) \<noteq> [] \<and>
     (\<exists>i < j. e_key (fst (es ! i)) = e_key (fst (es ! j)) \<and>
        \<not> fst (dedupe_run (new_dedupe c) es) ! i \<and> snd (es ! j) - snd (es ! i) < c)"
  using suppressed_reason [of _ es "new_dedupe c"] by (auto simp: new_dedupe_def)

theorem dedupe_no_loss_witness:
  "\<exists>i < 1. e_key (fst ([(keyed ''a'', 0), (keyed ''a'', 9)] ! i)) = ''a'' \<and>
     (9 :: int) - snd ([(keyed ''a'', 0), (keyed ''a'', 9)] ! i) < 10"
proof -
  have "fst (dedupe_run (new_dedupe 10) [(keyed ''a'', 0), (keyed ''a'', 9)]) ! 1"
    by (simp add: suppressed_def new_dedupe_def keyed_def dedupe_run.simps Let_def)
  then show ?thesis
    using dedupe_no_loss [of "[(keyed ''a'', 0), (keyed ''a'', 9)]" 10, rule_format, of 1]
    by (auto simp: keyed_def)
qed

text \<open>
  However many events there are, the table of a de-duplicator has one entry
  per key and at most 4096 entries.
\<close>

theorem dedupe_bounded:
  "distinct (map fst (dd_last (snd (dedupe_run (new_dedupe c) es)))) \<and>
   length (dd_last (snd (dedupe_run (new_dedupe c) es))) \<le> 4096"
  using dedupe_run_inv [of "new_dedupe c" es] by (simp add: dedupe_inv_def new_dedupe_def)

text \<open>
  A hit reports the first level whose count is the number of hits of its
  key in the window that ends now, counted in the whole history: dropping old time stamps
  loses nothing.
\<close>

theorem threshold_counts_window:
  assumes "0 < w" and "sorted (map snd es)" and "j < length es"
  shows "fst (hit_run (new_threshold w levels) es) ! j =
    find (\<lambda>l. int (window_count w (take (Suc j) es) (fst (es ! j)) (snd (es ! j))) = tl_count l) levels"
  using hit_run_spec [OF keeps_new, of w levels es j] assms by (simp add: new_threshold_def)

definition level3 :: threshold_level where
  "level3 = \<lparr>tl_count = 3, tl_severity = Medium, tl_title = ''burst''\<rparr>"

theorem threshold_counts_window_witness:
  "fst (hit_run (new_threshold 10 [level3]) [(''a'', 0), (''b'', 1), (''a'', 2), (''a'', 3)]) ! 3 = Some level3"
  using threshold_counts_window [of 10 "[(''a'', 0), (''b'', 1), (''a'', 2), (''a'', 3)]" 3 "[level3]"]
  by (simp add: window_count_def level3_def)

text \<open>
  A level does not fire once per window but each time the sliding count
  meets it: with a window of ten and a level of three, hits at 0, 1, 2 and 10 fire it twice
  within eight time units, although the window never drained.
\<close>

theorem threshold_refires:
  "fst (hit_run (new_threshold 10 [level3]) [(''a'', 0), (''a'', 1), (''a'', 2), (''a'', 10)]) =
     [None, None, Some level3, Some level3]"
  by (simp add: hit_def new_threshold_def level3_def Let_def)

end
