(* ===== verification/Config.thy ===== *)
theory Config
  imports Events
begin

text \<open>
  \<^verbatim>\<open>internal/config/config.go\<close>: the configuration, its defaults and its validation. A
  pointer to a \<^verbatim>\<open>bool\<close> is an option, a map that may be nil an option of a map, a duration a
  number of nanoseconds. Reading the YAML file that fills the record is not modelled.
\<close>

section \<open>The configuration\<close>

record fim_config =
  fc_paths :: "string list option"
  fc_extra_paths :: "string list"
  fc_exclude_paths :: "string list"

record discord_config =
  dc_url :: string
  dc_username :: string
  dc_min_severity :: string
  dc_batch_window :: int
  dc_min_sev :: severity

record ntfy_config =
  nc_url :: string
  nc_topic :: string
  nc_token :: string
  nc_min_severity :: string
  nc_min_sev :: severity

record webhook_config =
  wc_url :: string
  wc_secret :: string
  wc_min_severity :: string
  wc_min_sev :: severity

record alerts_config =
  ac_discord :: discord_config
  ac_ntfy :: ntfy_config
  ac_webhook :: webhook_config

record rule_config =
  rc_id :: string
  rc_category :: string
  rc_target :: string
  rc_pattern :: string
  rc_severity :: string
  rc_title :: string
  rc_technique :: string

record config =
  cf_poll_interval :: int
  cf_sweep_time :: int
  cf_state_dir :: string
  cf_internal_cidr :: "string list"
  cf_dedupe_cool :: int
  cf_heartbeat :: int
  cf_log_process_events :: "bool option"
  cf_monitors :: "(string \<rightharpoonup> bool option) option"
  cf_fim :: fim_config
  cf_alerts :: alerts_config
  cf_rules :: "rule_config list"
  cf_disabled :: "string list"
  cf_suspicious_ports :: "int list"
  cf_known_bad_files :: "string list"
  cf_brute_force_window :: int
  cf_brute_fire_count :: int
  cf_brute_force_high_cnt :: int

text \<open>The zero value, from which both \<open>Load\<close> and \<open>Default\<close> start.\<close>

definition zero_config :: config where
  "zero_config =
     \<lparr>cf_poll_interval = 0, cf_sweep_time = 0, cf_state_dir = [], cf_internal_cidr = [], cf_dedupe_cool = 0,
      cf_heartbeat = 0, cf_log_process_events = None, cf_monitors = None,
      cf_fim = \<lparr>fc_paths = None, fc_extra_paths = [], fc_exclude_paths = []\<rparr>,
      cf_alerts = \<lparr>
        ac_discord = \<lparr>dc_url = [], dc_username = [], dc_min_severity = [], dc_batch_window = 0, dc_min_sev = Info\<rparr>,
        ac_ntfy = \<lparr>nc_url = [], nc_topic = [], nc_token = [], nc_min_severity = [], nc_min_sev = Info\<rparr>,
        ac_webhook = \<lparr>wc_url = [], wc_secret = [], wc_min_severity = [], wc_min_sev = Info\<rparr>\<rparr>,
      cf_rules = [], cf_disabled = [], cf_suspicious_ports = [], cf_known_bad_files = [],
      cf_brute_force_window = 0, cf_brute_fire_count = 0, cf_brute_force_high_cnt = 0\<rparr>"

definition MonitorEnabled :: "config \<Rightarrow> string \<Rightarrow> bool" where
  "MonitorEnabled c name =
     (case cf_monitors c of
        None \<Rightarrow> True
      | Some m \<Rightarrow> (case m name of None \<Rightarrow> True | Some None \<Rightarrow> True | Some (Some v) \<Rightarrow> v))"

definition LogAllProcessEvents :: "config \<Rightarrow> bool" where
  "LogAllProcessEvents c =
     (case cf_log_process_events c of None \<Rightarrow> True | Some b \<Rightarrow> b)"

section \<open>Defaults\<close>

abbreviation millisecond :: int where "millisecond \<equiv> 1000000"
abbreviation second :: int where "second \<equiv> 1000000000"
abbreviation minute :: int where "minute \<equiv> 60000000000"

text \<open>A Windows path of the source is written with \<open>backslash\<close> for its separators.\<close>

definition backslash :: string where
  "backslash = [char_of (92 :: nat)]"

definition DefaultFIMPaths :: "bool \<Rightarrow> string list" where
  "DefaultFIMPaths windows =
     (if windows then
        [go_join [''C:'', ''Windows'', ''System32'', ''drivers'', ''etc'', []] backslash,
         go_join [''C:'', ''ProgramData'', ''Microsoft'', ''Windows'', ''Start Menu'', ''Programs'', ''Startup'', []] backslash,
         go_join [''C:'', ''Windows'', ''Tasks'', []] backslash,
         go_join [''C:'', ''Windows'', ''System32'', ''GroupPolicy'', ''Machine'', ''Scripts'', []] backslash]
      else
        [''/etc/passwd'', ''/etc/shadow'', ''/etc/group'', ''/etc/sudoers'', ''/etc/sudoers.d/'',
         ''/etc/ssh/sshd_config'', ''/etc/ssh/sshd_config.d/'', ''/root/.ssh/'', ''/root/.bashrc'',
         ''/root/.profile'', ''/home/*/.ssh/'', ''/home/*'', ''/etc/profile.d/'', ''/etc/crontab'',
         ''/etc/cron.d/'', ''/var/spool/cron/'', ''/etc/systemd/system/'', ''/usr/lib/systemd/system/'',
         ''/etc/rc.local'', ''/etc/hosts'', ''/etc/resolv.conf'', ''/etc/ld.so.preload'', ''/usr/bin'',
         ''/usr/sbin'', ''/usr/local/bin/'', ''/opt/'', ''/tmp'', ''/dev/shm'', ''/var/tmp''])"

definition sevOr :: "string \<Rightarrow> severity \<Rightarrow> severity option" where
  "sevOr s def =
     (if s = [] then Some def
      else case parse_severity s of (sev, ok) \<Rightarrow> if ok then Some sev else None)"

definition default_cidrs :: "string list" where
  "default_cidrs =
     [''10.0.0.0/8'', ''172.16.0.0/12'', ''192.168.0.0/16'', ''127.0.0.0/8'', ''169.254.0.0/16'',
      ''::1/128'', ''fe80::/10'', ''fd00::/8'']"

definition default_ports :: "int list" where
  "default_ports = [4444, 5555, 1337, 31337, 9001, 9002, 8000, 8081]"

definition default_bad_files :: "string list" where
  "default_bad_files =
     [''chisel'', ''frpc'', ''frps'', ''iodine'', ''dnscat2'', ''hydra'', ''medusa'', ''mimikatz'', ''rubeus'',
      ''seatbelt'', ''winpeas'', ''linpeas'', ''pspy'', ''socat'', ''ncat'', ''nc64'', ''plink'', ''hak5'',
      ''empire'', ''cobalt'', ''sliver'', ''meterpreter'']"

text \<open>The groups of assignments of \<open>ApplyDefaults\<close>, in the order the code has them.\<close>

definition default_core :: "bool \<Rightarrow> config \<Rightarrow> config" where
  "default_core windows c =
     c\<lparr>cf_poll_interval := (if cf_poll_interval c \<le> 0 then 250 * millisecond else cf_poll_interval c),
       cf_sweep_time := (if cf_sweep_time c \<le> 0 then 5 * minute else cf_sweep_time c),
       cf_state_dir := (if cf_state_dir c \<noteq> [] then cf_state_dir c
         else if windows then go_join [''C:'', ''ProgramData'', ''elmer''] backslash
         else ''/var/lib/elmer''),
       cf_internal_cidr := (if cf_internal_cidr c = [] then default_cidrs else cf_internal_cidr c),
       cf_dedupe_cool := (if cf_dedupe_cool c \<le> 0 then 60 * second else cf_dedupe_cool c),
       cf_heartbeat := (if cf_heartbeat c = 0 then 5 * minute else cf_heartbeat c),
       cf_log_process_events := (case cf_log_process_events c of None \<Rightarrow> Some True | Some b \<Rightarrow> Some b)\<rparr>"

definition default_alerts :: "alerts_config \<Rightarrow> alerts_config" where
  "default_alerts a =
     (let d = ac_discord a; n = ac_ntfy a in
      a\<lparr>ac_discord := d\<lparr>dc_username := (if dc_username d = [] then ''elmer'' else dc_username d),
           dc_batch_window := (if dc_batch_window d = 0 then 5 * second else dc_batch_window d)\<rparr>,
        ac_ntfy := n\<lparr>nc_url := (if nc_url n = [] then ''https://ntfy.sh'' else nc_url n)\<rparr>\<rparr>)"

definition default_detection :: "config \<Rightarrow> config" where
  "default_detection c =
     c\<lparr>cf_suspicious_ports := (if cf_suspicious_ports c = [] then default_ports else cf_suspicious_ports c),
       cf_known_bad_files := (if cf_known_bad_files c = [] then default_bad_files else cf_known_bad_files c),
       cf_brute_force_window := (if cf_brute_force_window c \<le> 0 then 2 * minute else cf_brute_force_window c),
       cf_brute_fire_count := (if cf_brute_fire_count c \<le> 0 then 5 else cf_brute_fire_count c),
       cf_brute_force_high_cnt := (if cf_brute_force_high_cnt c \<le> 0 then 20 else cf_brute_force_high_cnt c)\<rparr>"

definition default_fim :: "bool \<Rightarrow> fim_config \<Rightarrow> fim_config" where
  "default_fim windows f =
     f\<lparr>fc_paths := Some ((case fc_paths f of None \<Rightarrow> DefaultFIMPaths windows | Some p \<Rightarrow> p) @ fc_extra_paths f)\<rparr>"

text \<open>The minimum severities of the channels; an unknown name is the only error.\<close>

definition channel_severities :: "alerts_config \<Rightarrow> alerts_config option" where
  "channel_severities a =
     (case sevOr (dc_min_severity (ac_discord a)) High of
        None \<Rightarrow> None
      | Some d \<Rightarrow>
          (case sevOr (nc_min_severity (ac_ntfy a)) High of
             None \<Rightarrow> None
           | Some n \<Rightarrow>
               (case sevOr (wc_min_severity (ac_webhook a)) Medium of
                  None \<Rightarrow> None
                | Some w \<Rightarrow>
                    Some \<lparr>ac_discord = (ac_discord a)\<lparr>dc_min_sev := d\<rparr>,
                      ac_ntfy = (ac_ntfy a)\<lparr>nc_min_sev := n\<rparr>,
                      ac_webhook = (ac_webhook a)\<lparr>wc_min_sev := w\<rparr>\<rparr>)))"

definition ApplyDefaults :: "bool \<Rightarrow> config \<Rightarrow> config option" where
  "ApplyDefaults windows c =
     (let c = default_core windows c;
          c = c\<lparr>cf_alerts := default_alerts (cf_alerts c)\<rparr>;
          c = default_detection c;
          c = c\<lparr>cf_fim := default_fim windows (cf_fim c)\<rparr> in
      map_option (\<lambda>a. c\<lparr>cf_alerts := a\<rparr>) (channel_severities (cf_alerts c)))"

definition Default :: "bool \<Rightarrow> config option" where
  "Default windows = ApplyDefaults windows zero_config"

section \<open>Properties\<close>

lemma channel_severities_Some:
  assumes "channel_severities a = Some b"
  shows "dc_url (ac_discord b) = dc_url (ac_discord a)" "dc_batch_window (ac_discord b) = dc_batch_window (ac_discord a)"
    "nc_url (ac_ntfy b) = nc_url (ac_ntfy a)"
    "sevOr (dc_min_severity (ac_discord a)) High = Some (dc_min_sev (ac_discord b))"
    "sevOr (nc_min_severity (ac_ntfy a)) High = Some (nc_min_sev (ac_ntfy b))"
    "sevOr (wc_min_severity (ac_webhook a)) Medium = Some (wc_min_sev (ac_webhook b))"
  using assms by (auto simp: channel_severities_def split: option.splits)

text \<open>What comes out: the assignments made one after the other, before the severities are parsed.\<close>

definition with_defaults :: "bool \<Rightarrow> config \<Rightarrow> config" where
  "with_defaults windows c = default_detection ((default_core windows c)\<lparr>cf_alerts := default_alerts (cf_alerts c)\<rparr>)"

lemma ApplyDefaults_eq:
  "ApplyDefaults windows c =
     map_option (\<lambda>a. (with_defaults windows c)\<lparr>cf_fim := default_fim windows (cf_fim c), cf_alerts := a\<rparr>)
       (channel_severities (default_alerts (cf_alerts c)))"
  by (simp add: ApplyDefaults_def with_defaults_def Let_def default_core_def default_detection_def)

lemma with_defaults_fields:
  "cf_dedupe_cool (with_defaults windows c) = (if cf_dedupe_cool c \<le> 0 then 60 * second else cf_dedupe_cool c)"
  "cf_heartbeat (with_defaults windows c) = (if cf_heartbeat c = 0 then 5 * minute else cf_heartbeat c)"
  "cf_brute_force_window (with_defaults windows c) =
     (if cf_brute_force_window c \<le> 0 then 2 * minute else cf_brute_force_window c)"
  "cf_brute_fire_count (with_defaults windows c) = (if cf_brute_fire_count c \<le> 0 then 5 else cf_brute_fire_count c)"
  "cf_brute_force_high_cnt (with_defaults windows c) =
     (if cf_brute_force_high_cnt c \<le> 0 then 20 else cf_brute_force_high_cnt c)"
  "cf_internal_cidr (with_defaults windows c) = (if cf_internal_cidr c = [] then default_cidrs else cf_internal_cidr c)"
  "cf_suspicious_ports (with_defaults windows c) =
     (if cf_suspicious_ports c = [] then default_ports else cf_suspicious_ports c)"
  "cf_known_bad_files (with_defaults windows c) =
     (if cf_known_bad_files c = [] then default_bad_files else cf_known_bad_files c)"
  "cf_poll_interval (with_defaults windows c) = (if cf_poll_interval c \<le> 0 then 250 * millisecond else cf_poll_interval c)"
  "cf_sweep_time (with_defaults windows c) = (if cf_sweep_time c \<le> 0 then 5 * minute else cf_sweep_time c)"
  "cf_log_process_events (with_defaults windows c) = Some (LogAllProcessEvents c)"
  "cf_monitors (with_defaults windows c) = cf_monitors c" "cf_rules (with_defaults windows c) = cf_rules c"
  "cf_disabled (with_defaults windows c) = cf_disabled c"
  by (simp_all add: with_defaults_def default_core_def default_detection_def LogAllProcessEvents_def split: option.split)

lemma ApplyDefaults_None:
  "ApplyDefaults windows c = None \<longleftrightarrow>
     sevOr (dc_min_severity (ac_discord (cf_alerts c))) High = None \<or>
     sevOr (nc_min_severity (ac_ntfy (cf_alerts c))) High = None \<or>
     sevOr (wc_min_severity (ac_webhook (cf_alerts c))) Medium = None"
  by (simp add: ApplyDefaults_eq channel_severities_def default_alerts_def Let_def split: option.split)

lemma ApplyDefaults_Some:
  assumes "ApplyDefaults windows c = Some d"
  obtains a where "channel_severities (default_alerts (cf_alerts c)) = Some a"
    "d = (with_defaults windows c)\<lparr>cf_fim := default_fim windows (cf_fim c), cf_alerts := a\<rparr>"
  using assms unfolding ApplyDefaults_eq by blast

lemma ApplyDefaults_fields:
  assumes "ApplyDefaults windows c = Some d"
  shows "dc_batch_window (ac_discord (cf_alerts d)) =
      (if dc_batch_window (ac_discord (cf_alerts c)) = 0 then 5 * second else dc_batch_window (ac_discord (cf_alerts c)))"
    "cf_dedupe_cool d = (if cf_dedupe_cool c \<le> 0 then 60 * second else cf_dedupe_cool c)"
    "cf_heartbeat d = (if cf_heartbeat c = 0 then 5 * minute else cf_heartbeat c)"
    "cf_brute_force_window d = (if cf_brute_force_window c \<le> 0 then 2 * minute else cf_brute_force_window c)"
    "cf_brute_fire_count d = (if cf_brute_fire_count c \<le> 0 then 5 else cf_brute_fire_count c)"
    "cf_brute_force_high_cnt d = (if cf_brute_force_high_cnt c \<le> 0 then 20 else cf_brute_force_high_cnt c)"
    "cf_internal_cidr d = (if cf_internal_cidr c = [] then default_cidrs else cf_internal_cidr c)"
    "cf_suspicious_ports d = (if cf_suspicious_ports c = [] then default_ports else cf_suspicious_ports c)"
    "cf_known_bad_files d = (if cf_known_bad_files c = [] then default_bad_files else cf_known_bad_files c)"
    "cf_poll_interval d = (if cf_poll_interval c \<le> 0 then 250 * millisecond else cf_poll_interval c)"
    "cf_sweep_time d = (if cf_sweep_time c \<le> 0 then 5 * minute else cf_sweep_time c)"
    "LogAllProcessEvents d = LogAllProcessEvents c"
    "cf_monitors d = cf_monitors c" "cf_rules d = cf_rules c" "cf_disabled d = cf_disabled c"
proof -
  obtain a where a: "channel_severities (default_alerts (cf_alerts c)) = Some a"
    and d: "d = (with_defaults windows c)\<lparr>cf_fim := default_fim windows (cf_fim c), cf_alerts := a\<rparr>"
    by (rule ApplyDefaults_Some [OF assms])
  note b = channel_severities_Some(2) [OF a]
  show "dc_batch_window (ac_discord (cf_alerts d)) =
      (if dc_batch_window (ac_discord (cf_alerts c)) = 0 then 5 * second else dc_batch_window (ac_discord (cf_alerts c)))"
    by (simp add: d b default_alerts_def Let_def)
  show "LogAllProcessEvents d = LogAllProcessEvents c"
    unfolding LogAllProcessEvents_def [of d] by (simp add: d with_defaults_fields)
qed (rule ApplyDefaults_Some [OF assms], simp add: with_defaults_fields)+

lemma MonitorEnabled_defaults:
  "ApplyDefaults windows c = Some d \<Longrightarrow> MonitorEnabled d name = MonitorEnabled c name"
  by (simp add: MonitorEnabled_def ApplyDefaults_fields)

text \<open>What the rest of the program can count on.\<close>

definition usable :: "config \<Rightarrow> bool" where
  "usable d \<longleftrightarrow>
     0 < cf_poll_interval d \<and> 0 < cf_sweep_time d \<and> 0 < cf_dedupe_cool d \<and> 0 < cf_brute_force_window d \<and>
     0 < cf_brute_fire_count d \<and> 0 < cf_brute_force_high_cnt d \<and>
     cf_heartbeat d \<noteq> 0 \<and> dc_batch_window (ac_discord (cf_alerts d)) \<noteq> 0 \<and>
     cf_state_dir d \<noteq> [] \<and> cf_internal_cidr d \<noteq> [] \<and> cf_suspicious_ports d \<noteq> [] \<and> cf_known_bad_files d \<noteq> [] \<and>
     dc_username (ac_discord (cf_alerts d)) \<noteq> [] \<and> nc_url (ac_ntfy (cf_alerts d)) \<noteq> [] \<and>
     cf_log_process_events d \<noteq> None \<and> fc_paths (cf_fim d) \<noteq> None"

text \<open>What a user sets: every field, unless it has a value that stands for not set.\<close>

definition settings_kept :: "config \<Rightarrow> config \<Rightarrow> bool" where
  "settings_kept c d \<longleftrightarrow>
     (0 < cf_poll_interval c \<longrightarrow> cf_poll_interval d = cf_poll_interval c) \<and>
     (0 < cf_sweep_time c \<longrightarrow> cf_sweep_time d = cf_sweep_time c) \<and>
     (0 < cf_dedupe_cool c \<longrightarrow> cf_dedupe_cool d = cf_dedupe_cool c) \<and>
     (0 < cf_brute_force_window c \<longrightarrow> cf_brute_force_window d = cf_brute_force_window c) \<and>
     (0 < cf_brute_fire_count c \<longrightarrow> cf_brute_fire_count d = cf_brute_fire_count c) \<and>
     (0 < cf_brute_force_high_cnt c \<longrightarrow> cf_brute_force_high_cnt d = cf_brute_force_high_cnt c) \<and>
     (cf_heartbeat c \<noteq> 0 \<longrightarrow> cf_heartbeat d = cf_heartbeat c) \<and>
     (cf_state_dir c \<noteq> [] \<longrightarrow> cf_state_dir d = cf_state_dir c) \<and>
     (cf_internal_cidr c \<noteq> [] \<longrightarrow> cf_internal_cidr d = cf_internal_cidr c) \<and>
     (cf_suspicious_ports c \<noteq> [] \<longrightarrow> cf_suspicious_ports d = cf_suspicious_ports c) \<and>
     (cf_known_bad_files c \<noteq> [] \<longrightarrow> cf_known_bad_files d = cf_known_bad_files c) \<and>
     LogAllProcessEvents d = LogAllProcessEvents c \<and> MonitorEnabled d = MonitorEnabled c \<and>
     cf_monitors d = cf_monitors c \<and> cf_rules d = cf_rules c \<and> cf_disabled d = cf_disabled c"

definition fim_kept :: "fim_config \<Rightarrow> fim_config \<Rightarrow> bool" where
  "fim_kept c d \<longleftrightarrow>
     (\<forall>paths. fc_paths c = Some paths \<longrightarrow> fc_paths d = Some (paths @ fc_extra_paths c)) \<and>
     fc_extra_paths d = fc_extra_paths c \<and> fc_exclude_paths d = fc_exclude_paths c"

definition channels_kept :: "alerts_config \<Rightarrow> alerts_config \<Rightarrow> bool" where
  "channels_kept c d \<longleftrightarrow>
     dc_url (ac_discord d) = dc_url (ac_discord c) \<and>
     (dc_username (ac_discord c) \<noteq> [] \<longrightarrow> dc_username (ac_discord d) = dc_username (ac_discord c)) \<and>
     (dc_batch_window (ac_discord c) \<noteq> 0 \<longrightarrow> dc_batch_window (ac_discord d) = dc_batch_window (ac_discord c)) \<and>
     (nc_url (ac_ntfy c) \<noteq> [] \<longrightarrow> nc_url (ac_ntfy d) = nc_url (ac_ntfy c)) \<and>
     nc_topic (ac_ntfy d) = nc_topic (ac_ntfy c) \<and> nc_token (ac_ntfy d) = nc_token (ac_ntfy c) \<and>
     wc_url (ac_webhook d) = wc_url (ac_webhook c) \<and> wc_secret (ac_webhook d) = wc_secret (ac_webhook c) \<and>
     (dc_min_severity (ac_discord c) \<noteq> [] \<longrightarrow>
        parse_severity (dc_min_severity (ac_discord c)) = (dc_min_sev (ac_discord d), True)) \<and>
     (nc_min_severity (ac_ntfy c) \<noteq> [] \<longrightarrow>
        parse_severity (nc_min_severity (ac_ntfy c)) = (nc_min_sev (ac_ntfy d), True)) \<and>
     (wc_min_severity (ac_webhook c) \<noteq> [] \<longrightarrow>
        parse_severity (wc_min_severity (ac_webhook c)) = (wc_min_sev (ac_webhook d), True))"

lemma sevOr_None: "sevOr s def = None \<longleftrightarrow> s \<noteq> [] \<and> \<not> snd (parse_severity s)"
  by (auto simp: sevOr_def split: prod.splits)

lemma sevOr_set: "sevOr s def = Some v \<Longrightarrow> s \<noteq> [] \<longrightarrow> parse_severity s = (v, True)"
  by (auto simp: sevOr_def split: prod.splits if_splits)

lemma ApplyDefaults_kept:
  assumes "ApplyDefaults windows c = Some d"
  shows "fim_kept (cf_fim c) (cf_fim d)" "channels_kept (cf_alerts c) (cf_alerts d)"
    "cf_state_dir c \<noteq> [] \<longrightarrow> cf_state_dir d = cf_state_dir c" "cf_state_dir d \<noteq> []"
    "dc_username (ac_discord (cf_alerts d)) \<noteq> []" "nc_url (ac_ntfy (cf_alerts d)) \<noteq> []"
    "cf_log_process_events d \<noteq> None" "fc_paths (cf_fim d) \<noteq> None"
proof -
  obtain a where a: "channel_severities (default_alerts (cf_alerts c)) = Some a"
    and d: "d = (with_defaults windows c)\<lparr>cf_fim := default_fim windows (cf_fim c), cf_alerts := a\<rparr>"
    by (rule ApplyDefaults_Some [OF assms])
  show "fim_kept (cf_fim c) (cf_fim d)" "fc_paths (cf_fim d) \<noteq> None"
    by (simp_all add: d fim_kept_def default_fim_def)
  show "cf_log_process_events d \<noteq> None" by (simp add: d with_defaults_fields)
  show "cf_state_dir c \<noteq> [] \<longrightarrow> cf_state_dir d = cf_state_dir c" "cf_state_dir d \<noteq> []"
    by (simp_all add: d with_defaults_def default_detection_def default_core_def)
  obtain x y z where v: "sevOr (dc_min_severity (ac_discord (cf_alerts c))) High = Some x"
      "sevOr (nc_min_severity (ac_ntfy (cf_alerts c))) High = Some y"
      "sevOr (wc_min_severity (ac_webhook (cf_alerts c))) Medium = Some z"
    using assms ApplyDefaults_None [of windows c] by auto
  then have al: "cf_alerts d = \<lparr>ac_discord = (ac_discord (default_alerts (cf_alerts c)))\<lparr>dc_min_sev := x\<rparr>,
      ac_ntfy = (ac_ntfy (default_alerts (cf_alerts c)))\<lparr>nc_min_sev := y\<rparr>,
      ac_webhook = (ac_webhook (default_alerts (cf_alerts c)))\<lparr>wc_min_sev := z\<rparr>\<rparr>"
    using a by (auto simp: d channel_severities_def default_alerts_def Let_def)
  show "channels_kept (cf_alerts c) (cf_alerts d)"
    using v [THEN sevOr_set] by (simp add: al channels_kept_def default_alerts_def Let_def)
  show "dc_username (ac_discord (cf_alerts d)) \<noteq> []" "nc_url (ac_ntfy (cf_alerts d)) \<noteq> []"
    by (simp_all add: al default_alerts_def Let_def)
qed

lemma ApplyDefaults_usable: "usable d" if "ApplyDefaults windows c = Some d"
  using ApplyDefaults_fields(1-11) [OF that] ApplyDefaults_kept(4-8) [OF that]
  by (simp add: usable_def default_cidrs_def default_ports_def default_bad_files_def)

lemma ApplyDefaults_settings: "settings_kept c d" if "ApplyDefaults windows c = Some d"
  using MonitorEnabled_defaults [OF that] ApplyDefaults_kept(3) [OF that]
  by (simp add: settings_kept_def ApplyDefaults_fields [OF that] fun_eq_iff)

text \<open>
  C39 (bounds). Defaults are applied without an error exactly if the minimum severity of
  every channel is empty or a known name. Then the polling, sweeping and de-duplication
  intervals and the brute-force window and counts are positive, the batch window of Discord
  and the heartbeat are not zero, no list of networks, ports, tools or paths is missing, and
  everything the user set is kept: each field of the program, of the file monitor and of the
  channels. A negative batch window or heartbeat is kept like any other value that is not zero.
\<close>

theorem ApplyDefaults_valid:
  "(ApplyDefaults windows c = None \<longleftrightarrow>
      (\<exists>s \<in> {dc_min_severity (ac_discord (cf_alerts c)), nc_min_severity (ac_ntfy (cf_alerts c)),
             wc_min_severity (ac_webhook (cf_alerts c))}. s \<noteq> [] \<and> \<not> snd (parse_severity s))) \<and>
   (\<forall>d. ApplyDefaults windows c = Some d \<longrightarrow>
      usable d \<and> settings_kept c d \<and> fim_kept (cf_fim c) (cf_fim d) \<and> channels_kept (cf_alerts c) (cf_alerts d))"
  using ApplyDefaults_usable ApplyDefaults_settings ApplyDefaults_kept(1,2)
  by (auto simp: ApplyDefaults_None sevOr_None)

lemma Default_Some: "\<exists>d. Default windows = Some d"
  using ApplyDefaults_None [of windows zero_config] by (auto simp: Default_def zero_config_def sevOr_def)

text \<open>A network, a count and a negative batch window of the user, the rest left to the defaults.\<close>

definition user_config :: config where
  "user_config = zero_config\<lparr>cf_internal_cidr := [''10.1.0.0/16''], cf_brute_fire_count := 3,
     cf_alerts := (cf_alerts zero_config)\<lparr>ac_discord := (ac_discord (cf_alerts zero_config))\<lparr>dc_batch_window := - 1\<rparr>\<rparr>\<rparr>"

theorem ApplyDefaults_valid_witness:
  "\<exists>d. ApplyDefaults False user_config = Some d \<and> 0 < cf_dedupe_cool d \<and> cf_internal_cidr d = [''10.1.0.0/16''] \<and>
     cf_brute_fire_count d = 3 \<and> dc_batch_window (ac_discord (cf_alerts d)) = - 1"
proof -
  have "ApplyDefaults False user_config \<noteq> None"
    using ApplyDefaults_valid [of False user_config] by (simp add: user_config_def zero_config_def)
  then obtain d where d: "ApplyDefaults False user_config = Some d" by blast
  with ApplyDefaults_valid [of False user_config] have "usable d \<and> settings_kept user_config d \<and>
      channels_kept (cf_alerts user_config) (cf_alerts d)" by blast
  then show ?thesis
    using d by (simp add: usable_def settings_kept_def channels_kept_def user_config_def zero_config_def)
qed

text \<open>
  The default configuration file says of the heartbeat that 0 disables it, and
  the dispatcher has a branch for it; but a configured 0 becomes five minutes.
\<close>

theorem heartbeat_zero_is_default:
  "cf_heartbeat c = 0 \<Longrightarrow> map_option cf_heartbeat (ApplyDefaults windows c) \<in> {None, Some (5 * minute)}"
  by (cases "ApplyDefaults windows c") (auto simp: ApplyDefaults_fields)

theorem heartbeat_zero_is_default_witness:
  "map_option cf_heartbeat (ApplyDefaults False zero_config) = Some (5 * minute)"
  using heartbeat_zero_is_default [of zero_config False] Default_Some [of False]
  by (auto simp: zero_config_def Default_def)

end
