(* ===== verification/Util.thy ===== *)
theory Util
  imports Net_IP
begin

text \<open>
  \<^verbatim>\<open>internal/util/util.go\<close>: the decoders for the addresses in \<^verbatim>\<open>/proc/net\<close>, the classifier of
  internal networks, and the field splitter for \<^verbatim>\<open>/proc/<pid>/stat\<close>. A function with an error
  result returns \<open>Ret None\<close> for an error; a slice or index out of range is \<^const>\<open>Panic\<close>.
\<close>

section \<open>Slices and Sscanf\<close>

definition slice :: "string \<Rightarrow> nat \<Rightarrow> nat \<Rightarrow> string go" where
  "slice s i j = (if i \<le> j \<and> j \<le> length s then Ret (take (j - i) (drop i s)) else Panic)"

definition set_index :: "'a list \<Rightarrow> nat \<Rightarrow> 'a \<Rightarrow> 'a list go" where
  "set_index b i v = (if i < length b then Ret (b[i := v]) else Panic)"

text \<open>
  \<^verbatim>\<open>fmt.Sscanf(s, "%x", &v)\<close> for an \<^verbatim>\<open>int\<close>: blanks are skipped but not a line feed, a sign is
  allowed, at least one hexadecimal digit is needed, what follows the digits is ignored, and
  a number that does not fit in 64 bits is an error.
\<close>

definition sscanf_hex :: "string \<Rightarrow> int option" where
  "sscanf_hex s =
     (let s = dropWhile (\<lambda>c. is_space c \<and> of_char c \<noteq> (10 :: nat)) s;
          negative = (s \<noteq> [] \<and> hd s = CHR ''-'');
          s = (if s \<noteq> [] \<and> (hd s = CHR ''-'' \<or> hd s = CHR ''+'') then tl s else s);
          ds = takeWhile (\<lambda>c. digit_value c \<noteq> None) s in
      if ds = [] then None
      else map_option (\<lambda>n. if negative then - int n else int n)
        (Option.bind (parse_base 16 0 ds)
          (\<lambda>n. if n < 2 ^ 63 \<or> negative \<and> n = 2 ^ 63 then Some n else None)))"

section \<open>Addresses\<close>

text \<open>
  The decoding loops: for each pair of an offset in the text and an index in the address,
  in order.
\<close>

fun hex_steps :: "string \<Rightarrow> (nat \<times> nat) list \<Rightarrow> ip \<Rightarrow> ip option go" where
  "hex_steps s [] b = Ret (Some b)"
| "hex_steps s ((off, i) # ps) b =
     (case slice s off (off + 2) of
        Panic \<Rightarrow> Panic
      | Ret t \<Rightarrow>
          (case sscanf_hex t of
             None \<Rightarrow> Ret None
           | Some v \<Rightarrow>
               (case set_index b i (word_of_int v) of
                  Panic \<Rightarrow> Panic
                | Ret b \<Rightarrow> hex_steps s ps b)))"

definition ParseHexIPv4 :: "string \<Rightarrow> ip option go" where
  "ParseHexIPv4 s =
     (if length s \<noteq> 8 then Ret None
      else hex_steps s (map (\<lambda>i. (i * 2, 3 - i)) [0..<4]) (replicate 4 0))"

definition ParseHexIPv6 :: "string \<Rightarrow> ip option go" where
  "ParseHexIPv6 s =
     (if length s \<noteq> 32 then Ret None
      else hex_steps s
        (concat (map (\<lambda>g. map (\<lambda>i. (g * 8 + i * 2, g * 4 + 3 - i)) [0..<4]) [0..<8])) (replicate 16 0))"

definition ParseAddrPort :: "string \<Rightarrow> (ip \<times> int) option go" where
  "ParseAddrPort s =
     (case last_index_byte s colon of
        None \<Rightarrow> Ret None
      | Some i \<Rightarrow>
          (let ip_str = take i s; port_str = drop (i + 1) s;
               parsed = (if length ip_str = 8 then ParseHexIPv4 ip_str
                         else if length ip_str = 32 then ParseHexIPv6 ip_str
                         else Ret None) in
           case parsed of
             Panic \<Rightarrow> Panic
           | Ret None \<Rightarrow> Ret None
           | Ret (Some ip) \<Rightarrow>
               (case sscanf_hex port_str of
                  None \<Rightarrow> Ret None
                | Some port \<Rightarrow> Ret (Some (ip, port)))))"

section \<open>Internal networks\<close>

text \<open>\<^verbatim>\<open>net.ParseCIDR\<close>: the network's address (in 4 bytes for IPv4) and its mask.\<close>

type_synonym ipnet = "ip \<times> ip"

definition cidr_mask :: "nat \<Rightarrow> nat \<Rightarrow> ip" where
  "cidr_mask n bytes = map (\<lambda>i. word_of_nat (256 - 2 ^ (8 - min 8 (n - 8 * i)))) [0..<bytes]"

definition ip_mask :: "ip \<Rightarrow> ip \<Rightarrow> ip" where
  "ip_mask a m = map2 and a m"

definition parse_cidr :: "string \<Rightarrow> ipnet option" where
  "parse_cidr s =
     (if CHR ''/'' \<notin> set s then None
      else
        let addr = takeWhile (\<lambda>c. c \<noteq> CHR ''/'') s;
            mask = drop (length addr + 1) s;
            v4 = (find (\<lambda>c. c \<in> {dot, colon, percent}) addr = Some dot);
            bytes = (if v4 then 4 else 16) in
        case parse_ip addr of
          None \<Rightarrow> None
        | Some a \<Rightarrow>
            (case parse_base 10 0 mask of
               None \<Rightarrow> None
             | Some n \<Rightarrow>
                 if mask = [] \<or> n > 8 * bytes then None
                 else Some (ip_mask (if v4 then drop 12 a else a) (cidr_mask n bytes), cidr_mask n bytes)))"

definition contains :: "ipnet \<Rightarrow> ip \<Rightarrow> bool" where
  "contains n a =
     (let nn = (case to4 (fst n) of Some p \<Rightarrow> p | None \<Rightarrow> fst n);
          m = (if length nn = 4 \<and> length (snd n) = 16 then drop 12 (snd n) else snd n);
          x = (case to4 a of Some p \<Rightarrow> p | None \<Rightarrow> a) in
      length x = length nn \<and> length m = length nn \<and> ip_mask nn m = ip_mask x m)"

type_synonym ip_ctx = "ipnet list"

definition NewIPCtx :: "string list \<Rightarrow> ip_ctx option" where
  "NewIPCtx cidrs = those (map parse_cidr cidrs)"

text \<open>The receiver's list of networks, and the address, \<open>None\<close> for nil.\<close>

definition Internal :: "ip_ctx \<Rightarrow> ip option \<Rightarrow> bool" where
  "Internal nets ip =
     (case ip of
        None \<Rightarrow> False
      | Some a \<Rightarrow>
          is_loopback a \<or> is_link_local_unicast a \<or> is_link_local_multicast a \<or>
          list_ex (\<lambda>n. contains n a) nets)"

section \<open>Fields\<close>

text \<open>\<^verbatim>\<open>strings.Fields\<close>: the maximal runs of characters that are no white space.\<close>

fun fields_from :: "string \<Rightarrow> string \<Rightarrow> string list" where
  "fields_from acc [] = (if acc = [] then [] else [acc])"
| "fields_from acc (c # s) =
     (if is_space c then (if acc = [] then [] else [acc]) @ fields_from [] s
      else fields_from (acc @ [c]) s)"

definition string_fields :: "string \<Rightarrow> string list" where
  "string_fields s = fields_from [] s"

definition FirstField :: "string \<Rightarrow> nat \<Rightarrow> string" where
  "FirstField stat afterComm =
     (case last_index_byte stat (CHR '')'') of
        None \<Rightarrow> []
      | Some i \<Rightarrow>
          if i + 2 > length stat then []
          else
            let fields = string_fields (drop (i + 2) stat) in
            if afterComm \<ge> length fields then [] else fields ! afterComm)"

section \<open>What the decoders compute\<close>

text \<open>The kernel prints addresses with upper-case hexadecimal digits.\<close>

definition proc_digit :: "nat \<Rightarrow> char" where
  "proc_digit d = (if d < 10 then char_of (48 + d) else char_of (55 + d))"

definition proc_hex :: "u8 list \<Rightarrow> string" where
  "proc_hex bs = concat (map (\<lambda>b. [proc_digit (unat b div 16), proc_digit (unat b mod 16)]) bs)"

lemma length_proc_hex [simp]: "length (proc_hex bs) = 2 * length bs"
  by (induction bs) (simp_all add: proc_hex_def)

lemma proc_digit_value:
  assumes "d < 16"
  shows "digit_value (proc_digit d) = Some d"
  using assms by (auto simp: digit_value_def proc_digit_def)

lemma digit_value_plain:
  assumes "digit_value c \<noteq> None"
  shows "\<not> is_space c \<and> c \<noteq> CHR ''-'' \<and> c \<noteq> CHR ''+'' \<and> c \<noteq> colon"
proof -
  have "48 \<le> (of_char c :: nat)"
    using assms by (auto simp: digit_value_def Let_def split: if_splits)
  moreover have "(of_char c :: nat) \<noteq> 58"
    using assms by (auto simp: digit_value_def Let_def split: if_splits)
  ultimately show ?thesis
    by (auto simp: is_space_def colon_def)
qed

lemma sscanf_hex_digits:
  assumes "ds \<noteq> []" and "\<And>c. c \<in> set ds \<Longrightarrow> digit_value c \<noteq> None" and "rest = [] \<or> digit_value (hd rest) = None"
    and "parse_base 16 0 ds = Some n" and "n < 2 ^ 63"
  shows "sscanf_hex (ds @ rest) = Some (int n)"
proof -
  obtain c cs where ds: "ds = c # cs" using assms(1) by (cases ds) auto
  then have c: "\<not> is_space c \<and> c \<noteq> CHR ''-'' \<and> c \<noteq> CHR ''+''"
    using digit_value_plain [of c] assms(2) by simp
  have "takeWhile (\<lambda>c. digit_value c \<noteq> None) (ds @ rest) = ds"
    using assms(2,3) by (cases rest) (auto simp: takeWhile_append)
  then show ?thesis
    using c assms(4,5) by (simp add: sscanf_hex_def Let_def ds)
qed

lemma sscanf_hex_byte:
  "sscanf_hex [proc_digit (unat b div 16), proc_digit (unat (b :: u8) mod 16)] = Some (int (unat b))"
proof -
  have d: "unat b div 16 < 16" "unat b mod 16 < 16" "unat b < 2 ^ 63"
    using unat_u8 [of b] by simp_all
  then have "parse_base 16 0 [proc_digit (unat b div 16), proc_digit (unat b mod 16)] = Some (unat b)"
    by (simp add: proc_digit_value)
  moreover have "digit_value c \<noteq> None" if "c \<in> set [proc_digit (unat b div 16), proc_digit (unat b mod 16)]" for c
    using that d proc_digit_value by auto
  ultimately show ?thesis
    using sscanf_hex_digits [of "[proc_digit (unat b div 16), proc_digit (unat b mod 16)]" "[]" "unat b"] d(3)
    by simp
qed

lemma word_of_int_unat: "word_of_int (int (unat (b :: u8))) = b"
  by simp

lemma ParseHexIPv4_proc:
  assumes "length a = 4"
  shows "ParseHexIPv4 (proc_hex (rev a)) = Ret (Some a)"
proof -
  obtain b0 b1 b2 b3 where a: "a = [b0, b1, b2, b3]"
    using assms by (auto simp: length_Suc_conv numeral_eq_Suc)
  have upt: "[0..<4] = [0, 1, 2, 3 :: nat]" by (simp add: upt_rec)
  have rep: "replicate 4 0 = [0, 0, 0, 0 :: u8]" by (simp add: numeral_eq_Suc)
  show ?thesis
    unfolding ParseHexIPv4_def upt rep
    by (simp add: a proc_hex_def slice_def set_index_def sscanf_hex_byte)
qed

text \<open>
  The IPv6 decoder reads 2 characters at offset \<open>8 g + 2 i\<close> for \<open>g\<close> up to 7, but the text
  has 32 characters: offset 32 is past the end.
\<close>

lemma hex_steps_no_value:
  assumes "length s = 32" and "length b = 16" and "(off, i) \<in> set ps" and "32 \<le> off"
  shows "hex_steps s ps b \<noteq> Ret (Some a)"
  using assms(2,3)
proof (induction ps arbitrary: b)
  case (Cons p ps)
  obtain off' i' where p: "p = (off', i')" by (cases p)
  show ?case
  proof (cases "off' = off \<and> i' = i")
    case True
    then show ?thesis using assms(1,4) by (simp add: p slice_def)
  next
    case False
    then have m: "(off, i) \<in> set ps" using Cons.prems(2) by (auto simp: p)
    show ?thesis
      using Cons.IH [OF _ m] Cons.prems(1)
      by (auto simp: p set_index_def split: go.split option.split)
  qed
qed simp

lemma digit_value_bound: "digit_value c = Some d \<Longrightarrow> d < 16"
  by (auto simp: digit_value_def Let_def split: if_splits)

lemma parse_base_bound:
  assumes "length t \<le> 2" and "\<And>c. c \<in> set t \<Longrightarrow> digit_value c \<noteq> None"
  shows "\<exists>n. parse_base 16 0 t = Some n \<and> n < 2 ^ 63"
proof -
  have "\<exists>n. parse_base 16 acc t = Some n \<and> n < (acc + 1) * 16 ^ length t" for acc
    using assms(2)
  proof (induction t arbitrary: acc)
    case (Cons c t)
    obtain d where d: "digit_value c = Some d" "d < 16"
      using Cons.prems [of c] digit_value_bound by auto
    obtain n where n: "parse_base 16 (acc * 16 + d) t = Some n" "n < (acc * 16 + d + 1) * 16 ^ length t"
      using Cons.IH [of "acc * 16 + d"] Cons.prems by auto
    have "(acc * 16 + d + 1) * 16 ^ length t \<le> ((acc + 1) * 16) * 16 ^ length t"
      using d(2) by (intro mult_right_mono) simp_all
    also have "((acc + 1) * 16) * 16 ^ length t = (acc + 1) * 16 ^ length (c # t)"
      by (simp only: mult.assoc list.size power_Suc add_Suc_right add_0_right)
    finally have "n < (acc + 1) * 16 ^ length (c # t)"
      using n(2) by (rule order_less_le_trans [rotated])
    then show ?case
      using n(1) d by (intro exI [of _ n]) (simp only: parse_base.simps option.case if_True simp_thms)
  qed simp
  then obtain n where n: "parse_base 16 0 t = Some n" "n < 16 ^ length t" by fastforce
  have "(16 :: nat) ^ length t \<le> 16 ^ 2"
    using assms(1) by (intro power_increasing) simp_all
  with n show ?thesis by (intro exI [of _ n]) simp
qed

lemma hex_steps_panics:
  assumes "length s = 32" and "list_all (\<lambda>c. digit_value c \<noteq> None) s" and "length b = 16"
    and "list_all (\<lambda>(off, i). off + 2 \<le> 32 \<and> i < 16) ps" and "32 \<le> off"
  shows "hex_steps s (ps @ (off, i) # rest) b = Panic"
  using assms(3,4)
proof (induction ps arbitrary: b)
  case Nil
  then show ?case using assms(1,5) by (simp add: slice_def)
next
  case (Cons p ps)
  obtain o' i' where p: "p = (o', i')" by (cases p)
  have o': "o' + 2 \<le> 32" "i' < 16" using Cons.prems(2) by (simp_all add: p)
  let ?t = "take 2 (drop o' s)"
  have t: "?t \<noteq> []" "length ?t \<le> 2" "\<And>c. c \<in> set ?t \<Longrightarrow> digit_value c \<noteq> None"
    using assms(1,2) o' by (auto simp: list_all_iff dest: in_set_takeD in_set_dropD)
  obtain n where n: "parse_base 16 0 ?t = Some n" "n < 2 ^ 63"
    using parse_base_bound [OF t(2,3)] by auto
  have "sscanf_hex ?t = Some (int n)"
    using sscanf_hex_digits [OF t(1,3) _ n, of "[]"] by simp
  moreover have "slice s o' (o' + 2) = Ret ?t"
    using o' assms(1) by (simp add: slice_def)
  ultimately show ?case
    using Cons.IH [of "b[i' := word_of_nat n]"] Cons.prems o' by (simp add: p set_index_def)
qed

text \<open>The steps of the IPv6 decoder: sixteen inside the text, then one past its end.\<close>

definition steps_inside :: "(nat \<times> nat) list" where
  "steps_inside = concat (map (\<lambda>g. map (\<lambda>i. (g * 8 + i * 2, g * 4 + 3 - i)) [0..<4]) [0..<4])"

definition steps_outside :: "(nat \<times> nat) list" where
  "steps_outside = map (\<lambda>i. (4 * 8 + i * 2, 4 * 4 + 3 - i)) [1..<4] @
    concat (map (\<lambda>g. map (\<lambda>i. (g * 8 + i * 2, g * 4 + 3 - i)) [0..<4]) [5..<8])"

lemma steps_v6:
  "concat (map (\<lambda>g. map (\<lambda>i. (g * 8 + i * 2, g * 4 + 3 - i)) [0..<4]) [0..<8]) =
     steps_inside @ (32, 19) # steps_outside"
  by code_simp

lemma steps_inside_bounds: "list_all (\<lambda>(off, i). off + 2 \<le> 32 \<and> i < 16) steps_inside"
  by code_simp

lemma ParseHexIPv6_no_value: "ParseHexIPv6 s \<noteq> Ret (Some a)"
  unfolding ParseHexIPv6_def steps_v6
  using hex_steps_no_value [of s "replicate 16 0" 32 19 "steps_inside @ (32, 19) # steps_outside" a] by simp

lemma ParseHexIPv6_panics:
  assumes "length s = 32" and "list_all (\<lambda>c. digit_value c \<noteq> None) s"
  shows "ParseHexIPv6 s = Panic"
  unfolding ParseHexIPv6_def steps_v6
  using hex_steps_panics [OF assms, of "replicate 16 0" steps_inside 32 19 steps_outside]
    steps_inside_bounds assms(1) by simp

lemma ParseAddrPort_v6_panics:
  assumes "length s = 32" and "list_all (\<lambda>c. digit_value c \<noteq> None) s" and "colon \<notin> set port"
  shows "ParseAddrPort (s @ colon # port) = Panic"
  using ParseHexIPv6_panics [OF assms(1,2)] assms(1)
  by (simp add: ParseAddrPort_def last_index_byte_split [OF assms(3)] Let_def)

lemma fields_from_word:
  "list_all (\<lambda>c. \<not> is_space c) w \<Longrightarrow> fields_from acc (w @ rest) = fields_from (acc @ w) rest"
  by (induction w arbitrary: acc) auto

lemma string_fields_join:
  assumes "list_all (\<lambda>f. f \<noteq> [] \<and> list_all (\<lambda>c. \<not> is_space c) f) fields"
  shows "string_fields (go_join fields '' '') = fields"
  using assms unfolding string_fields_def
proof (induction fields "'' ''" rule: go_join.induct)
  case (2 f)
  then show ?case using fields_from_word [of f "[]" "[]"] by simp
next
  case (3 f g fs)
  then show ?case by (simp add: fields_from_word is_space_def)
qed simp

section \<open>Properties\<close>

text \<open>
  An IPv4 end point as the kernel prints it in \<^verbatim>\<open>/proc/net/tcp\<close> (the address
  as one little-endian number, a colon, the port, both in upper-case hexadecimal) is read
  back as that address and that port.
\<close>

theorem ParseAddrPort_proc:
  assumes "length a = 4"
  shows "ParseAddrPort (proc_hex (rev a) @ colon # proc_hex [hi, lo]) =
    Ret (Some (a, 256 * int (unat hi) + int (unat lo)))"
proof -
  let ?port = "proc_hex [hi, lo]"
  have d: "unat hi div 16 < 16" "unat hi mod 16 < 16" "unat lo div 16 < 16" "unat lo mod 16 < 16"
    using unat_u8 [of hi] unat_u8 [of lo] by simp_all
  have digits: "digit_value c \<noteq> None" if "c \<in> set ?port" for c
    using that d by (auto simp: proc_hex_def proc_digit_value)
  have "colon \<notin> set ?port"
    using digits digit_value_plain [of colon] by blast
  then have i: "last_index_byte (proc_hex (rev a) @ colon # ?port) colon = Some (length (proc_hex (rev a)))"
    by (rule last_index_byte_split)
  have len: "length (proc_hex (rev a)) = 8"
    using assms by simp
  have val: "((unat hi div 16 * 16 + unat hi mod 16) * 16 + unat lo div 16) * 16 + unat lo mod 16 =
      256 * unat hi + unat lo"
    unfolding div_mult_mod_eq add_mult_distrib mult.assoc using div_mult_mod_eq [of "unat lo" 16] by simp
  have "parse_base 16 0 ?port = Some (((unat hi div 16 * 16 + unat hi mod 16) * 16 + unat lo div 16) * 16 + unat lo mod 16)"
    using d by (simp add: proc_hex_def proc_digit_value)
  then have base: "parse_base 16 0 ?port = Some (256 * unat hi + unat lo)"
    unfolding val .
  have "sscanf_hex (?port @ []) = Some (int (256 * unat hi + unat lo))"
  proof (rule sscanf_hex_digits [OF _ digits _ base])
    show "?port \<noteq> []" by (simp add: proc_hex_def)
    show "256 * unat hi + unat lo < 2 ^ 63" using unat_u8 [of hi] unat_u8 [of lo] by simp
  qed simp_all
  then show ?thesis
    using ParseHexIPv4_proc [OF assms] by (simp add: ParseAddrPort_def i assms Let_def)
qed

theorem ParseAddrPort_proc_witness:
  "ParseAddrPort ''0100007F:01BB'' = Ret (Some ([127, 0, 0, 1], 443))"
proof -
  have "proc_hex (rev [127, 0, 0, 1]) @ colon # proc_hex [1, 187] = ''0100007F:01BB''"
    by code_simp
  then show ?thesis
    using ParseAddrPort_proc [of "[127, 0, 0, 1]" 1 187] by simp
qed

text \<open>
  The IPv6 decoder never returns an address: its loop takes eight groups of four
  bytes from a text of sixteen. On 32 hexadecimal digits, which is what \<^verbatim>\<open>/proc/net/tcp6\<close>
  has, it panics with an index out of range, and so does \<open>ParseAddrPort\<close>.
\<close>

theorem ParseHexIPv6_fails:
  "ParseHexIPv6 s \<noteq> Ret (Some a) \<and>
   (length s = 32 \<and> list_all (\<lambda>c. digit_value c \<noteq> None) s \<and> colon \<notin> set port \<longrightarrow>
      ParseHexIPv6 s = Panic \<and> ParseAddrPort (s @ colon # port) = Panic)"
  using ParseHexIPv6_no_value ParseHexIPv6_panics ParseAddrPort_v6_panics by blast

theorem ParseHexIPv6_fails_witness:
  "ParseAddrPort ''00000000000000000000000001000000:0016'' = Panic"
proof -
  have "length ''00000000000000000000000001000000'' = 32 \<and>
      list_all (\<lambda>c. digit_value c \<noteq> None) ''00000000000000000000000001000000'' \<and> colon \<notin> set ''0016''"
    by code_simp
  moreover have "''00000000000000000000000001000000'' @ colon # ''0016'' =
      ''00000000000000000000000001000000:0016''"
    by code_simp
  ultimately show ?thesis
    using ParseHexIPv6_fails [of "''00000000000000000000000001000000''" undefined "''0016''"] by simp
qed

text \<open>
  \<open>FirstField\<close> is not misled by blanks or parentheses in a command name:
  on a stat line it returns the numbered field after the name, and the empty string past the
  last one.
\<close>

theorem FirstField_after_comm:
  assumes "CHR '')'' \<notin> set (go_join fields '' '')"
    and "list_all (\<lambda>f. f \<noteq> [] \<and> list_all (\<lambda>c. \<not> is_space c) f) fields"
  shows "FirstField (pid @ '' ('' @ comm @ '') '' @ go_join fields '' '') n =
    (if n < length fields then fields ! n else [])"
proof -
  let ?pre = "pid @ '' ('' @ comm" and ?post = "CHR '' '' # go_join fields '' ''"
  have line: "pid @ '' ('' @ comm @ '') '' @ go_join fields '' '' = ?pre @ CHR '')'' # ?post"
    by simp
  have "last_index_byte (?pre @ CHR '')'' # ?post) (CHR '')'') = Some (length ?pre)"
    using assms(1) by (intro last_index_byte_split) simp
  then have "FirstField (?pre @ CHR '')'' # ?post) n =
      (let fields = string_fields (drop (length ?pre + 2) (?pre @ CHR '')'' # ?post)) in
       if n \<ge> length fields then [] else fields ! n)"
    by (simp only: FirstField_def option.case) (simp add: Let_def)
  also have "drop (length ?pre + 2) (?pre @ CHR '')'' # ?post) = go_join fields '' ''"
    unfolding drop_append by (simp del: append_assoc)
  finally show ?thesis
    unfolding line by (simp add: string_fields_join [OF assms(2)] Let_def)
qed

theorem FirstField_after_comm_witness:
  "FirstField ''7 (a) S 1 (b) R 1 7'' 1 = ''1''"
  using FirstField_after_comm [of "[''R'', ''1'', ''7'']" "''7''" "''a) S 1 (b''" 1]
  by (simp add: is_space_def)

end
