(* ===== verification/Networks.thy ===== *)
theory Networks
  imports Config Util
begin

text \<open>
  The networks that are internal by default (\<^verbatim>\<open>config.go\<close>, \<^verbatim>\<open>util.go\<close>): the list of the
  configuration parses, and its classifier accepts exactly the private, loopback and
  link-local addresses.
\<close>

section \<open>Parsing the defaults\<close>

lemma zeros14: "replicate 14 (0 :: u8) = [0, 0, 0, 0, 0, 0, 0, 0, 0, 0, 0, 0, 0, 0]"
  by (simp add: numeral_eq_Suc)

lemma zeros15: "replicate 15 (0 :: u8) = [0, 0, 0, 0, 0, 0, 0, 0, 0, 0, 0, 0, 0, 0, 0]"
  by (simp add: numeral_eq_Suc)

text \<open>An IPv6 prefix of one group.\<close>

lemma parse_ip_one_group:
  assumes "hex_span (ds @ ''::'') = (ds, ''::'')" and "ds \<noteq> []" and "length ds \<le> 4"
    and "parse_base 16 0 ds = Some g" and "take 2 (ds @ ''::'') \<noteq> ''::''"
    and "find (\<lambda>c. c \<in> {dot, colon, percent}) (ds @ ''::'') = Some colon" and "percent \<notin> set (ds @ ''::'')"
  shows "parse_ip (ds @ ''::'') = Some (group_bytes g @ replicate 14 0)"
proof -
  have eight: "8 = Suc 7" by simp
  have "parse6_groups 8 [] None (ds @ ''::'') = Some (group_bytes g, Some 2, [])"
    unfolding eight parse6_groups.simps(2) assms(1)
    using assms(2-4) by (simp add: dot_def colon_def group_bytes_def)
  moreover have "ds @ ''::'' \<noteq> ''::''" using assms(2) by auto
  ultimately have "parse6 (ds @ ''::'') = Some (group_bytes g @ replicate 14 0)"
    using assms(5) by (simp add: parse6_def expand6_def group_bytes_def)
  then show ?thesis
    unfolding parse_ip_def assms(6) using assms(7) by (simp add: dot_def colon_def percent_def)
qed

lemma parse_fe80: "parse_ip ''fe80::'' = Some [254, 128, 0, 0, 0, 0, 0, 0, 0, 0, 0, 0, 0, 0, 0, 0]"
proof -
  have "hex_span (''fe80'' @ ''::'') = (''fe80'', ''::'')" by code_simp
  moreover have "parse_base 16 0 ''fe80'' = Some 65152" by (simp add: digit_value_def)
  ultimately show ?thesis
    using parse_ip_one_group [of "''fe80''" 65152]
    by (simp add: group_bytes_def zeros14 dot_def colon_def percent_def)
qed

lemma parse_fd00: "parse_ip ''fd00::'' = Some [253, 0, 0, 0, 0, 0, 0, 0, 0, 0, 0, 0, 0, 0, 0, 0]"
proof -
  have "hex_span (''fd00'' @ ''::'') = (''fd00'', ''::'')" by code_simp
  moreover have "parse_base 16 0 ''fd00'' = Some 64768" by (simp add: digit_value_def)
  ultimately show ?thesis
    using parse_ip_one_group [of "''fd00''" 64768]
    by (simp add: group_bytes_def zeros14 dot_def colon_def percent_def)
qed

definition internal_nets :: ip_ctx where
  "internal_nets =
     [([10, 0, 0, 0], [255, 0, 0, 0]), ([172, 16, 0, 0], [255, 240, 0, 0]), ([192, 168, 0, 0], [255, 255, 0, 0]),
      ([127, 0, 0, 0], [255, 0, 0, 0]), ([169, 254, 0, 0], [255, 255, 0, 0]),
      ([0, 0, 0, 0, 0, 0, 0, 0, 0, 0, 0, 0, 0, 0, 0, 1], replicate 16 255),
      ([254, 128, 0, 0, 0, 0, 0, 0, 0, 0, 0, 0, 0, 0, 0, 0], 255 # 192 # replicate 14 0),
      ([253, 0, 0, 0, 0, 0, 0, 0, 0, 0, 0, 0, 0, 0, 0, 0], 255 # replicate 15 0)]"

lemma parse_default_v4:
  "parse_cidr ''10.0.0.0/8'' = Some ([10, 0, 0, 0], [255, 0, 0, 0])"
  "parse_cidr ''172.16.0.0/12'' = Some ([172, 16, 0, 0], [255, 240, 0, 0])"
  "parse_cidr ''192.168.0.0/16'' = Some ([192, 168, 0, 0], [255, 255, 0, 0])"
  "parse_cidr ''127.0.0.0/8'' = Some ([127, 0, 0, 0], [255, 0, 0, 0])"
  "parse_cidr ''169.254.0.0/16'' = Some ([169, 254, 0, 0], [255, 255, 0, 0])"
  by code_simp+

lemma parse_default_loopback:
  "parse_cidr ''::1/128'' = Some ([0, 0, 0, 0, 0, 0, 0, 0, 0, 0, 0, 0, 0, 0, 0, 1], replicate 16 255)"
  by code_simp

lemma default_masks:
  "cidr_mask 10 16 = 255 # 192 # replicate 14 0" "cidr_mask 8 16 = 255 # replicate 15 0"
  by (simp_all add: cidr_mask_def upt_rec zeros14 zeros15)

lemma parse_default_v6:
  "parse_cidr ''fe80::/10'' = Some ([254, 128, 0, 0, 0, 0, 0, 0, 0, 0, 0, 0, 0, 0, 0, 0], 255 # 192 # replicate 14 0)"
  "parse_cidr ''fd00::/8'' = Some ([253, 0, 0, 0, 0, 0, 0, 0, 0, 0, 0, 0, 0, 0, 0, 0], 255 # replicate 15 0)"
  by (simp_all add: parse_cidr_def parse_fe80 parse_fd00 default_masks Let_def digit_value_def ip_mask_def
      zeros14 zeros15 dot_def colon_def percent_def)

lemma NewIPCtx_default: "NewIPCtx default_cidrs = Some internal_nets"
  by (simp add: NewIPCtx_def default_cidrs_def internal_nets_def parse_default_v4 parse_default_loopback parse_default_v6)

section \<open>What the classifier accepts\<close>

text \<open>Masks of whole and partial bytes.\<close>

lemma and_255 [simp]: "and (x :: u8) 255 = x" "and 255 (x :: u8) = x"
proof -
  have m: "(255 :: u8) = -1" by simp
  show "and (x :: u8) 255 = x" "and 255 (x :: u8) = x"
    unfolding m by (simp_all only: and.right_neutral and.left_neutral)
qed

lemma and_240: "and (x :: u8) 240 = 16 \<longleftrightarrow> 16 \<le> x \<and> x < 32"
proof -
  have m: "(240 :: u8) = not (mask 4)" by (simp add: mask_eq_exp_minus_1)
  have "and x 240 = push_bit 4 (drop_bit 4 x)"
    unfolding m by (rule bit_eqI) (auto simp: bit_simps)
  also have "\<dots> = 16 \<longleftrightarrow> drop_bit 4 x = 1"
  proof
    assume "push_bit 4 (drop_bit 4 x) = 16"
    then have "drop_bit 4 (push_bit 4 (drop_bit 4 x)) = (drop_bit 4 16 :: u8)" by simp
    moreover have "drop_bit 4 (push_bit 4 (drop_bit 4 x)) = drop_bit 4 x"
      by (rule bit_eqI) (auto simp: bit_simps dest: bit_imp_le_length)
    ultimately show "drop_bit 4 x = 1" by simp
  qed (simp add: push_bit_eq_mult)
  also have "drop_bit 4 x = 1 \<longleftrightarrow> unat x div 16 = 1"
    proof -
    have "unat (drop_bit 4 x) = drop_bit 4 (unat x)"
      by (rule unat_drop_bit_eq)
    then have "unat (drop_bit 4 x) = unat x div 16"
      by (simp only: drop_bit_eq_div) simp
    then show ?thesis by (metis unat_1 unsigned_word_eqI)
  qed
  also have "\<dots> \<longleftrightarrow> 16 \<le> x \<and> x < 32"
    by (auto simp: word_le_nat_alt word_less_nat_alt)
  finally show ?thesis .
qed

lemma internal_v4:
  assumes "length a = 4"
  shows "Internal internal_nets (Some a) \<longleftrightarrow>
    a ! 0 \<in> {10, 127} \<or> a ! 0 = 172 \<and> 16 \<le> a ! 1 \<and> a ! 1 < 32 \<or> a ! 0 = 192 \<and> a ! 1 = 168 \<or>
    a ! 0 = 169 \<and> a ! 1 = 254 \<or> a ! 0 = 224 \<and> a ! 1 = 0 \<and> a ! 2 = 0"
proof -
  obtain b0 b1 b2 b3 where a: "a = [b0, b1, b2, b3]"
    using assms by (auto simp: length_Suc_conv numeral_eq_Suc)
  show ?thesis
    by (auto simp: a Internal_def internal_nets_def contains_def to4_def ip_mask_def is_loopback_def
        is_link_local_unicast_def is_link_local_multicast_def Let_def and_240)
qed

lemma internal_v6:
  assumes "length a = 16" and "to4 a = None"
  shows "Internal internal_nets (Some a) \<longleftrightarrow>
    a = replicate 15 0 @ [1] \<or> a ! 0 = 254 \<and> and (a ! 1) 192 = 128 \<or> a ! 0 = 253 \<or>
    a ! 0 = 255 \<and> and (a ! 1) 15 = 2"
proof -
  have v4: "\<not> contains (n, m) a" if "length n = 4" "length m = 4" for n m
    using that assms by (simp add: contains_def to4_def Let_def)
  have v6: "contains (n, m) a \<longleftrightarrow> ip_mask n m = ip_mask a m" if "to4 n = None" "length n = 16" "length m = 16" for n m
    using that assms by (simp add: contains_def Let_def)
  have one: "ip_mask xs (replicate 16 255) = xs" if "length xs = 16" for xs
    using that by (intro nth_equalityI) (simp_all add: ip_mask_def)
  have zeros: "map2 and (xs :: u8 list) (replicate n 0) = replicate n 0" if "length xs = n" for xs n
    using that by (intro nth_equalityI) simp_all
  obtain b0 b1 bs where a: "a = b0 # b1 # bs" "length bs = 14"
    using assms(1) by (auto simp: length_Suc_conv numeral_eq_Suc)
  have fe80: "ip_mask a (255 # 192 # replicate 14 0) = b0 # and b1 192 # replicate 14 0"
    and fd00: "ip_mask a (255 # replicate 15 0) = b0 # replicate 15 0"
    using a(2) by (simp_all add: a(1) ip_mask_def zeros)
  have nets: "ip_mask [254, 128, 0, 0, 0, 0, 0, 0, 0, 0, 0, 0, 0, 0, 0, 0] (255 # 192 # replicate 14 0) =
      [254, 128, 0, 0, 0, 0, 0, 0, 0, 0, 0, 0, 0, 0, 0, 0]"
    "ip_mask [253, 0, 0, 0, 0, 0, 0, 0, 0, 0, 0, 0, 0, 0, 0, 0] (255 # replicate 15 0) =
      [253, 0, 0, 0, 0, 0, 0, 0, 0, 0, 0, 0, 0, 0, 0, 0]"
    by (simp_all add: ip_mask_def zeros14 zeros15)
  have "contains ([0, 0, 0, 0, 0, 0, 0, 0, 0, 0, 0, 0, 0, 0, 0, 1], replicate 16 255) a \<longleftrightarrow> a = replicate 15 0 @ [1]"
    using assms(1) by (subst v6) (auto simp: to4_def one zeros15)
  moreover have "contains ([254, 128, 0, 0, 0, 0, 0, 0, 0, 0, 0, 0, 0, 0, 0, 0], 255 # 192 # replicate 14 0) a \<longleftrightarrow>
      b0 = 254 \<and> and b1 192 = 128"
    by (subst v6) (simp_all add: to4_def fe80 nets, simp add: zeros14)
  moreover have "contains ([253, 0, 0, 0, 0, 0, 0, 0, 0, 0, 0, 0, 0, 0, 0, 0], 255 # replicate 15 0) a \<longleftrightarrow> b0 = 253"
    by (subst v6) (simp_all add: to4_def fd00 nets, simp add: zeros15)
  moreover have "a ! 0 = b0" "a ! Suc 0 = b1" by (simp_all add: a(1))
  ultimately show ?thesis
    using assms by (simp add: Internal_def internal_nets_def v4 is_loopback_def is_link_local_unicast_def
        is_link_local_multicast_def) blast
qed

section \<open>Properties\<close>

text \<open>
  The default networks parse, and with them an IPv4 address is internal
  exactly if it is in 10/8, 127/8, 172.16/12, 192.168/16, 169.254/16 or 224.0.0/24, and an
  IPv6 address that does not embed one exactly if it is ::1 or in fe80::/10, fd00::/8 or a
  link-local multicast group.
\<close>

theorem default_networks:
  "\<exists>nets. NewIPCtx default_cidrs = Some nets \<and>
    (length a = 4 \<longrightarrow>
      (Internal nets (Some a) \<longleftrightarrow>
        a ! 0 \<in> {10, 127} \<or> a ! 0 = 172 \<and> 16 \<le> a ! 1 \<and> a ! 1 < 32 \<or> a ! 0 = 192 \<and> a ! 1 = 168 \<or>
        a ! 0 = 169 \<and> a ! 1 = 254 \<or> a ! 0 = 224 \<and> a ! 1 = 0 \<and> a ! 2 = 0)) \<and>
    (length a = 16 \<and> to4 a = None \<longrightarrow>
      (Internal nets (Some a) \<longleftrightarrow>
        a = replicate 15 0 @ [1] \<or> a ! 0 = 254 \<and> and (a ! 1) 192 = 128 \<or> a ! 0 = 253 \<or>
        a ! 0 = 255 \<and> and (a ! 1) 15 = 2))"
  using NewIPCtx_default internal_v4 internal_v6 by blast

theorem default_networks_witness:
  "\<exists>nets. NewIPCtx default_cidrs = Some nets \<and> Internal nets (Some [172, 31, 0, 1]) \<and>
    \<not> Internal nets (Some [8, 8, 8, 8])"
  using default_networks [of "[172, 31, 0, 1]"] default_networks [of "[8, 8, 8, 8]"] NewIPCtx_default by auto

end
