(* ===== verification/Detect.thy ===== *)
theory Detect
  imports Config Dedupe Util Go_Num Go_Syntax "HOL-Library.List_Lexorder" "HOL-Library.Char_ord"
begin

text \<open>
  \<^verbatim>\<open>internal/detect/detect.go\<close>: the engine that escalates a monitor's event by regular
  expression rules, known file names, world-writable directories, login correlation and the
  classification of network ends. Strings are compared byte by byte, which is the order of
  \<^verbatim>\<open>List_Lexorder\<close> over \<^verbatim>\<open>Char_ord\<close>. \<^verbatim>\<open>regexp.Compile\<close> is a parameter: it maps a pattern to a
  predicate on texts, or to an error; \<^verbatim>\<open>Rule_Patterns\<close> relates it to the syntax of \<^verbatim>\<open>Go_Syntax\<close>.
\<close>

section \<open>Rules\<close>

definition TargetProcess :: string where "TargetProcess = ''process''"
definition TargetPath :: string where "TargetPath = ''path''"
definition TargetLine :: string where "TargetLine = ''line''"
definition TargetAny :: string where "TargetAny = ''any''"

record rule =
  r_id :: string
  r_title :: string
  r_technique :: string
  r_category :: string
  r_target :: string
  r_matches :: "string \<Rightarrow> bool"
  r_severity :: severity

record rule_def =
  rd_id :: string
  rd_title :: string
  rd_technique :: string
  rd_category :: string
  rd_target :: string
  rd_pattern :: string
  rd_severity :: severity

type_synonym compile = "string \<Rightarrow> (string \<Rightarrow> bool) option"

definition buildRule :: "compile \<Rightarrow> rule_def \<Rightarrow> rule option" where
  "buildRule compile d =
     map_option (\<lambda>m. \<lparr>r_id = rd_id d, r_title = rd_title d, r_technique = rd_technique d,
         r_category = rd_category d, r_target = rd_target d, r_matches = m, r_severity = rd_severity d\<rparr>)
       (compile (rd_pattern d))"

text \<open>The pattern for a known attacker tool: \<^verbatim>\<open>(?i)(^|[\\/])NAME(\.[a-z0-9]{1,5})?$\<close>.\<close>

definition file_pattern :: "string \<Rightarrow> string" where
  "file_pattern name =
     ''(?i)(^|['' @ backslash @ backslash @ ''/])'' @ QuoteMeta name @ ''('' @ backslash @ ''.[a-z0-9]{1,5})?$''"

definition file_rule :: "compile \<Rightarrow> string \<Rightarrow> rule option" where
  "file_rule compile name =
     map_option (\<lambda>m. \<lparr>r_id = ''badfile-'' @ name, r_title = ''Known attacker tool: '' @ name, r_technique = ''T1587'',
         r_category = [], r_target = TargetAny, r_matches = m, r_severity = High\<rparr>)
       (compile (file_pattern name))"

section \<open>The engine\<close>

record engine =
  en_rules :: "rule list"
  en_file_rules :: "rule list"
  en_brute :: threshold
  en_cfg :: config
  en_ipc :: "ip_ctx option"
  en_susp_ports :: "int list"

text \<open>A rule of the configuration as a definition, or \<open>None\<close> for an unknown severity.\<close>

definition custom_rule :: "rule_config \<Rightarrow> rule_def option" where
  "custom_rule c =
     (case parse_severity (rc_severity c) of (sev, ok) \<Rightarrow>
        if ok then Some \<lparr>rd_id = rc_id c,
            rd_title = (if rc_title c = [] then ''custom rule match: '' @ rc_id c else rc_title c),
            rd_technique = rc_technique c, rd_category = rc_category c,
            rd_target = (if rc_target c = [] then TargetProcess else rc_target c),
            rd_pattern = rc_pattern c, rd_severity = sev\<rparr>
        else None)"

definition brute_levels :: "config \<Rightarrow> threshold_level list" where
  "brute_levels cfg =
     [\<lparr>tl_count = cf_brute_fire_count cfg, tl_severity = Medium, tl_title = ''SSH brute force suspected''\<rparr>,
      \<lparr>tl_count = cf_brute_force_high_cnt cfg, tl_severity = High, tl_title = ''SSH brute force in progress''\<rparr>]"

definition NewEngine :: "compile \<Rightarrow> rule_def list \<Rightarrow> config \<Rightarrow> engine option" where
  "NewEngine compile builtinRules cfg =
     (case those (map (buildRule compile) (filter (\<lambda>d. rd_id d \<notin> set (cf_disabled cfg)) builtinRules)) of
        None \<Rightarrow> None
      | Some builtin \<Rightarrow>
          (case those (map (\<lambda>c. Option.bind (custom_rule c) (buildRule compile))
                 (filter (\<lambda>c. rc_pattern c \<noteq> []) (cf_rules cfg))) of
             None \<Rightarrow> None
           | Some custom \<Rightarrow>
               (case those (map (file_rule compile) (cf_known_bad_files cfg)) of
                  None \<Rightarrow> None
                | Some files \<Rightarrow>
                    Some \<lparr>en_rules = builtin @ custom,
                      en_file_rules = files,
                      en_brute = new_threshold (cf_brute_force_window cfg) (brute_levels cfg),
                      en_cfg = cfg,
                      en_ipc = NewIPCtx (cf_internal_cidr cfg),
                      en_susp_ports = cf_suspicious_ports cfg\<rparr>)))"

definition haystackKey :: "string \<Rightarrow> string" where
  "haystackKey s = (if length s > 80 then take 80 s else s)"

section \<open>Rule matching\<close>

text \<open>The conditions under which the loop over the rules does not \<^verbatim>\<open>continue\<close>.\<close>

definition applies :: "event \<Rightarrow> string \<Rightarrow> string \<Rightarrow> rule \<Rightarrow> bool" where
  "applies ev target haystack r \<longleftrightarrow>
     (r_category r = [] \<or> r_category r = e_category ev) \<and>
     (r_target r = TargetAny \<or> r_target r = target) \<and> r_matches r haystack"

definition better :: "rule \<Rightarrow> rule \<Rightarrow> bool" where
  "better r b \<longleftrightarrow> r_severity r > r_severity b \<or> r_severity r = r_severity b \<and> r_id r < r_id b"

fun best_rule :: "event \<Rightarrow> string \<Rightarrow> string \<Rightarrow> rule option \<Rightarrow> rule list \<Rightarrow> rule option" where
  "best_rule ev target haystack best [] = best"
| "best_rule ev target haystack best (r # rs) =
     best_rule ev target haystack
       (if applies ev target haystack r \<and> (case best of None \<Rightarrow> True | Some b \<Rightarrow> better r b) then Some r else best) rs"

fun best_file_rule :: "string \<Rightarrow> rule option \<Rightarrow> rule list \<Rightarrow> rule option" where
  "best_file_rule haystack best [] = best"
| "best_file_rule haystack best (r # rs) =
     best_file_rule haystack
       (if r_matches r haystack \<and> (case best of None \<Rightarrow> True | Some b \<Rightarrow> r_severity r > r_severity b)
        then Some r else best) rs"

definition winner :: "engine \<Rightarrow> event \<Rightarrow> string \<Rightarrow> string \<Rightarrow> rule option" where
  "winner e ev target haystack =
     best_file_rule haystack (best_rule ev target haystack None (en_rules e)) (en_file_rules e)"

definition escalate :: "rule \<Rightarrow> string \<Rightarrow> event \<Rightarrow> event" where
  "escalate best haystack ev =
     ev\<lparr>e_title := r_title best, e_severity := r_severity best,
        e_technique := (if r_technique best \<noteq> [] then r_technique best else e_technique ev),
        e_key := (if e_key ev = [] then r_id best @ ''/'' @ haystackKey haystack else e_key ev)\<rparr>"

definition applyRules :: "engine \<Rightarrow> string \<Rightarrow> string \<Rightarrow> event \<Rightarrow> event" where
  "applyRules e target haystack ev =
     (if haystack = [] then ev
      else
        case winner e ev target haystack of
          None \<Rightarrow> ev
        | Some best \<Rightarrow> if r_severity best > e_severity ev then escalate best haystack ev else ev)"

section \<open>Heuristics\<close>

definition world_writable :: "string list" where
  "world_writable = [''/tmp/'', ''/dev/shm/'', ''/var/tmp/'', ''/run/shm/'']"

definition checkWorldWritable :: "event \<Rightarrow> event" where
  "checkWorldWritable ev =
     (let exe = field_of ev ''exe''; uid = field_of ev ''uid'' in
      if exe = [] \<or> (uid \<noteq> ''0'' \<and> \<not> go_has_prefix uid ''0 '') then ev
      else if list_ex (go_has_prefix exe) world_writable then
        (if e_severity ev < High then
           ev\<lparr>e_severity := High, e_title := ''root executed binary from world-writable dir'',
              e_technique := ''T1068'', e_key := ''wwx/'' @ exe\<rparr>
         else ev)
      else ev)"

definition correlateAuth :: "engine \<Rightarrow> event \<Rightarrow> event list \<times> engine" where
  "correlateAuth e ev =
     (let src = field_of ev ''src_ip'' in
      if field_of ev ''auth'' \<noteq> ''fail'' \<or> src = [] then ([], e)
      else
        case hit src (e_time ev) (en_brute e) of (lv, brute) \<Rightarrow>
          let e = e\<lparr>en_brute := brute\<rparr> in
          case lv of
            None \<Rightarrow> ([], e)
          | Some lv \<Rightarrow>
              ([\<lparr>e_time = e_time ev, e_severity = tl_severity lv, e_category = CatAuth, e_title = tl_title lv,
                 e_message = itoa (tl_count lv) @ '' failed logins from '' @ src @ '' within ''
                   @ duration_string (cf_brute_force_window (en_cfg e))
                   @ '' (last user: '' @ field_of ev ''user'' @ '')'',
                 e_fields = Some [''src_ip'' \<mapsto> src], e_technique = ''T1110'', e_host = [],
                 e_key = ''bruteforce/'' @ src\<rparr>], e))"

definition classifyNet :: "engine \<Rightarrow> event \<Rightarrow> event" where
  "classifyNet e ev =
     (case en_ipc e of
        None \<Rightarrow> ev
      | Some ipc \<Rightarrow>
          let port = fst (atoi (field_of ev ''port'')); dst = field_of ev ''dst_ip'' in
          case parse_ip dst of
            None \<Rightarrow> ev
          | Some ip \<Rightarrow>
              let ip = (case to4 ip of Some ip4 \<Rightarrow> ip4 | None \<Rightarrow> ip);
                  external = (\<not> Internal ipc (Some ip));
                  root = (field_of ev ''uid'' = ''0'');
                  suspicious = (port \<in> set (en_susp_ports e)) in
              if field_of ev ''action'' = ''connect'' then
                (if suspicious then
                   ev\<lparr>e_severity := Critical, e_title := ''Connection to suspicious port'',
                      e_technique := ''T1571'', e_key := ''suspconn/'' @ dst @ ''/'' @ itoa port\<rparr>
                 else if external \<and> root then
                   ev\<lparr>e_severity := High, e_title := ''Root process connected to external network'',
                      e_technique := ''T1071'', e_key := ''extconn/'' @ dst\<rparr>
                 else if external then
                   ev\<lparr>e_severity := Medium, e_title := ''Outbound connection to external network'',
                      e_key := ''extconn/'' @ dst\<rparr>
                 else ev)
              else if field_of ev ''action'' = ''bind'' then
                (if suspicious then
                   ev\<lparr>e_severity := High, e_title := ''Socket bound to suspicious port'',
                      e_technique := ''T1571'', e_key := ''suspbind/'' @ itoa port\<rparr>
                 else ev)
              else ev)"

definition passThrough :: "engine \<Rightarrow> event \<Rightarrow> bool" where
  "passThrough e ev = (if e_category ev = CatProcess then LogAllProcessEvents (en_cfg e) else True)"

definition Evaluate :: "engine \<Rightarrow> event \<Rightarrow> event list \<times> engine" where
  "Evaluate e ev =
     (case
        (if e_category ev = CatProcess then
           let ev = applyRules e TargetProcess
             (go_trim_space (field_of ev ''exe'' @ '' '' @ field_of ev ''cmdline'')) ev in
           ([], checkWorldWritable ev, e)
         else if e_category ev = CatFile then
           ([], applyRules e TargetPath (field_of ev ''path'') ev, e)
         else if e_category ev = CatAuth then
           let ev = applyRules e TargetLine (e_message ev) ev in
           (case correlateAuth e ev of (found, e) \<Rightarrow> (found, ev, e))
         else if e_category ev = CatNetwork then ([], classifyNet e ev, e)
         else ([], ev, e))
      of (out, ev, e) \<Rightarrow>
        (if e_severity ev > Info \<or> passThrough e ev then out @ [ev] else out, e))"

end
