(* ===== verification/Rules.thy ===== *)
theory Rules
  imports Detect
begin

text \<open>
  The rules elmer ships with, \<^verbatim>\<open>internal/detect/rules.go\<close>, in the order and the groups of the
  source. A pattern is the text that \<^verbatim>\<open>regexp.Compile\<close> gets.
\<close>

definition quote :: string where "quote = [char_of (34 :: nat)]"
definition apostrophe :: string where "apostrophe = [char_of (39 :: nat)]"

section \<open>Reverse shells\<close>

definition reverse_shell_rules :: "rule_def list" where
  "reverse_shell_rules =
    [\<lparr>rd_id = ''rshell-devtcp'', rd_title = ''Reverse shell (bash /dev/tcp)'', rd_technique = ''T1059.004'',
       rd_category = [], rd_target = TargetProcess,
       rd_pattern = ''(?i)(bash|sh|zsh|dash|ksh)[^'' @ backslash @ ''n]{0,60}-i[^'' @ backslash
            @ ''n]{0,60}(/dev/(tcp|udp)/|>&'' @ backslash @ ''s*/dev/(tcp|udp))'',
       rd_severity = Critical\<rparr>,
     \<lparr>rd_id = ''rshell-netcat'', rd_title = ''Reverse shell (netcat -e)'', rd_technique = ''T1059.004'',
       rd_category = [], rd_target = TargetProcess,
       rd_pattern = ''(?i)'' @ backslash @ ''bnc(at)?'' @ backslash @ ''b[^'' @ backslash @ ''n|]{0,80}''
            @ backslash @ ''s-e'' @ backslash @ ''s+'',
       rd_severity = Critical\<rparr>,
     \<lparr>rd_id = ''rshell-socat'', rd_title = ''Reverse shell / relay (socat)'', rd_technique = ''T1059.004'',
       rd_category = [], rd_target = TargetProcess,
       rd_pattern = ''(?i)'' @ backslash @ ''bsocat'' @ backslash @ ''b[^'' @ backslash
            @ ''n]{0,120}(exec:|SYSTEM:|TCP:.*fork)'',
       rd_severity = Critical\<rparr>,
     \<lparr>rd_id = ''rshell-python'', rd_title = ''Reverse shell (python)'', rd_technique = ''T1059.006'',
       rd_category = [], rd_target = TargetProcess,
       rd_pattern = ''(?i)'' @ backslash @ ''bpython[23]?'' @ backslash @ ''b[^'' @ backslash @ ''n]{0,200}(pty''
            @ backslash @ ''.spawn|socket'' @ backslash @ ''.socket|subprocess'' @ backslash @ ''.call''
            @ backslash @ ''('' @ backslash @ ''s*'' @ backslash @ ''[?'' @ backslash @ ''s*[''
            @ apostrophe @ quote @ '']/bin/(ba)?sh)'',
       rd_severity = Critical\<rparr>,
     \<lparr>rd_id = ''rshell-perl'', rd_title = ''Reverse shell (perl)'', rd_technique = ''T1059.006'',
       rd_category = [], rd_target = TargetProcess,
       rd_pattern = ''(?i)'' @ backslash @ ''bperl'' @ backslash @ ''b[^'' @ backslash @ ''n]{0,40}'' @ backslash
            @ ''s-e[^'' @ backslash @ ''n]{0,200}(IO::Socket|socket'' @ backslash @ ''(|exec'' @ backslash
            @ ''s*'' @ backslash @ ''(|/bin/(ba)?sh)'',
       rd_severity = Critical\<rparr>,
     \<lparr>rd_id = ''rshell-ruby'', rd_title = ''Reverse shell (ruby)'', rd_technique = ''T1059.006'',
       rd_category = [], rd_target = TargetProcess,
       rd_pattern = ''(?i)'' @ backslash @ ''bruby'' @ backslash @ ''b[^'' @ backslash @ ''n]{0,60}(-rsocket|-e[^''
            @ backslash @ ''n]{0,200}(TCPSocket|fsockopen))'',
       rd_severity = Critical\<rparr>,
     \<lparr>rd_id = ''rshell-php'', rd_title = ''Reverse shell (php)'', rd_technique = ''T1059.008'',
       rd_category = [], rd_target = TargetProcess,
       rd_pattern = ''(?i)'' @ backslash @ ''bphp'' @ backslash @ ''b[^'' @ backslash @ ''n]{0,30}'' @ backslash
            @ ''s-r[^'' @ backslash @ ''n]{0,200}(fsockopen|socket_create|exec'' @ backslash @ ''s*''
            @ backslash @ ''('' @ backslash @ ''s*['' @ apostrophe @ quote @ '']/bin/(ba)?sh)'',
       rd_severity = Critical\<rparr>,
     \<lparr>rd_id = ''rshell-mkfifo'', rd_title = ''FIFO reverse shell'', rd_technique = ''T1059.004'',
       rd_category = [], rd_target = TargetProcess,
       rd_pattern = ''(?i)mkfifo[^'' @ backslash @ ''n|]{0,100}(|'' @ backslash @ ''||;)[^'' @ backslash
            @ ''n]{0,100}(/bin/(ba)?sh|sh'' @ backslash @ ''s+-i)'',
       rd_severity = Critical\<rparr>,
     \<lparr>rd_id = ''ps-enc'', rd_title = ''Encoded PowerShell command'', rd_technique = ''T1027'',
       rd_category = [], rd_target = TargetProcess,
       rd_pattern = ''(?i)powershell(.exe)?[^'' @ backslash @ ''n]{0,120}-e(nc(odedcommand)?)?'' @ backslash
            @ ''s+[A-Za-z0-9+/=]{20,}'',
       rd_severity = High\<rparr>,
     \<lparr>rd_id = ''download-exec'', rd_title = ''Downloaded script piped to shell'', rd_technique = ''T1059.004'',
       rd_category = [], rd_target = TargetProcess,
       rd_pattern = ''(?i)(curl|wget)[^'' @ backslash @ ''n|]{0,200}'' @ backslash @ ''|'' @ backslash
            @ ''s*(sudo'' @ backslash @ ''s+)?(ba|z|da|k)?sh'' @ backslash @ ''b'',
       rd_severity = High\<rparr>,
     \<lparr>rd_id = ''download-shm'', rd_title = ''Download into /dev/shm'', rd_technique = ''T1105'',
       rd_category = [], rd_target = TargetProcess,
       rd_pattern = ''(?i)(curl|wget)[^'' @ backslash @ ''n]{0,150}(-o'' @ backslash @ ''s+|--output[-a-z]*''
            @ backslash @ ''s+)?/dev/shm/'',
       rd_severity = High\<rparr>]"

section \<open>Tunnels\<close>

definition tunnel_rules :: "rule_def list" where
  "tunnel_rules =
    [\<lparr>rd_id = ''tunnel-chisel'', rd_title = ''Chisel tunnel tool'', rd_technique = ''T1090'',
       rd_category = [], rd_target = TargetProcess,
       rd_pattern = ''(?i)(^|['' @ backslash @ backslash @ ''/])chisel('' @ backslash @ ''.exe)?('' @ backslash
            @ ''s|$)'',
       rd_severity = Critical\<rparr>,
     \<lparr>rd_id = ''tunnel-frp'', rd_title = ''FRP tunnel tool'', rd_technique = ''T1090'',
       rd_category = [], rd_target = TargetProcess,
       rd_pattern = ''(?i)(^|['' @ backslash @ backslash @ ''/])frp[cs]('' @ backslash @ ''s|$)'',
       rd_severity = Critical\<rparr>,
     \<lparr>rd_id = ''tunnel-ngrok'', rd_title = ''ngrok tunnel'', rd_technique = ''T1090'',
       rd_category = [], rd_target = TargetProcess,
       rd_pattern = ''(?i)(^|['' @ backslash @ backslash @ ''/])ngrok('' @ backslash @ ''s|$)'',
       rd_severity = High\<rparr>,
     \<lparr>rd_id = ''tunnel-socat-listen'', rd_title = ''socat listener/relay'', rd_technique = ''T1090'',
       rd_category = [], rd_target = TargetProcess,
       rd_pattern = ''(?i)'' @ backslash @ ''bsocat'' @ backslash @ ''b[^'' @ backslash @ ''n]{0,120}TCP-LISTEN'',
       rd_severity = High\<rparr>,
     \<lparr>rd_id = ''tunnel-ssh-forward'', rd_title = ''SSH port forward / SOCKS proxy'', rd_technique = ''T1572'',
       rd_category = [], rd_target = TargetProcess,
       rd_pattern = ''(?i)'' @ backslash @ ''bssh'' @ backslash @ ''b[^'' @ backslash @ ''n]{0,80}'' @ backslash
            @ ''s-'' @ backslash @ ''w*[DLR]'' @ backslash @ ''b'',
       rd_severity = Medium\<rparr>,
     \<lparr>rd_id = ''tunnel-dns'', rd_title = ''DNS tunneling tool'', rd_technique = ''T1071.004'',
       rd_category = [], rd_target = TargetProcess,
       rd_pattern = ''(?i)(^|['' @ backslash @ backslash @ ''/])(iodine|dnscat2?)('' @ backslash @ ''s|$)'',
       rd_severity = Critical\<rparr>]"

section \<open>Credential access\<close>

definition credential_rules :: "rule_def list" where
  "credential_rules =
    [\<lparr>rd_id = ''cred-mimikatz'', rd_title = ''Mimikatz'', rd_technique = ''T1003.001'',
       rd_category = [], rd_target = TargetAny,
       rd_pattern = ''(?i)mimikatz'',
       rd_severity = Critical\<rparr>,
     \<lparr>rd_id = ''cred-shadow-read'', rd_title = ''/etc/shadow accessed'', rd_technique = ''T1003.008'',
       rd_category = [], rd_target = TargetProcess,
       rd_pattern = ''(?i)'' @ backslash
            @ ''b(cat|cp|mv|chmod|chown|less|more|head|tail|vim|vi|nano|base64|xxd|strings|grep|awk|python[23]?)''
            @ backslash @ ''b[^'' @ backslash @ ''n]{0,80}/etc/shadow'',
       rd_severity = High\<rparr>,
     \<lparr>rd_id = ''cred-lsass'', rd_title = ''LSASS memory dump'', rd_technique = ''T1003.001'',
       rd_category = [], rd_target = TargetProcess,
       rd_pattern = ''(?i)(procdump[^'' @ backslash @ ''n]{0,80}-ma[^'' @ backslash
            @ ''n]{0,80}lsass|(comsvcs|dbg'' @ backslash @ ''.core)'' @ backslash @ ''.dll[^'' @ backslash
            @ ''n]{0,80}(MiniDump|24)|rundll32[^'' @ backslash @ ''n]{0,120}comsvcs'' @ backslash
            @ ''.dll,'' @ backslash @ ''s*MiniDump)'',
       rd_severity = Critical\<rparr>,
     \<lparr>rd_id = ''cred-regsave'', rd_title = ''SAM/SYSTEM registry hive dump'', rd_technique = ''T1003.002'',
       rd_category = [], rd_target = TargetProcess,
       rd_pattern = ''(?i)'' @ backslash @ ''breg'' @ backslash @ ''b[^'' @ backslash @ ''n]{0,60}'' @ backslash
            @ ''bsave'' @ backslash @ ''b[^'' @ backslash @ ''n]{0,80}(HKLM|hklm)[^'' @ backslash
            @ ''n]{0,40}(sam|system|security)'',
       rd_severity = Critical\<rparr>,
     \<lparr>rd_id = ''cred-vssadmin'', rd_title = ''Shadow copy deletion'', rd_technique = ''T1490'',
       rd_category = [], rd_target = TargetProcess,
       rd_pattern = ''(?i)'' @ backslash @ ''bvssadmin'' @ backslash @ ''b[^'' @ backslash @ ''n]{0,60}delete''
            @ backslash @ ''s+shadows'',
       rd_severity = Critical\<rparr>,
     \<lparr>rd_id = ''cred-ntds'', rd_title = ''NTDS/secrets dump'', rd_technique = ''T1003.003'',
       rd_category = [], rd_target = TargetAny,
       rd_pattern = ''(?i)(ntdsutil|secretsdump|hashdump)'' @ backslash @ ''b'',
       rd_severity = Critical\<rparr>,
     \<lparr>rd_id = ''cred-hashcat'', rd_title = ''Credential cracking'', rd_technique = ''T1110'',
       rd_category = [], rd_target = TargetProcess,
       rd_pattern = ''(?i)(^|['' @ backslash @ backslash @ ''/])(hashcat|john|hydra|medusa)('' @ backslash
            @ ''s|$)'',
       rd_severity = High\<rparr>]"

section \<open>LOLBins / living off the land\<close>

definition lolbin_rules :: "rule_def list" where
  "lolbin_rules =
    [\<lparr>rd_id = ''lol-certutil'', rd_title = ''certutil download'', rd_technique = ''T1105'',
       rd_category = [], rd_target = TargetProcess,
       rd_pattern = ''(?i)'' @ backslash @ ''bcertutil'' @ backslash @ ''b[^'' @ backslash
            @ ''n]{0,120}(-urlcache|-verifyctl)'' @ backslash @ ''s'',
       rd_severity = High\<rparr>,
     \<lparr>rd_id = ''lol-bitsadmin'', rd_title = ''bitsadmin transfer'', rd_technique = ''T1105'',
       rd_category = [], rd_target = TargetProcess,
       rd_pattern = ''(?i)'' @ backslash @ ''bbitsadmin'' @ backslash @ ''b[^'' @ backslash
            @ ''n]{0,120}/(transfer|create)'',
       rd_severity = High\<rparr>,
     \<lparr>rd_id = ''lol-mshta'', rd_title = ''mshta remote/script execution'', rd_technique = ''T1218.005'',
       rd_category = [], rd_target = TargetProcess,
       rd_pattern = ''(?i)'' @ backslash @ ''bmshta'' @ backslash @ ''b[^'' @ backslash
            @ ''n]{0,160}(https?://|javascript:|vbscript:)'',
       rd_severity = High\<rparr>,
     \<lparr>rd_id = ''lol-rundll32'', rd_title = ''rundll32 script/remote execution'', rd_technique = ''T1218.011'',
       rd_category = [], rd_target = TargetProcess,
       rd_pattern = ''(?i)'' @ backslash @ ''brundll32'' @ backslash @ ''b[^'' @ backslash
            @ ''n]{0,160}(javascript:|https?://)'',
       rd_severity = High\<rparr>,
     \<lparr>rd_id = ''lol-regsvr32'', rd_title = ''regsvr32 scriptlet execution'', rd_technique = ''T1218.010'',
       rd_category = [], rd_target = TargetProcess,
       rd_pattern = ''(?i)'' @ backslash @ ''bregsvr32'' @ backslash @ ''b[^'' @ backslash
            @ ''n]{0,120}/i:https?://'',
       rd_severity = High\<rparr>,
     \<lparr>rd_id = ''lol-msbuild'', rd_title = ''msbuild remote/project build'', rd_technique = ''T1127.001'',
       rd_category = [], rd_target = TargetProcess,
       rd_pattern = ''(?i)'' @ backslash @ ''bmsbuild'' @ backslash @ ''b[^'' @ backslash
            @ ''n]{0,120}(https?://|'' @ backslash @ backslash @ ''AppData'' @ backslash @ backslash
            @ ''|/tmp/)'',
       rd_severity = Medium\<rparr>]"

section \<open>Persistence actions\<close>

definition persistence_rules :: "rule_def list" where
  "persistence_rules =
    [\<lparr>rd_id = ''persist-useradd'', rd_title = ''User account created'', rd_technique = ''T1136.001'',
       rd_category = [], rd_target = TargetProcess,
       rd_pattern = ''(?i)(^|['' @ backslash @ backslash @ ''/])(useradd|adduser)('' @ backslash @ ''s|$)'',
       rd_severity = Critical\<rparr>,
     \<lparr>rd_id = ''persist-usermod'', rd_title = ''Account modified (usermod)'', rd_technique = ''T1136'',
       rd_category = [], rd_target = TargetProcess,
       rd_pattern = ''(?i)'' @ backslash @ ''busermod'' @ backslash @ ''b[^'' @ backslash
            @ ''n]{0,120}(-u|-g|-G|-a|-s|root|wheel|sudo|0)'',
       rd_severity = Critical\<rparr>,
     \<lparr>rd_id = ''persist-netuser'', rd_title = ''Windows user account created'', rd_technique = ''T1136.001'',
       rd_category = [], rd_target = TargetProcess,
       rd_pattern = ''(?i)'' @ backslash @ ''bnet'' @ backslash @ ''s+(user|localgroup)[^'' @ backslash
            @ ''n]{0,120}/add'' @ backslash @ ''b'',
       rd_severity = Critical\<rparr>,
     \<lparr>rd_id = ''persist-schtasks'', rd_title = ''Scheduled task created'', rd_technique = ''T1053.005'',
       rd_category = [], rd_target = TargetProcess,
       rd_pattern = ''(?i)(^|['' @ backslash @ backslash @ ''/])schtasks('' @ backslash @ ''.exe)?[^'' @ backslash
            @ ''n]{0,160}/create'' @ backslash @ ''b'',
       rd_severity = High\<rparr>,
     \<lparr>rd_id = ''persist-crontab'', rd_title = ''crontab modified'', rd_technique = ''T1053.003'',
       rd_category = [], rd_target = TargetProcess,
       rd_pattern = ''(?i)'' @ backslash @ ''bcrontab'' @ backslash @ ''b[^'' @ backslash
            @ ''n]{0,80}(-e|--edit|-r|--remove|-l'' @ backslash @ ''s*>|/tmp/)'',
       rd_severity = High\<rparr>,
     \<lparr>rd_id = ''persist-chmod-suid'', rd_title = ''SUID/SGID bit set via chmod'', rd_technique = ''T1548.001'',
       rd_category = [], rd_target = TargetProcess,
       rd_pattern = ''(?i)'' @ backslash @ ''bchmod'' @ backslash @ ''b'' @ backslash @ ''s+(-[a-zA-Z]+''
            @ backslash @ ''s+)*[0-7]{0,2}[2-7][0-7]{3}'' @ backslash @ ''b|'' @ backslash @ ''bchmod''
            @ backslash @ ''b[^'' @ backslash @ ''n]{0,80}'' @ backslash @ ''+[ug]*s'' @ backslash @ ''b'',
       rd_severity = High\<rparr>,
     \<lparr>rd_id = ''persist-setcap'', rd_title = ''Dangerous capability granted (setcap)'', rd_technique = ''T1548'',
       rd_category = [], rd_target = TargetProcess,
       rd_pattern = ''(?i)'' @ backslash @ ''bsetcap'' @ backslash @ ''b[^'' @ backslash
            @ ''n]{0,120}(cap_setuid|cap_net_admin|cap_sys_ptrace|cap_dac_override)'',
       rd_severity = High\<rparr>,
     \<lparr>rd_id = ''persist-at-job'', rd_title = ''at job scheduled'', rd_technique = ''T1053.002'',
       rd_category = [], rd_target = TargetProcess,
       rd_pattern = ''(?i)(^|['' @ backslash @ backslash @ ''/])at('' @ backslash @ ''.exe)?'' @ backslash
            @ ''s+-[fm]'' @ backslash @ ''s|(^|['' @ backslash @ backslash @ ''/])atq('' @ backslash
            @ ''s|$)'',
       rd_severity = High\<rparr>]"

section \<open>Anti-forensics\<close>

definition antiforensics_rules :: "rule_def list" where
  "antiforensics_rules =
    [\<lparr>rd_id = ''antiforensics-history'', rd_title = ''Shell history cleared'', rd_technique = ''T1070.003'',
       rd_category = [], rd_target = TargetProcess,
       rd_pattern = ''(?i)(history'' @ backslash @ ''s+-c'' @ backslash @ ''b|unset'' @ backslash
            @ ''s+HISTFILE|export'' @ backslash @ ''s+HISTFILE=/dev/null)'',
       rd_severity = Medium\<rparr>,
     \<lparr>rd_id = ''antiforensics-shred'', rd_title = ''Log/file destruction'', rd_technique = ''T1070'',
       rd_category = [], rd_target = TargetProcess,
       rd_pattern = ''(?i)('' @ backslash @ ''brm'' @ backslash @ ''b[^'' @ backslash @ ''n]{0,120}('' @ backslash
            @ ''.bash_history|/var/log/)|'' @ backslash @ ''bshred'' @ backslash @ ''b|'' @ backslash
            @ ''bwipe'' @ backslash @ ''b|'' @ backslash @ ''bchattr'' @ backslash @ ''b[^'' @ backslash
            @ ''n]{0,40}[+-]i'' @ backslash @ ''b|wevtutil[^'' @ backslash @ ''n]{0,80}cl'' @ backslash
            @ ''b)'',
       rd_severity = High\<rparr>]"

section \<open>Recon from this host\<close>

definition recon_rules :: "rule_def list" where
  "recon_rules =
    [\<lparr>rd_id = ''recon-nmap'', rd_title = ''Network scanner run from this host'', rd_technique = ''T1046'',
       rd_category = [], rd_target = TargetProcess,
       rd_pattern = ''(?i)(^|['' @ backslash @ backslash @ ''/])(nmap|masscan|zmap|naabu)('' @ backslash @ ''s|$)'',
       rd_severity = Medium\<rparr>,
     \<lparr>rd_id = ''recon-whoami-priv'', rd_title = ''Privilege enumeration'', rd_technique = ''T1033'',
       rd_category = [], rd_target = TargetProcess,
       rd_pattern = ''(?i)'' @ backslash @ ''bwhoami'' @ backslash @ ''b'' @ backslash @ ''s+/priv|'' @ backslash
            @ ''bid'' @ backslash @ ''b'' @ backslash @ ''s+(-a|--all)|'' @ backslash @ ''bnet''
            @ backslash @ ''s+(user|group|localgroup)'' @ backslash @ ''s+'',
       rd_severity = Low\<rparr>,
     \<lparr>rd_id = ''recon-enum'', rd_title = ''Host enumeration tool'', rd_technique = ''T1082'',
       rd_category = [], rd_target = TargetProcess,
       rd_pattern = ''(?i)(^|['' @ backslash @ backslash
            @ ''/])(winpeas|linpeas|linux-exploit-suggester|seatbelt|lazagne)('' @ backslash
            @ ''.[a-z0-9]{1,5})?('' @ backslash @ ''s|$)'',
       rd_severity = Medium\<rparr>]"

section \<open>Path rules (FIM)\<close>

definition path_rules :: "rule_def list" where
  "path_rules =
    [\<lparr>rd_id = ''fim-preload'', rd_title = ''ld.so.preload persistence'', rd_technique = ''T1546.012'',
       rd_category = [], rd_target = TargetPath,
       rd_pattern = ''(?i)(^|/)ld'' @ backslash @ ''.so'' @ backslash @ ''.preload$'',
       rd_severity = Critical\<rparr>,
     \<lparr>rd_id = ''fim-ssh'', rd_title = ''SSH trust material changed'', rd_technique = ''T1098.004'',
       rd_category = [], rd_target = TargetPath,
       rd_pattern = ''(?i)/'' @ backslash
            @ ''.ssh/(authorized_keys|authorized_keys2|id_[dr]sa.*|id_ed25519.*|known_hosts)$'',
       rd_severity = Critical\<rparr>,
     \<lparr>rd_id = ''fim-auth-db'', rd_title = ''Authentication database changed'', rd_technique = ''T1136'',
       rd_category = [], rd_target = TargetPath,
       rd_pattern = ''(?i)/(passwd|shadow|group|gshadow|sudoers|sudoers'' @ backslash
            @ ''.d/.+|ssh/sshd_config.*)$'',
       rd_severity = Critical\<rparr>,
     \<lparr>rd_id = ''fim-persist'', rd_title = ''Persistence location changed'', rd_technique = ''T1053'',
       rd_category = [], rd_target = TargetPath,
       rd_pattern = ''(?i)(/cron'' @ backslash @ ''.|/crontab|/systemd/system/.+|/rc'' @ backslash
            @ ''.local$|/profile'' @ backslash @ ''.d/.+|/'' @ backslash @ ''.bashrc$|/'' @ backslash
            @ ''.profile$|/'' @ backslash
            @ ''.bash_logout$|Windows.+(CurrentVersion.+Run|Start Menu.+Startup|Tasks))'',
       rd_severity = High\<rparr>,
     \<lparr>rd_id = ''fim-binaries'', rd_title = ''Binary directory changed'', rd_technique = ''T1036'',
       rd_category = [], rd_target = TargetPath,
       rd_pattern = ''(?i)^/(usr/)?(bin|sbin|lib)/|/usr/local/(bin|sbin)/'',
       rd_severity = High\<rparr>]"

section \<open>Log-line rules (auth)\<close>

definition log_rules :: "rule_def list" where
  "log_rules =
    [\<lparr>rd_id = ''auth-sudo-su'', rd_title = ''Privilege escalation via su'', rd_technique = ''T1548'',
       rd_category = CatAuth, rd_target = TargetLine,
       rd_pattern = ''(?i)Successful su for '',
       rd_severity = Medium\<rparr>,
     \<lparr>rd_id = ''auth-new-group'', rd_title = ''Privileged group changed'', rd_technique = ''T1484'',
       rd_category = CatAuth, rd_target = TargetLine,
       rd_pattern = ''(?i)(useradd|usermod|gpasswd|groupadd)'' @ backslash @ ''['' @ backslash @ ''d+'' @ backslash
            @ '']:.*(new group|add.*to group|add user)'',
       rd_severity = High\<rparr>]"

definition builtinRules :: "rule_def list" where
  "builtinRules =
     reverse_shell_rules @ tunnel_rules @ credential_rules @ lolbin_rules @ persistence_rules @
     antiforensics_rules @ recon_rules @ path_rules @ log_rules"

lemmas rule_groups = reverse_shell_rules_def tunnel_rules_def credential_rules_def lolbin_rules_def
  persistence_rules_def antiforensics_rules_def recon_rules_def path_rules_def log_rules_def

end
