(* ===== verification/Detect_Correct.thy ===== *)
theory Detect_Correct
  imports Rules
begin

text \<open>
  What the detection engine guarantees: which rule wins, that events are escalated and not
  lowered or lost, and when the engine can be built.
\<close>

section \<open>Selecting a rule\<close>

text \<open>
  Both loops of \<open>applyRules\<close> keep the best of the rules they have seen. The contract: a
  candidate replaces the best so far if it beats it, and beating is a strict weak order.
\<close>

locale selection =
  fixes ok :: "'a \<Rightarrow> bool" and beats :: "'a \<Rightarrow> 'a \<Rightarrow> bool" and pick :: "'a option \<Rightarrow> 'a list \<Rightarrow> 'a option"
  assumes pick_Nil: "pick best [] = best"
    and pick_Cons: "pick best (x # xs) =
      pick (if ok x \<and> (case best of None \<Rightarrow> True | Some b \<Rightarrow> beats x b) then Some x else best) xs"
    and irreflexive: "\<not> beats x x"
    and transitive: "beats x y \<Longrightarrow> beats y z \<Longrightarrow> beats x z"
    and neg_transitive: "\<not> beats x y \<Longrightarrow> \<not> beats y z \<Longrightarrow> \<not> beats x z"
begin

lemma asymmetric: "beats x y \<Longrightarrow> \<not> beats y x"
  using irreflexive transitive by blast

lemma pick_None: "pick best xs = None \<longleftrightarrow> best = None \<and> (\<forall>x \<in> set xs. \<not> ok x)"
  by (induction xs arbitrary: best) (auto simp: pick_Nil pick_Cons split: option.splits)

lemma pick_Some:
  assumes "pick best xs = Some b"
  shows "(best = Some b \<or> b \<in> set xs \<and> ok b) \<and> (\<forall>x \<in> set xs. ok x \<longrightarrow> \<not> beats x b) \<and>
    (\<forall>a. best = Some a \<longrightarrow> \<not> beats a b)"
  using assms
proof (induction xs arbitrary: best)
  case (Cons x xs)
  show ?case
  proof (cases "ok x \<and> (case best of None \<Rightarrow> True | Some b \<Rightarrow> beats x b)")
    case True
    then have "pick (Some x) xs = Some b"
      using Cons.prems by (simp add: pick_Cons)
    note IH = Cons.IH [OF this]
    then have x: "\<not> beats x b" by blast
    have "\<not> beats a b" if "best = Some a" for a
    proof -
      have "\<not> beats a x" using True that asymmetric by simp
      then show ?thesis using x by (rule neg_transitive)
    qed
    then show ?thesis using IH x True by auto
  next
    case False
    then have "pick best xs = Some b"
      using Cons.prems by (simp only: pick_Cons if_False)
    note IH = Cons.IH [OF this]
    have "\<not> beats x b" if okx: "ok x"
    proof -
      obtain a where a: "best = Some a" "\<not> beats x a"
        using False okx by (cases best) auto
      then have "\<not> beats a b" using IH by blast
      with a(2) show ?thesis by (rule neg_transitive)
    qed
    then show ?thesis using IH by auto
  qed
qed (simp add: pick_Nil irreflexive)

lemma pick_unbeaten:
  assumes "pick best xs = Some b" and "x \<in> set xs" and "ok x"
  shows "\<not> beats x b"
  using pick_Some [OF assms(1)] assms(2,3) by blast

end

interpretation rules: selection "applies ev target haystack" better "best_rule ev target haystack"
  for ev target haystack
  by unfold_locales (auto simp: better_def)

interpretation files: selection "\<lambda>r. r_matches r haystack" "\<lambda>r b. r_severity r > r_severity b" "best_file_rule haystack"
  for haystack
  by unfold_locales auto

text \<open>The severities of everything that applies to an event.\<close>

definition matching_severities :: "engine \<Rightarrow> event \<Rightarrow> string \<Rightarrow> string \<Rightarrow> severity set" where
  "matching_severities e ev target haystack =
     r_severity ` {r \<in> set (en_rules e). applies ev target haystack r} \<union>
     r_severity ` {r \<in> set (en_file_rules e). r_matches r haystack}"

lemma winner_None: "winner e ev target haystack = None \<longleftrightarrow> matching_severities e ev target haystack = {}"
  by (auto simp: winner_def files.pick_None rules.pick_None matching_severities_def)

lemma winner_Some:
  assumes "winner e ev target haystack = Some b"
  shows "r_severity b \<in> matching_severities e ev target haystack \<and>
    (\<forall>s \<in> matching_severities e ev target haystack. s \<le> r_severity b)"
proof -
  let ?r = "best_rule ev target haystack None (en_rules e)"
  note f = files.pick_Some [OF assms [unfolded winner_def]]
  have "r_severity x \<le> r_severity b" if x: "x \<in> set (en_rules e)" "applies ev target haystack x" for x
  proof -
    obtain a where a: "?r = Some a"
      using x rules.pick_None [of ev target haystack None "en_rules e"] by (cases ?r) auto
    have "\<not> better x a" by (rule rules.pick_unbeaten [OF a x])
    then have "r_severity x \<le> r_severity a" by (auto simp: better_def)
    also have "r_severity a \<le> r_severity b" using f a by auto
    finally show ?thesis .
  qed
  moreover have "r_severity b \<in> matching_severities e ev target haystack"
    using f rules.pick_Some [of ev target haystack None "en_rules e" b] by (auto simp: matching_severities_def)
  ultimately show ?thesis using f by (auto simp: matching_severities_def)
qed

lemma best_rule_set:
  assumes "set rs = set rs'" and "inj_on r_id (set rs)"
  shows "best_rule ev target haystack None rs = best_rule ev target haystack None rs'"
proof (cases "best_rule ev target haystack None rs")
  case None
  then show ?thesis
    using assms(1) rules.pick_None [of ev target haystack None rs] rules.pick_None [of ev target haystack None rs']
    by simp
next
  case (Some a)
  moreover from this obtain b where b: "best_rule ev target haystack None rs' = Some b"
    using assms(1) rules.pick_None [of ev target haystack None rs] rules.pick_None [of ev target haystack None rs']
    by (cases "best_rule ev target haystack None rs'") auto
  ultimately have ab: "a \<in> set rs" "b \<in> set rs" "\<not> better a b" "\<not> better b a"
    using rules.pick_Some [of ev target haystack None rs a] rules.pick_Some [of ev target haystack None rs' b] assms(1)
    by auto
  then have "r_id a = r_id b" by (auto simp: better_def)
  then have "a = b" using assms(2) ab by (auto dest: inj_onD)
  then show ?thesis using Some b by simp
qed

section \<open>Escalation\<close>

lemma applyRules_severity:
  "e_severity (applyRules e target haystack ev) =
     (if haystack = [] then e_severity ev
      else Max (insert (e_severity ev) (matching_severities e ev target haystack)))"
proof (cases "winner e ev target haystack")
  case None
  then show ?thesis using winner_None [of e ev target haystack] by (simp add: applyRules_def)
next
  case (Some b)
  have fin: "finite (matching_severities e ev target haystack)"
    by (simp add: matching_severities_def)
  note w = winner_Some [OF Some]
  have "Max (insert (e_severity ev) (matching_severities e ev target haystack)) = max (e_severity ev) (r_severity b)"
    using w fin by (intro Max_eqI) (auto simp: max_def)
  then show ?thesis by (auto simp: applyRules_def Some escalate_def max_def)
qed

definition observed :: "event \<Rightarrow> int \<times> string \<times> string \<times> (string \<rightharpoonup> string) option \<times> string" where
  "observed ev = (e_time ev, e_category ev, e_message ev, e_fields ev, e_host ev)"

text \<open>Escalating: the severity does not fall, what was observed stays, and equal severity means no change.\<close>

definition escalation :: "event \<Rightarrow> event \<Rightarrow> bool" where
  "escalation ev ev' \<longleftrightarrow> e_severity ev \<le> e_severity ev' \<and> observed ev' = observed ev \<and>
     (e_severity ev' = e_severity ev \<longrightarrow> ev' = ev)"

lemma escalation_refl [simp]: "escalation ev ev"
  by (simp add: escalation_def)

lemma escalation_trans: "escalation a b \<Longrightarrow> escalation b c \<Longrightarrow> escalation a c"
  unfolding escalation_def by (metis order.antisym order.trans)

lemma escalation_applyRules: "escalation ev (applyRules e target haystack ev)"
  by (auto simp: applyRules_def escalation_def escalate_def observed_def split: option.split)

lemma escalation_checkWorldWritable: "escalation ev (checkWorldWritable ev)"
  by (auto simp: checkWorldWritable_def escalation_def observed_def Let_def)

lemma observed_classifyNet: "observed (classifyNet e ev) = observed ev"
  by (auto simp: classifyNet_def observed_def Let_def split: option.splits)

section \<open>Evaluate\<close>

text \<open>The event after the handler of its category, and what the login correlation adds.\<close>

definition handled :: "engine \<Rightarrow> event \<Rightarrow> event" where
  "handled e ev =
     (if e_category ev = CatProcess then
        checkWorldWritable (applyRules e TargetProcess
          (go_trim_space (field_of ev ''exe'' @ '' '' @ field_of ev ''cmdline'')) ev)
      else if e_category ev = CatFile then applyRules e TargetPath (field_of ev ''path'') ev
      else if e_category ev = CatAuth then applyRules e TargetLine (e_message ev) ev
      else if e_category ev = CatNetwork then classifyNet e ev
      else ev)"

definition correlated :: "engine \<Rightarrow> event \<Rightarrow> event list \<times> engine" where
  "correlated e ev = (if e_category ev = CatAuth then correlateAuth e ev else ([], e))"

lemmas categories = CatProcess_def CatFile_def CatAuth_def CatNetwork_def

lemma field_observed: "observed a = observed b \<Longrightarrow> field_of a k = field_of b k"
  by (simp add: observed_def field_of_def)

lemma correlateAuth_observed: "observed a = observed b \<Longrightarrow> correlateAuth e a = correlateAuth e b"
proof -
  assume o: "observed a = observed b"
  have "field_of a = field_of b"
    by (rule ext) (rule field_observed [OF o])
  moreover have "e_time a = e_time b"
    using o by (simp add: observed_def)
  ultimately show ?thesis by (simp only: correlateAuth_def)
qed

lemma observed_handled: "observed (handled e ev) = observed ev"
  using escalation_applyRules escalation_checkWorldWritable observed_classifyNet
  by (simp add: handled_def escalation_def)

lemma handled_category [simp]: "e_category (handled e ev) = e_category ev"
  using observed_handled [of e ev] by (simp add: observed_def)

lemma correlateAuth_cfg [simp]: "en_cfg (snd (correlateAuth e ev)) = en_cfg e"
  by (simp add: correlateAuth_def Let_def split: prod.split option.split)

lemma Evaluate_eq:
  "Evaluate e ev =
     (fst (correlated e ev) @ (if e_severity (handled e ev) > Info \<or> passThrough e ev then [handled e ev] else []),
      snd (correlated e ev))"
proof -
  have pass: "passThrough e' (handled e ev) = passThrough e ev" if "en_cfg e' = en_cfg e" for e'
    using that by (simp add: passThrough_def)
  show ?thesis
  proof (cases "e_category ev = CatAuth")
    case True
    then have h: "applyRules e TargetLine (e_message ev) ev = handled e ev"
      by (simp add: handled_def categories)
    have "correlateAuth e (handled e ev) = correlateAuth e ev"
      by (rule correlateAuth_observed [OF observed_handled])
    moreover obtain found e' where "correlateAuth e ev = (found, e')" by (cases "correlateAuth e ev")
    ultimately show ?thesis
      using True h pass [of e'] correlateAuth_cfg [of e ev]
      by (simp add: Evaluate_def correlated_def categories Let_def)
  next
    case False
    have t: "(if e_category ev = CatProcess then
           let ev = applyRules e TargetProcess
             (go_trim_space (field_of ev ''exe'' @ '' '' @ field_of ev ''cmdline'')) ev in
           ([], checkWorldWritable ev, e)
         else if e_category ev = CatFile then
           ([], applyRules e TargetPath (field_of ev ''path'') ev, e)
         else if e_category ev = CatAuth then
           let ev = applyRules e TargetLine (e_message ev) ev in
           (case correlateAuth e ev of (found, e) \<Rightarrow> (found, ev, e))
         else if e_category ev = CatNetwork then ([], classifyNet e ev, e)
         else ([], ev, e)) = ([], handled e ev, e)"
      using False by (simp add: handled_def Let_def)
    show ?thesis
      unfolding Evaluate_def t using False pass [OF refl] by (simp add: correlated_def)
  qed
qed

lemma handled_escalates: "e_category ev \<noteq> CatNetwork \<Longrightarrow> escalation ev (handled e ev)"
  using escalation_applyRules escalation_trans [OF escalation_applyRules escalation_checkWorldWritable]
  by (simp add: handled_def)

lemma correlateAuth_found:
  assumes "x \<in> set (fst (correlateAuth e ev))"
  shows "field_of ev ''auth'' = ''fail'' \<and> field_of ev ''src_ip'' \<noteq> [] \<and> e_category x = CatAuth \<and>
    e_time x = e_time ev \<and> e_key x = ''bruteforce/'' @ field_of ev ''src_ip'' \<and>
    (\<exists>lv. fst (hit (field_of ev ''src_ip'') (e_time ev) (en_brute e)) = Some lv \<and>
       e_severity x = tl_severity lv \<and> e_title x = tl_title lv)"
  using assms by (auto simp: correlateAuth_def Let_def split: if_splits prod.splits option.splits)

lemma length_correlateAuth: "length (fst (correlateAuth e ev)) \<le> 1"
  by (simp add: correlateAuth_def Let_def split: prod.split option.split)

section \<open>Building the engine\<close>

lemma those_None: "those xs = None \<longleftrightarrow> None \<in> set xs"
  by (induction xs) (auto split: option.splits)

lemma those_Some: "those xs = Some ys \<Longrightarrow> xs = map Some ys"
  by (induction xs arbitrary: ys) (auto split: option.splits)

lemma buildRule_None: "buildRule compile d = None \<longleftrightarrow> compile (rd_pattern d) = None"
  by (simp add: buildRule_def)

lemma custom_None:
  "Option.bind (custom_rule c) (buildRule compile) = None \<longleftrightarrow>
     \<not> snd (parse_severity (rc_severity c)) \<or> compile (rc_pattern c) = None"
  by (auto simp: custom_rule_def buildRule_None split: prod.split)

lemma NewEngine_None:
  "NewEngine compile builtin cfg = None \<longleftrightarrow>
     (\<exists>d \<in> set builtin. rd_id d \<notin> set (cf_disabled cfg) \<and> compile (rd_pattern d) = None) \<or>
     (\<exists>c \<in> set (cf_rules cfg). rc_pattern c \<noteq> [] \<and>
        (\<not> snd (parse_severity (rc_severity c)) \<or> compile (rc_pattern c) = None)) \<or>
     (\<exists>name \<in> set (cf_known_bad_files cfg). compile (file_pattern name) = None)"
proof -
  have "those (map (buildRule compile) (filter (\<lambda>d. rd_id d \<notin> set (cf_disabled cfg)) builtin)) = None \<longleftrightarrow>
      (\<exists>d \<in> set builtin. rd_id d \<notin> set (cf_disabled cfg) \<and> compile (rd_pattern d) = None)"
    unfolding those_None by (auto simp: image_iff buildRule_None eq_commute [of None])
  moreover have "those (map (\<lambda>c. Option.bind (custom_rule c) (buildRule compile))
      (filter (\<lambda>c. rc_pattern c \<noteq> []) (cf_rules cfg))) = None \<longleftrightarrow>
      (\<exists>c \<in> set (cf_rules cfg). rc_pattern c \<noteq> [] \<and>
        (\<not> snd (parse_severity (rc_severity c)) \<or> compile (rc_pattern c) = None))"
    unfolding those_None by (auto simp: image_iff custom_None eq_commute [of None])
  moreover have "those (map (file_rule compile) (cf_known_bad_files cfg)) = None \<longleftrightarrow>
      (\<exists>name \<in> set (cf_known_bad_files cfg). compile (file_pattern name) = None)"
    unfolding those_None by (auto simp: image_iff file_rule_def eq_commute [of None])
  moreover have "NewEngine compile builtin cfg = None \<longleftrightarrow>
      those (map (buildRule compile) (filter (\<lambda>d. rd_id d \<notin> set (cf_disabled cfg)) builtin)) = None \<or>
      those (map (\<lambda>c. Option.bind (custom_rule c) (buildRule compile))
        (filter (\<lambda>c. rc_pattern c \<noteq> []) (cf_rules cfg))) = None \<or>
      those (map (file_rule compile) (cf_known_bad_files cfg)) = None"
    by (auto simp: NewEngine_def split: option.split)
  ultimately show ?thesis by (simp only:)
qed

lemma NewEngine_fields:
  assumes "NewEngine compile builtin cfg = Some e"
  shows "en_cfg e = cfg" "en_brute e = new_threshold (cf_brute_force_window cfg) (brute_levels cfg)"
    "en_ipc e = NewIPCtx (cf_internal_cidr cfg)" "en_susp_ports e = cf_suspicious_ports cfg"
    "map (file_rule compile) (cf_known_bad_files cfg) = map Some (en_file_rules e)"
  using assms by (auto simp: NewEngine_def those_Some split: option.splits)

lemma NewEngine_rules:
  assumes "NewEngine compile builtin cfg = Some e"
  shows "map r_id (en_rules e) =
    map rd_id (filter (\<lambda>d. rd_id d \<notin> set (cf_disabled cfg)) builtin) @
    map rc_id (filter (\<lambda>c. rc_pattern c \<noteq> []) (cf_rules cfg))"
proof -
  have ids: "map r_id rs = map rd_id ds" if "map (buildRule compile) ds = map Some rs" for ds rs
    using that by (induction ds arbitrary: rs) (auto simp: buildRule_def)
  have custom: "map r_id rs = map rc_id cs"
    if "map (\<lambda>c. Option.bind (custom_rule c) (buildRule compile)) cs = map Some rs" for cs rs
    using that
  proof (induction cs arbitrary: rs)
    case (Cons c cs)
    then obtain r rs' where rs: "rs = r # rs'" "Option.bind (custom_rule c) (buildRule compile) = Some r"
      "map (\<lambda>c. Option.bind (custom_rule c) (buildRule compile)) cs = map Some rs'"
      by (cases rs) auto
    then have "r_id r = rc_id c"
      by (auto simp: custom_rule_def buildRule_def bind_eq_Some_conv split: prod.splits if_splits)
    then show ?case using Cons.IH [OF rs(3)] by (simp add: rs(1))
  qed simp
  obtain bs cs where b: "those (map (buildRule compile) (filter (\<lambda>d. rd_id d \<notin> set (cf_disabled cfg)) builtin)) = Some bs"
    and c: "those (map (\<lambda>c. Option.bind (custom_rule c) (buildRule compile))
      (filter (\<lambda>c. rc_pattern c \<noteq> []) (cf_rules cfg))) = Some cs" and e: "en_rules e = bs @ cs"
    using assms by (auto simp: NewEngine_def split: option.splits)
  show ?thesis
    using ids [OF those_Some [OF b]] custom [OF those_Some [OF c]] by (simp add: e)
qed

section \<open>A run of the engine\<close>

text \<open>The main loop's calls, one after the other: what each event gives.\<close>

fun Evaluate_run :: "engine \<Rightarrow> event list \<Rightarrow> event list list \<times> engine" where
  "Evaluate_run e [] = ([], e)"
| "Evaluate_run e (ev # evs) =
     (case Evaluate e ev of (out, e) \<Rightarrow>
      case Evaluate_run e evs of (outs, e) \<Rightarrow> (out # outs, e))"

definition failed_login :: "event \<Rightarrow> bool" where
  "failed_login ev \<longleftrightarrow> e_category ev = CatAuth \<and> field_of ev ''auth'' = ''fail'' \<and> field_of ev ''src_ip'' \<noteq> []"

definition logins :: "event list \<Rightarrow> (string \<times> int) list" where
  "logins evs = map (\<lambda>ev. (field_of ev ''src_ip'', e_time ev)) (filter failed_login evs)"

text \<open>The correlation alert that the window's count calls for.\<close>

definition login_alert :: "config \<Rightarrow> event list \<Rightarrow> event \<Rightarrow> (severity \<times> string \<times> string) list" where
  "login_alert cfg history ev =
     (if failed_login ev then
        (case find (\<lambda>l. int (window_count (cf_brute_force_window cfg) (logins history)
              (field_of ev ''src_ip'') (e_time ev)) = tl_count l) (brute_levels cfg) of
           None \<Rightarrow> []
         | Some l \<Rightarrow> [(tl_severity l, tl_title l, ''bruteforce/'' @ field_of ev ''src_ip'')])
      else [])"

definition alert_of :: "event \<Rightarrow> severity \<times> string \<times> string" where
  "alert_of x = (e_severity x, e_title x, e_key x)"

lemma Evaluate_run_Cons [simp]:
  "fst (Evaluate_run e (ev # evs)) = fst (Evaluate e ev) # fst (Evaluate_run (snd (Evaluate e ev)) evs)"
  by (simp split: prod.split)

declare Evaluate_run.simps(2) [simp del]

lemma logins_simps [simp]:
  "logins (evs @ [ev]) = (if failed_login ev then logins evs @ [(field_of ev ''src_ip'', e_time ev)] else logins evs)"
  by (simp add: logins_def)

lemma snd_Evaluate: "snd (Evaluate e ev) = snd (correlated e ev)"
  by (simp add: Evaluate_eq)

lemma correlated_hit:
  assumes "failed_login ev"
  shows "correlated e ev =
    (case fst (hit (field_of ev ''src_ip'') (e_time ev) (en_brute e)) of
       None \<Rightarrow> []
     | Some lv \<Rightarrow>
         [\<lparr>e_time = e_time ev, e_severity = tl_severity lv, e_category = CatAuth, e_title = tl_title lv,
           e_message = itoa (tl_count lv) @ '' failed logins from '' @ field_of ev ''src_ip'' @ '' within ''
             @ duration_string (cf_brute_force_window (en_cfg e)) @ '' (last user: '' @ field_of ev ''user'' @ '')'',
           e_fields = Some [''src_ip'' \<mapsto> field_of ev ''src_ip''], e_technique = ''T1110'', e_host = [],
           e_key = ''bruteforce/'' @ field_of ev ''src_ip''\<rparr>],
     e\<lparr>en_brute := snd (hit (field_of ev ''src_ip'') (e_time ev) (en_brute e))\<rparr>)"
  using assms by (simp add: correlated_def failed_login_def correlateAuth_def Let_def split: prod.split option.split)

lemma correlated_none: "\<not> failed_login ev \<Longrightarrow> correlated e ev = ([], e)"
  by (auto simp: correlated_def failed_login_def correlateAuth_def Let_def)

lemma correlated_alert:
  assumes "keeps (en_brute e) (logins hist)" and "th_levels (en_brute e) = brute_levels cfg"
    and "th_window (en_brute e) = cf_brute_force_window cfg" and "0 < cf_brute_force_window cfg"
    and "\<And>x. x \<in> set hist \<Longrightarrow> e_time x \<le> e_time ev"
  shows "map alert_of (fst (correlated e ev)) = login_alert cfg (hist @ [ev]) ev \<and>
    keeps (en_brute (snd (correlated e ev))) (logins (hist @ [ev])) \<and>
    th_levels (en_brute (snd (correlated e ev))) = brute_levels cfg \<and>
    th_window (en_brute (snd (correlated e ev))) = cf_brute_force_window cfg"
proof (cases "failed_login ev")
  case True
  have le: "ts \<le> e_time ev" if "ts \<in> set (times_of (logins hist) (field_of ev ''src_ip''))" for ts
    using that assms(5) by (auto simp: times_of_def logins_def)
  have w: "0 < th_window (en_brute e)" using assms(3,4) by simp
  note hit = hit_count [OF assms(1) le w] and kept = keeps_hit [OF assms(1) le]
  show ?thesis
    using True hit kept assms(2,3)
    by (auto simp: correlated_hit login_alert_def alert_of_def split: option.split)
next
  case False
  then show ?thesis using assms by (simp add: correlated_none login_alert_def)
qed

lemma Evaluate_run_alerts:
  assumes "keeps (en_brute e) (logins hist)" and "th_levels (en_brute e) = brute_levels cfg"
    and "th_window (en_brute e) = cf_brute_force_window cfg" and "0 < cf_brute_force_window cfg"
    and "sorted (map e_time (hist @ evs))" and "j < length evs"
  shows "\<exists>found rest. fst (Evaluate_run e evs) ! j = found @ rest \<and>
    (rest = [] \<or> (\<exists>e'. rest = [handled e' (evs ! j)])) \<and>
    map alert_of found = login_alert cfg (hist @ take (Suc j) evs) (evs ! j)"
  using assms
proof (induction evs arbitrary: e hist j)
  case (Cons ev evs)
  have le: "e_time x \<le> e_time ev" if "x \<in> set hist" for x
    using that Cons.prems(5) by (auto simp: sorted_append)
  note c = correlated_alert [OF Cons.prems(1-4) le]
  show ?case
  proof (cases j)
    case 0
    let ?rest = "if e_severity (handled e ev) > Info \<or> passThrough e ev then [handled e ev] else []"
    have "fst (Evaluate_run e (ev # evs)) ! j = fst (correlated e ev) @ ?rest"
      by (simp add: 0 Evaluate_eq)
    moreover have "?rest = [] \<or> (\<exists>e'. ?rest = [handled e' ((ev # evs) ! j)])" using 0 by auto
    moreover have "map alert_of (fst (correlated e ev)) = login_alert cfg (hist @ take (Suc j) (ev # evs)) ((ev # evs) ! j)"
      using c by (simp add: 0)
    ultimately show ?thesis by blast
  next
    case (Suc i)
    have s: "sorted (map e_time ((hist @ [ev]) @ evs))" "i < length evs"
      using Cons.prems(5,6) by (simp_all add: Suc)
    have h: "hist @ take (Suc j) (ev # evs) = (hist @ [ev]) @ take (Suc i) evs" by (simp add: Suc)
    show ?thesis
      unfolding h
      using Cons.IH [of "snd (correlated e ev)" "hist @ [ev]" i, OF _ _ _ Cons.prems(4) s] c
      by (simp add: Suc snd_Evaluate)
  qed
qed simp

section \<open>Properties\<close>

text \<open>
  C12 (invariant). The engine only escalates, except for network events: \<open>Evaluate\<close> returns
  at most one correlation alert, only for a failed login, and then the event itself, unless
  it is an Info process event and the log of these is off. The event has what was observed
  (time, category, message, fields, host), its severity is not lower than the monitor's,
  and if the severity is the same nothing has changed.
\<close>

theorem Evaluate_escalates:
  "\<exists>found ev'. fst (Evaluate e ev) =
       found @ (if e_severity ev' > Info \<or> e_category ev \<noteq> CatProcess \<or> LogAllProcessEvents (en_cfg e) then [ev'] else []) \<and>
     length found \<le> 1 \<and> (found \<noteq> [] \<longrightarrow> failed_login ev) \<and> observed ev' = observed ev \<and>
     (e_category ev \<noteq> CatNetwork \<longrightarrow> e_severity ev \<le> e_severity ev' \<and> (e_severity ev' = e_severity ev \<longrightarrow> ev' = ev))"
proof -
  have "found \<noteq> [] \<longrightarrow> failed_login ev" if "found = fst (correlated e ev)" for found
    using that correlated_none [of ev e] by (cases "failed_login ev") auto
  moreover have "length (fst (correlated e ev)) \<le> 1"
    using length_correlateAuth [of e ev] by (simp add: correlated_def)
  ultimately show ?thesis
    using handled_escalates [of ev e]
    by (intro exI [of _ "fst (correlated e ev)"] exI [of _ "handled e ev"])
      (simp add: Evaluate_eq passThrough_def observed_handled escalation_def)
qed

definition quiet_engine :: engine where
  "quiet_engine = \<lparr>en_rules = [], en_file_rules = [], en_brute = new_threshold 10 [], en_cfg = zero_config,
     en_ipc = Some [], en_susp_ports = []\<rparr>"

definition su_event :: event where
  "su_event = empty_event\<lparr>e_severity := Medium, e_category := CatAuth, e_title := ''su (switch user)''\<rparr>"

theorem Evaluate_escalates_witness:
  "\<exists>ev'. fst (Evaluate quiet_engine su_event) = [ev'] \<and> Medium \<le> e_severity ev'"
  using Evaluate_escalates [of quiet_engine su_event]
  by (auto simp: failed_login_def su_event_def empty_event_def field_of_def CatAuth_def CatNetwork_def CatProcess_def)

text \<open>
  C13 (equivalence). Matching the rules gives an event the highest of its own severity and
  those of all rules that apply to it: a match is never hidden by another one. Which rule
  wins does not depend on the order of the rules as long as their ids differ.
\<close>

theorem rules_decide_severity:
  "e_severity (applyRules e target haystack ev) =
     (if haystack = [] then e_severity ev
      else Max (insert (e_severity ev)
        (r_severity ` {r \<in> set (en_rules e). applies ev target haystack r} \<union>
         r_severity ` {r \<in> set (en_file_rules e). r_matches r haystack}))) \<and>
   (set rs = set (en_rules e) \<and> inj_on r_id (set rs) \<longrightarrow>
      applyRules (e\<lparr>en_rules := rs\<rparr>) target haystack ev = applyRules e target haystack ev)"
proof -
  have "applyRules (e\<lparr>en_rules := rs\<rparr>) target haystack ev = applyRules e target haystack ev"
    if "set rs = set (en_rules e)" "inj_on r_id (set rs)"
    using best_rule_set [OF that, of ev target haystack] by (simp add: winner_def applyRules_def)
  then show ?thesis
    using applyRules_severity [of e target haystack ev] unfolding matching_severities_def by blast
qed

definition rule_a :: rule where
  "rule_a = \<lparr>r_id = ''a'', r_title = ''A'', r_technique = [], r_category = [], r_target = TargetLine,
     r_matches = (\<lambda>_. True), r_severity = High\<rparr>"

definition rule_b :: rule where
  "rule_b = rule_a\<lparr>r_id := ''b'', r_title := ''B''\<rparr>"

theorem rules_decide_severity_witness:
  "applyRules (quiet_engine\<lparr>en_rules := [rule_b, rule_a]\<rparr>) TargetLine ''x'' su_event =
     applyRules (quiet_engine\<lparr>en_rules := [rule_a, rule_b]\<rparr>) TargetLine ''x'' su_event"
  using rules_decide_severity [of "quiet_engine\<lparr>en_rules := [rule_a, rule_b]\<rparr>" TargetLine "''x''" su_event "[rule_b, rule_a]"]
  by (auto simp: rule_b_def rule_a_def)

text \<open>
  C11 (refinement). On any sequence of events in the order of their times, the engine raises
  a brute-force alert at an event exactly if it is a failed login and the number of failed
  logins from its address, in the window that ends with it, is the count of a level (the
  first such level); apart from the alert it returns at most the event itself.
\<close>

theorem brute_force_alerts:
  assumes "NewEngine compile builtin cfg = Some e" and "0 < cf_brute_force_window cfg"
    and "sorted (map e_time evs)" and "j < length evs"
  shows "\<exists>found rest. fst (Evaluate_run e evs) ! j = found @ rest \<and> length rest \<le> 1 \<and>
    map alert_of found =
      (if failed_login (evs ! j) then
         (case find (\<lambda>l. int (window_count (cf_brute_force_window cfg) (logins (take (Suc j) evs))
               (field_of (evs ! j) ''src_ip'') (e_time (evs ! j))) = tl_count l)
             [\<lparr>tl_count = cf_brute_fire_count cfg, tl_severity = Medium, tl_title = ''SSH brute force suspected''\<rparr>,
              \<lparr>tl_count = cf_brute_force_high_cnt cfg, tl_severity = High, tl_title = ''SSH brute force in progress''\<rparr>] of
            None \<Rightarrow> []
          | Some l \<Rightarrow> [(tl_severity l, tl_title l, ''bruteforce/'' @ field_of (evs ! j) ''src_ip'')])
       else [])"
proof -
  have "en_brute e = new_threshold (cf_brute_force_window cfg) (brute_levels cfg)"
    using NewEngine_fields(2) [OF assms(1)] .
  then have "keeps (en_brute e) (logins [])" "th_levels (en_brute e) = brute_levels cfg"
    "th_window (en_brute e) = cf_brute_force_window cfg"
    using keeps_new by (simp_all add: logins_def new_threshold_def)
  from Evaluate_run_alerts [OF this assms(2), of evs j] assms(3,4) obtain found rest
    where r: "fst (Evaluate_run e evs) ! j = found @ rest" "rest = [] \<or> (\<exists>e'. rest = [handled e' (evs ! j)])"
      "map alert_of found = login_alert cfg (take (Suc j) evs) (evs ! j)"
    by auto
  moreover from r(2) have "length rest \<le> 1" by auto
  ultimately show ?thesis
    unfolding login_alert_def brute_levels_def by blast
qed

definition attack :: "int \<Rightarrow> event" where
  "attack t = with_fields [(''auth'', ''fail''), (''src_ip'', ''203.0.113.9'')]
     (empty_event\<lparr>e_time := t, e_category := CatAuth\<rparr>)"

lemma attack_fields [simp]:
  "field_of (attack t) ''auth'' = ''fail''" "field_of (attack t) ''src_ip'' = ''203.0.113.9''"
  "e_time (attack t) = t" "failed_login (attack t)"
  by (simp_all add: attack_def failed_login_def with_field_def Let_def field_of_def empty_event_def)

definition two_strikes :: config where
  "two_strikes = zero_config\<lparr>cf_brute_force_window := 10, cf_brute_fire_count := 2, cf_brute_force_high_cnt := 3\<rparr>"

theorem brute_force_alerts_witness:
  "\<exists>e found rest. NewEngine (\<lambda>_. None) [] two_strikes = Some e \<and>
    fst (Evaluate_run e [attack 1, attack 2]) ! 1 = found @ rest \<and>
    map alert_of found = [(Medium, ''SSH brute force suspected'', ''bruteforce/203.0.113.9'')]"
proof -
  obtain e where e: "NewEngine (\<lambda>_. None) [] two_strikes = Some e"
    using NewEngine_None [of "\<lambda>_. None" "[]" two_strikes] by (auto simp: two_strikes_def zero_config_def)
  show ?thesis
    using brute_force_alerts [OF e, of "[attack 1, attack 2]" 1] e
    by (auto simp: two_strikes_def window_count_def logins_def)
qed

text \<open>
  An engine is built unless a pattern of a rule in use, or that of a known tool, does not
  compile, or a custom rule names an unknown severity. Its rules are the built-in ones that are not
  disabled, in their order, then the custom ones with a pattern, which cannot be disabled.
\<close>

theorem NewEngine_outcomes:
  "(NewEngine compile builtin cfg = None \<longleftrightarrow>
      (\<exists>d \<in> set builtin. rd_id d \<notin> set (cf_disabled cfg) \<and> compile (rd_pattern d) = None) \<or>
      (\<exists>c \<in> set (cf_rules cfg). rc_pattern c \<noteq> [] \<and>
         (\<not> snd (parse_severity (rc_severity c)) \<or> compile (rc_pattern c) = None)) \<or>
      (\<exists>name \<in> set (cf_known_bad_files cfg). compile (file_pattern name) = None)) \<and>
   (\<forall>e. NewEngine compile builtin cfg = Some e \<longrightarrow>
      map r_id (en_rules e) =
        map rd_id (filter (\<lambda>d. rd_id d \<notin> set (cf_disabled cfg)) builtin) @
        map rc_id (filter (\<lambda>c. rc_pattern c \<noteq> []) (cf_rules cfg)))"
  by (intro conjI allI impI NewEngine_None NewEngine_rules)

theorem NewEngine_outcomes_witness:
  "\<exists>e. NewEngine (\<lambda>_. Some (\<lambda>_. False)) builtinRules zero_config = Some e \<and>
    map r_id (en_rules e) = map rd_id builtinRules"
  using NewEngine_outcomes [of "\<lambda>_. Some (\<lambda>_. False)" builtinRules zero_config]
  by (cases "NewEngine (\<lambda>_. Some (\<lambda>_. False)) builtinRules zero_config") (simp_all add: zero_config_def)

definition reachable_rule :: "rule_def \<Rightarrow> bool" where
  "reachable_rule d \<longleftrightarrow>
     list_ex (\<lambda>(cat, target). (rd_category d = [] \<or> rd_category d = cat) \<and> (rd_target d = TargetAny \<or> rd_target d = target))
       [(CatProcess, TargetProcess), (CatFile, TargetPath), (CatAuth, TargetLine)]"

lemma builtin_count: "length builtinRules = 50"
  by (simp add: builtinRules_def rule_groups)

lemma builtin_ids: "distinct (map rd_id builtinRules)"
  by (simp add: builtinRules_def rule_groups)

lemma builtin_reachable: "list_all (\<lambda>d. Info < rd_severity d \<and> rd_pattern d \<noteq> [] \<and> reachable_rule d) builtinRules"
  by (simp add: builtinRules_def rule_groups severity_order reachable_rule_def categories TargetProcess_def TargetPath_def
     TargetLine_def TargetAny_def backslash_def)

text \<open>
  The built-in rules are well formed: fifty rules with different ids, none of
  them at Info, and each has a target and a category under which some event reaches it.
\<close>

theorem builtin_rules_wf:
  "length builtinRules = 50 \<and> distinct (map rd_id builtinRules) \<and>
   list_all (\<lambda>d. Info < rd_severity d \<and> rd_pattern d \<noteq> [] \<and> reachable_rule d) builtinRules"
  using builtin_count builtin_ids builtin_reachable by blast

end
