(* ===== verification/Rule_Patterns.thy ===== *)
theory Rule_Patterns
  imports Detect_Correct
begin

text \<open>
  The patterns of the rules read as Go's \<^verbatim>\<open>regexp\<close> reads them: that all of them compile, and what
  some of them recognise.
\<close>

section \<open>The compiler of package regexp\<close>

definition ascii :: "string \<Rightarrow> bool" where
  "ascii s = list_all (\<lambda>c. (of_char c :: int) < 128) s"

text \<open>
  What is relied on of \<^verbatim>\<open>regexp.Compile\<close>, for one pattern that the program compiles: if it is
  accepted, and read by the model of the syntax, then both match the same ASCII texts. Whether a
  pattern is accepted is not assumed.
\<close>

definition agrees :: "compile \<Rightarrow> string \<Rightarrow> bool" where
  "agrees compile p \<longleftrightarrow>
     (\<forall>m r w. compile p = Some m \<and> parse_rx p = Some r \<and> ascii w \<longrightarrow> m w = rx_matches r w)"

section \<open>Words and sequences\<close>

definition letter :: "char \<Rightarrow> rx" where
  "letter c = Cls True False [(of_char c, of_char c)]"

definition sequence :: "rx list \<Rightarrow> rx" where
  "sequence rs = foldr Cat rs Eps"

lemma in_ranges_simps [simp]:
  "in_ranges [] v = False"
  "in_ranges (p # ps) v = (fst p \<le> v \<and> v \<le> snd p \<or> in_ranges ps v)"
  by (auto simp: in_ranges_def)

lemma of_char_lower: "(of_char (lower_char c) :: nat) = (if 65 \<le> (of_char c :: nat) \<and> (of_char c :: nat) \<le> 90 then of_char c + 32 else of_char c)"
  by (simp add: lower_char_def)

lemma lower_char_eq: "lower_char c = lower_char d \<longleftrightarrow> (of_char (lower_char c) :: nat) = of_char (lower_char d)"
  by simp

lemma int_of_char: "(of_char c :: int) = int (of_char c)"
  by (simp add: of_nat_of_char)

lemma letter_lang: "lang (letter c) = {[d] | d. lower_char d = lower_char c}"
proof -
  have "cls_match True False [(of_char c, of_char c)] d \<longleftrightarrow> lower_char d = lower_char c" for d
    unfolding cls_match_def lower_char_eq of_char_lower other_case_def in_ranges_simps int_of_char
    by (auto split: if_splits)
  then show ?thesis by (simp add: letter_def)
qed

lemma sequence_simps:
  "sequence [] = Eps"
  "sequence (r # rs) = Cat r (sequence rs)"
  by (simp_all add: sequence_def)

lemma sequence_lang:
  "lang (sequence []) = {[]}"
  "lang (sequence (r # rs)) = {u @ v | u v. u \<in> lang r \<and> v \<in> lang (sequence rs)}"
  by (simp_all add: sequence_simps)

lemma sequence_append_lang:
  "lang (sequence (rs @ qs)) = {u @ v | u v. u \<in> lang (sequence rs) \<and> v \<in> lang (sequence qs)}"
proof (induction rs)
  case (Cons r rs)
  then show ?case by (auto simp: sequence_lang) (metis append.assoc)+
qed (simp add: sequence_lang)

lemma letter_sequence_lang:
  "lang (sequence (letter c # rs)) = {d # v | d v. lower_char d = lower_char c \<and> v \<in> lang (sequence rs)}"
  unfolding sequence_lang letter_lang by auto (metis append_Cons append_Nil)

lemma word_lang: "lang (sequence (map letter s)) = {u. go_to_lower u = go_to_lower s}"
proof (induction s)
  case (Cons c s)
  have "u \<in> lang (sequence (map letter (c # s))) \<longleftrightarrow> go_to_lower u = go_to_lower (c # s)" for u
    by (cases u) (auto simp: letter_sequence_lang Cons go_to_lower_def)
  then show ?case by blast
qed (auto simp: sequence_lang go_to_lower_def)

text \<open>A word in any letter case followed by more, and a gap within a line.\<close>

lemma word_then_lang:
  "lang (sequence (map letter s @ rs)) = {u @ v | u v. go_to_lower u = go_to_lower s \<and> v \<in> lang (sequence rs)}"
  by (simp add: sequence_append_lang word_lang)

definition gap :: "int \<Rightarrow> rx" where
  "gap n = Rep 0 (Some n) (Cls True True [(10, 10)])"

definition newline :: char where "newline = char_of (10 :: nat)"

lemma concat_singletons:
  "{concat us | us. P (length us) \<and> set us \<subseteq> {[c] | c. Q c}} = {u. P (length u) \<and> list_all Q u}"
proof (intro equalityI subsetI)
  fix u assume "u \<in> {concat us | us. P (length us) \<and> set us \<subseteq> {[c] | c. Q c}}"
  then obtain us where us: "u = concat us" "P (length us)" "set us \<subseteq> {[c] | c. Q c}" by blast
  from us(3) have "length (concat us) = length us \<and> list_all Q (concat us)"
    by (induction us) auto
  with us show "u \<in> {u. P (length u) \<and> list_all Q u}" by simp
next
  fix u assume u: "u \<in> {u. P (length u) \<and> list_all Q u}"
  then have "u = concat (map (\<lambda>c. [c]) u)" "set (map (\<lambda>c. [c]) u) \<subseteq> {[c] | c. Q c}"
    by (auto simp: list_all_iff)
  with u show "u \<in> {concat us | us. P (length us) \<and> set us \<subseteq> {[c] | c. Q c}}"
    by (metis (mono_tags, lifting) length_map mem_Collect_eq)
qed

lemma gap_lang: "lang (gap n) = {u. length u \<le> nat n \<and> newline \<notin> set u}"
proof -
  have "cls_match True True [(10, 10)] c \<longleftrightarrow> c \<noteq> newline" for c
  proof -
    have "c = newline \<longleftrightarrow> (of_char c :: nat) = 10" by (auto simp: newline_def simp flip: of_char_eq_iff [where 'a = nat])
    then show ?thesis unfolding cls_match_def other_case_def in_ranges_simps int_of_char by auto
  qed
  with concat_singletons [of "\<lambda>k. k \<le> nat n" "\<lambda>c. c \<noteq> newline"] show ?thesis
    by (simp add: gap_def list_all_iff) (auto)
qed

section \<open>Tool names\<close>

text \<open>
  What the pattern for a known attacker tool is for: the text, or a part of it after a slash or
  a backslash, is the name with at most a short extension, in any letter case.
\<close>

definition separator :: "char \<Rightarrow> bool" where
  "separator c \<longleftrightarrow> c = CHR ''/'' \<or> of_char c = (92 :: nat)"

definition short_extension :: "string \<Rightarrow> bool" where
  "short_extension t \<longleftrightarrow> t = [] \<or>
     hd t = CHR ''.'' \<and> tl t \<noteq> [] \<and> length (tl t) \<le> 5 \<and>
     list_all (\<lambda>c. (97 \<le> (of_char c :: nat) \<and> of_char c \<le> (122 :: nat)) \<or>
       (48 \<le> (of_char c :: nat) \<and> of_char c \<le> (57 :: nat))) (go_to_lower (tl t))"

definition bad_file_at :: "string \<Rightarrow> string \<Rightarrow> nat \<Rightarrow> bool" where
  "bad_file_at name h i \<longleftrightarrow>
     (i = 0 \<or> separator (h ! (i - 1))) \<and>
     go_to_lower (take (length name) (drop i h)) = go_to_lower name \<and>
     short_extension (drop (length name) (drop i h))"

definition bad_file_matches :: "string \<Rightarrow> string \<Rightarrow> bool" where
  "bad_file_matches name h \<longleftrightarrow> list_ex (bad_file_at name h) [0..<Suc (length h)]"

lemma length_go_to_lower [simp]: "length (go_to_lower s) = length s"
  by (simp add: go_to_lower_def)

lemma bad_file_spec:
  "bad_file_matches name h \<longleftrightarrow>
     (\<exists>pre base ext. h = pre @ base @ ext \<and> (pre = [] \<or> separator (last pre)) \<and>
        go_to_lower base = go_to_lower name \<and> short_extension ext)"
proof
  assume "bad_file_matches name h"
  then obtain i where i: "i \<le> length h" "bad_file_at name h i"
    unfolding bad_file_matches_def list_ex_iff by (metis atLeastLessThan_iff less_Suc_eq_le set_upt)
  let ?pre = "take i h" and ?base = "take (length name) (drop i h)" and ?ext = "drop (length name) (drop i h)"
  have "h = ?pre @ ?base @ ?ext" by (metis append_take_drop_id)
  moreover have "?pre = [] \<or> separator (last ?pre)"
  proof (cases i)
    case (Suc j)
    then have "last ?pre = h ! j" using i(1) by (simp add: take_Suc_conv_app_nth)
    then show ?thesis using i(2) Suc by (simp add: bad_file_at_def)
  qed simp
  ultimately show "\<exists>pre base ext. h = pre @ base @ ext \<and> (pre = [] \<or> separator (last pre)) \<and>
      go_to_lower base = go_to_lower name \<and> short_extension ext"
    using i(2) unfolding bad_file_at_def by blast
next
  assume "\<exists>pre base ext. h = pre @ base @ ext \<and> (pre = [] \<or> separator (last pre)) \<and>
      go_to_lower base = go_to_lower name \<and> short_extension ext"
  then obtain pre base ext where h: "h = pre @ base @ ext" "pre = [] \<or> separator (last pre)"
    "go_to_lower base = go_to_lower name" "short_extension ext" by blast
  have len: "length base = length name" using arg_cong [OF h(3), of length] by simp
  have "bad_file_at name h (length pre)"
    using h(2-4) len by (cases pre rule: rev_cases) (auto simp: bad_file_at_def h(1) nth_append)
  then show "bad_file_matches name h"
    unfolding bad_file_matches_def list_ex_iff by (intro bexI [of _ "length pre"]) (simp_all add: h(1))
qed

lemma lower_char_blank: "lower_char c = CHR '' '' \<longleftrightarrow> c = CHR '' ''"
proof -
  have "lower_char c \<noteq> CHR '' ''" if "65 \<le> (of_char c :: nat)" "(of_char c :: nat) \<le> 90"
  proof
    assume "lower_char c = CHR '' ''"
    then have "(of_char (char_of (of_char c + 32 :: nat)) :: nat) = 32"
      using that by (simp add: lower_char_def)
    then show False using that by (simp add: of_char_of)
  qed
  then show ?thesis by (auto simp: lower_char_def split: if_splits)
qed

lemma blank_go_to_lower: "CHR '' '' \<in> set (go_to_lower s) \<longleftrightarrow> CHR '' '' \<in> set s"
  unfolding go_to_lower_def set_map image_iff using lower_char_blank by metis

lemma blank_short_extension:
  assumes "short_extension ext"
  shows "CHR '' '' \<notin> set ext"
proof (cases ext)
  case (Cons c cs)
  then have "CHR '' '' \<notin> set (go_to_lower cs)"
    using assms by (auto simp: short_extension_def list_all_iff)
  then show ?thesis using assms by (auto simp: Cons blank_go_to_lower short_extension_def)
qed simp

text \<open>
  With a word at the end that has neither a blank nor a separator, no tool name matches:
  what matches is part of the last word, and a separator precedes it.
\<close>

lemma bad_file_last_word:
  assumes "CHR '' '' \<notin> set name" and "list_all (\<lambda>c. c \<noteq> CHR '' '' \<and> \<not> separator c) w"
  shows "\<not> bad_file_matches name (cmd @ '' '' @ w)"
proof
  assume "bad_file_matches name (cmd @ '' '' @ w)"
  then obtain pre base ext where h: "cmd @ '' '' @ w = pre @ base @ ext" "pre = [] \<or> separator (last pre)"
    "go_to_lower base = go_to_lower name" "short_extension ext"
    unfolding bad_file_spec by blast
  have be: "CHR '' '' \<notin> set (base @ ext)"
    using assms(1) h(3,4) blank_go_to_lower [of base] blank_go_to_lower [of name] blank_short_extension by simp
  have blank: "\<not> separator (CHR '' '')" by (simp add: separator_def)
  from h(1) have "(cmd @ '' '') @ w = pre @ (base @ ext)" by simp
  then obtain u where "cmd @ '' '' = pre @ u \<and> u @ w = base @ ext \<or> (cmd @ '' '') @ u = pre \<and> w = u @ base @ ext"
    unfolding append_eq_append_conv2 by blast
  then show False
  proof (elim disjE conjE)
    assume u: "cmd @ '' '' = pre @ u" "u @ w = base @ ext"
    show False
    proof (cases u rule: rev_cases)
      case Nil
      then show False using u(1) h(2) blank by auto
    next
      case (snoc v c)
      then have "c = CHR '' ''" using u(1) by simp
      then have "CHR '' '' \<in> set (u @ w)" by (simp add: snoc)
      then show False using be unfolding u(2) by blast
    qed
  next
    assume u: "(cmd @ '' '') @ u = pre" "w = u @ base @ ext"
    have "last pre \<in> insert (CHR '' '') (set w)"
      using u by (cases u rule: rev_cases, auto)
    moreover have "pre \<noteq> []" using u(1) by auto
    moreover have "\<not> separator c" if "c \<in> set w" for c
      using assms(2) that by (simp add: list_all_iff)
    ultimately show False using h(2) blank by (metis insertE)
  qed
qed

section \<open>Reading the pattern of a tool name\<close>

definition quoted :: "char \<Rightarrow> rx_unit" where
  "quoted c = (if special c then Esc c else Raw c)"

lemma ascii_simps [simp]:
  "ascii []"
  "ascii (c # s) \<longleftrightarrow> (of_char c :: int) < 128 \<and> ascii s"
  "ascii (s @ t) \<longleftrightarrow> ascii s \<and> ascii t"
  by (simp_all add: ascii_def)

lemma units_QuoteMeta:
  "ascii s \<Longrightarrow> units (QuoteMeta s @ t) = map_option ((@) (map quoted s)) (units t)"
proof (induction s)
  case (Cons c s)
  have "QuoteMeta (c # s) = (if special c then [char_of (92 :: nat), c] else [c]) @ QuoteMeta s"
    by (simp add: QuoteMeta_def)
  moreover have "(of_char c :: int) \<noteq> 92" if "\<not> special c"
    using that by (auto simp: special_def int_of_char)
  moreover have "(of_char (char_of (92 :: nat)) :: int) = 92" by (simp add: int_of_char)
  ultimately show ?case
    using Cons by (auto simp: quoted_def option.map_comp comp_def)
qed (cases "units t"; simp add: QuoteMeta_def)

lemma backslash_char: "char_of (92 :: nat) = CHR 0x5C"
  by code_simp

lemma special_cases: "special c \<longleftrightarrow> c \<in> set (''.+*?()|[]{}^$'' @ [CHR 0x5C])"
  unfolding special_def backslash_char [symmetric] by (auto simp flip: of_char_eq_iff [where 'a = nat])

lemma token_quoted: "token_of True (quoted c) us = Some (Atom (letter c), 0)"
proof (cases "special c")
  case True
  then have "token_of True (Esc c) us = Some (Atom (letter c), 0)"
    unfolding special_cases
    by (simp, elim disjE) (simp_all add: token_of_def letter_def perl_class_def unit_code_def alnum_def lower_char_def)
  with True show ?thesis by (simp add: quoted_def)
next
  case False
  then show ?thesis by (auto simp: quoted_def special_cases token_of_def letter_def)
qed

lemma lex_step: "lex ci (u # us) = (case token_of ci u us of None \<Rightarrow> None | Some (t, k) \<Rightarrow> map_option ((#) t) (lex ci (drop k us)))"
  by simp

lemma lex_quoted:
  "lex True (map quoted s @ us) = map_option ((@) (map (\<lambda>c. Atom (letter c)) s)) (lex True us)"
proof (induction s)
  case (Cons c s)
  then show ?case by (simp add: token_quoted option.map_comp comp_def)
qed (cases "lex True us"; simp)

definition slash_rx :: rx where
  "slash_rx = Or (sequence [Begin_Text]) (sequence [Cls True False [(92, 92), (47, 47)]])"

definition extension_rx :: rx where
  "extension_rx = sequence [letter (CHR ''.''), Rep 1 (Some 5) (Cls True False [(97, 122), (48, 57)])]"

definition file_rx :: "string \<Rightarrow> rx" where
  "file_rx name = sequence (slash_rx # map letter name @ [Rep 0 (Some 1) extension_rx, End_Text])"

lemma cat_of_eq: "cat_of cur = sequence (rev cur)"
  by (simp add: cat_of_def sequence_def foldr_conv_foldl)

lemma build_atoms: "build (map (\<lambda>c. Atom (f c)) cs @ ts) (alts, cur) fs = build ts (alts, rev (map f cs) @ cur) fs"
  by (induction cs arbitrary: cur) simp_all

definition prefix_units :: "rx_unit list" where
  "prefix_units = [Raw CHR ''('', Raw CHR ''^'', Raw CHR ''|'', Raw CHR ''['', Esc (char_of (92 :: nat)), Raw CHR ''/'', Raw CHR '']'', Raw CHR '')'']"

definition suffix_units :: "rx_unit list" where
  "suffix_units = the (units (''('' @ backslash @ ''.[a-z0-9]{1,5})?$''))"

lemma suffix_units: "units (''('' @ backslash @ ''.[a-z0-9]{1,5})?$'') = Some suffix_units"
  by code_simp

lemma prefix_units: "units (''(^|['' @ backslash @ backslash @ ''/])'' @ t) = map_option ((@) prefix_units) (units t)"
  by (cases "units t") (simp_all add: prefix_units_def backslash_def int_of_char)

lemma suffix_tokens:
  "lex True suffix_units = Some [Open_Group, Atom (letter (CHR ''.'')), Atom (Cls True False [(97, 122), (48, 57)]),
     Quant 1 (Some 5), Close_Group, Quant 0 (Some 1), Atom End_Text]"
  by code_simp

lemma prefix_tokens:
  "lex True (prefix_units @ us) = map_option ((@) [Open_Group, Atom Begin_Text, Bar,
     Atom (Cls True False [(92, 92), (47, 47)]), Close_Group]) (lex True us)"
  by (cases "lex True us")
    (simp_all add: prefix_units_def token_of_def Let_def unit_ranges_def unit_code_def perl_class_def alnum_def int_of_char backslash_char)

lemma extension_valid:
  "rep_valid (sequence [letter (CHR ''.''), Rep 1 (Some 5) (Cls True False [(97, 122), (48, 57)])]) 1000"
  by (simp add: sequence_def letter_def)

lemma file_pattern_parse:
  assumes "ascii name"
  shows "parse_rx (file_pattern name) = Some (file_rx name)"
proof -
  have "go_has_prefix (file_pattern name) ''(?i)''" by (simp add: file_pattern_def)
  moreover have "units (drop 4 (file_pattern name)) = Some (prefix_units @ map quoted name @ suffix_units)"
    using prefix_units units_QuoteMeta [OF assms] suffix_units by (simp add: file_pattern_def)
  moreover have "lex True (prefix_units @ map quoted name @ suffix_units) =
      Some ([Open_Group, Atom Begin_Text, Bar, Atom (Cls True False [(92, 92), (47, 47)]), Close_Group] @
        map (\<lambda>c. Atom (letter c)) name @ [Open_Group, Atom (letter (CHR ''.'')), Atom (Cls True False [(97, 122), (48, 57)]),
     Quant 1 (Some 5), Close_Group, Quant 0 (Some 1), Atom End_Text])"
    by (simp add: prefix_tokens lex_quoted suffix_tokens del: lex.simps)
  ultimately show ?thesis
    by (simp add: parse_rx_def build_atoms alts_of_def cat_of_eq file_rx_def slash_rx_def extension_rx_def
        extension_valid)
qed

text \<open>The expression matches what the pattern is for.\<close>

lemma slash_class: "cls_match True False [(92, 92), (47, 47)] c \<longleftrightarrow> separator c"
proof -
  have "c = CHR ''/'' \<longleftrightarrow> (of_char c :: nat) = 47" by (auto simp flip: of_char_eq_iff [where 'a = nat])
  then show ?thesis
    unfolding cls_match_def other_case_def in_ranges_simps separator_def int_of_char by auto
qed

lemma extension_class:
  "cls_match True False [(97, 122), (48, 57)] c \<longleftrightarrow>
     97 \<le> (of_char (lower_char c) :: nat) \<and> of_char (lower_char c) \<le> (122 :: nat) \<or>
     48 \<le> (of_char (lower_char c) :: nat) \<and> of_char (lower_char c) \<le> (57 :: nat)"
  unfolding cls_match_def other_case_def in_ranges_simps of_char_lower int_of_char by auto

lemma extension_lang: "lang (Rep 0 (Some 1) extension_rx) = {t. short_extension t}"
proof -
  have ext: "lang extension_rx = {CHR ''.'' # u | u. 1 \<le> length u \<and> length u \<le> 5 \<and>
      list_all (cls_match True False [(97, 122), (48, 57)]) u}"
  proof -
    have "lower_char d = lower_char CHR ''.'' \<longleftrightarrow> d = CHR ''.''" for d
    proof -
      have "lower_char d = lower_char CHR ''.'' \<longleftrightarrow> (of_char d :: nat) = 46"
        unfolding lower_char_eq of_char_lower by auto
      also have "\<dots> \<longleftrightarrow> d = CHR ''.''" by (auto simp flip: of_char_eq_iff [where 'a = nat])
      finally show ?thesis .
    qed
    with concat_singletons [of "\<lambda>k. 1 \<le> k \<and> k \<le> 5" "cls_match True False [(97, 122), (48, 57)]"]
    show ?thesis
      by (simp add: extension_rx_def letter_sequence_lang sequence_lang(1) sequence_lang(2) [of "Rep m n r" for m n r])
  qed
  have "t \<in> lang (Rep 0 (Some 1) extension_rx) \<longleftrightarrow> t = [] \<or> t \<in> lang extension_rx" for t
  proof -
    have "t \<in> lang (Rep 0 (Some 1) extension_rx) \<longleftrightarrow>
        (\<exists>us. length us \<le> 1 \<and> set us \<subseteq> lang extension_rx \<and> t = concat us)"
      by (simp add: conj_ac)
    also have "\<dots> \<longleftrightarrow> t = [] \<or> t \<in> lang extension_rx"
    proof
      assume "\<exists>us. length us \<le> 1 \<and> set us \<subseteq> lang extension_rx \<and> t = concat us"
      then obtain us where "length us \<le> 1" "set us \<subseteq> lang extension_rx" "t = concat us" by blast
      then show "t = [] \<or> t \<in> lang extension_rx" by (cases us) auto
    next
      assume "t = [] \<or> t \<in> lang extension_rx"
      then show "\<exists>us. length us \<le> 1 \<and> set us \<subseteq> lang extension_rx \<and> t = concat us"
        by (elim disjE) (rule exI [of _ "[]"], simp, rule exI [of _ "[t]"], simp)
    qed
    finally show ?thesis .
  qed
  moreover have "t = [] \<or> t \<in> lang extension_rx \<longleftrightarrow> short_extension t" for t
    unfolding ext short_extension_def
    by (cases t) (simp_all add: list_all_iff go_to_lower_def extension_class Suc_le_eq)
  ultimately show ?thesis by simp
qed

lemma plain_word: "plain (sequence (map letter s))"
  by (induction s) (simp_all add: sequence_simps letter_def)

lemma matching_append: "matching (sequence (rs @ qs)) w = matching (sequence rs) w O matching (sequence qs) w"
proof (induction rs)
  case Nil
  then show ?case using matching_onward [of "sequence qs" w] by (force simp: sequence_simps onward_def)
qed (simp add: sequence_simps O_assoc)

lemma slash_matching:
  "(i, p) \<in> matching slash_rx w \<longleftrightarrow>
     i = 0 \<and> p = 0 \<or> i < length w \<and> p = Suc i \<and> separator (w ! i)"
  by (auto simp: slash_rx_def sequence_simps slash_class)

lemma file_matching:
  "(i, j) \<in> matching (file_rx name) h \<longleftrightarrow> j = length h \<and>
     (\<exists>p q. (i, p) \<in> matching slash_rx h \<and> p \<le> q \<and> q \<le> length h \<and>
        go_to_lower (part p q h) = go_to_lower name \<and> short_extension (drop q h))"
proof -
  let ?e = "Rep 0 (Some 1) extension_rx"
  have e: "plain ?e" by (simp add: extension_rx_def sequence_simps letter_def)
  have "(q, j) \<in> matching (sequence [?e, End_Text]) h \<longleftrightarrow>
      j = length h \<and> q \<le> length h \<and> short_extension (drop q h)" for q
    using matching_lang [OF e, of q "length h" h, unfolded extension_lang]
    by (auto simp: sequence_simps part_def simp del: matching.simps(5))
  moreover have "(p, q) \<in> matching (sequence (map letter name)) h \<longleftrightarrow>
      p \<le> q \<and> q \<le> length h \<and> go_to_lower (part p q h) = go_to_lower name" for p q
    by (simp add: matching_lang [OF plain_word] word_lang)
  moreover have "matching (file_rx name) h =
      matching slash_rx h O matching (sequence (map letter name)) h O matching (sequence [?e, End_Text]) h"
    by (simp add: file_rx_def sequence_simps(2) [of slash_rx] matching_append)
  ultimately show ?thesis by (simp only: relcomp_unfold mem_Collect_eq split_conv) blast
qed

lemma file_rx_matches: "rx_matches (file_rx name) h \<longleftrightarrow> bad_file_matches name h"
proof
  assume "rx_matches (file_rx name) h"
  then obtain i j where "(i, j) \<in> matching (file_rx name) h" unfolding rx_matches_iff by auto
  then obtain p q where m: "(i, p) \<in> matching slash_rx h" "p \<le> q" "q \<le> length h"
    "go_to_lower (part p q h) = go_to_lower name" "short_extension (drop q h)"
    unfolding file_matching by blast
  have "h = take p h @ part p q h @ drop q h"
    using m(2) by (metis append_take_drop_id drop_drop le_add_diff_inverse2 part_def)
  moreover have "take p h = [] \<or> separator (last (take p h))"
    using m(1) unfolding slash_matching by (auto simp: take_Suc_conv_app_nth)
  ultimately show "bad_file_matches name h"
    using m(4,5) unfolding bad_file_spec by blast
next
  assume "bad_file_matches name h"
  then obtain pre base ext where h: "h = pre @ base @ ext" "pre = [] \<or> separator (last pre)"
    "go_to_lower base = go_to_lower name" "short_extension ext"
    unfolding bad_file_spec by blast
  let ?i = "if pre = [] then 0 else length pre - 1"
  have "(?i, length pre) \<in> matching slash_rx h"
    unfolding slash_matching h(1) using h(2) by (cases pre rule: rev_cases) (auto simp: nth_append)
  moreover have "go_to_lower (part (length pre) (length pre + length base) h) = go_to_lower name"
    "short_extension (drop (length pre + length base) h)"
    using h by (simp_all add: part_def)
  ultimately have "(?i, length h) \<in> matching (file_rx name) h"
    unfolding file_matching
    by (intro conjI refl exI [of _ "length pre"] exI [of _ "length pre + length base"]) (simp_all add: h(1))
  then show "rx_matches (file_rx name) h" unfolding rx_matches_iff by blast
qed

section \<open>The rules that are shipped\<close>

definition reads :: "rule_def \<Rightarrow> bool" where
  "reads d \<longleftrightarrow> parse_rx (rd_pattern d) \<noteq> None"

lemma reverse_shell_patterns: "list_all reads reverse_shell_rules"
  by code_simp

lemma tunnel_patterns: "list_all reads tunnel_rules"
  by code_simp

lemma credential_patterns: "list_all reads credential_rules"
  by code_simp

lemma lolbin_patterns: "list_all reads lolbin_rules"
  by code_simp

lemma persistence_patterns: "list_all reads persistence_rules"
  by code_simp

lemma antiforensics_patterns: "list_all reads antiforensics_rules"
  by code_simp

lemma recon_patterns: "list_all reads recon_rules"
  by code_simp

lemma path_patterns: "list_all reads path_rules"
  by code_simp

lemma log_patterns: "list_all reads log_rules"
  by code_simp

lemma builtin_patterns: "d \<in> set builtinRules \<Longrightarrow> \<exists>r. parse_rx (rd_pattern d) = Some r"
  using reverse_shell_patterns tunnel_patterns credential_patterns lolbin_patterns persistence_patterns
    antiforensics_patterns recon_patterns path_patterns log_patterns
  by (auto simp: builtinRules_def list_all_iff reads_def)

lemma agrees_matches:
  assumes "agrees compile p" "compile p = Some m" "parse_rx p = Some r" "ascii w"
  shows "m w \<longleftrightarrow> matching r w \<noteq> {}"
  using assms unfolding agrees_def rx_matches_iff by blast

lemma those_member: "those xs = Some ys \<Longrightarrow> Some y \<in> set xs \<Longrightarrow> y \<in> set ys"
  using those_Some [of xs ys] by auto

lemma NewEngine_builtin:
  assumes "NewEngine compile builtin cfg = Some e" "d \<in> set builtin" "rd_id d \<notin> set (cf_disabled cfg)"
  shows "\<exists>r \<in> set (en_rules e). r_id r = rd_id d \<and> r_category r = rd_category d \<and> r_target r = rd_target d \<and>
    compile (rd_pattern d) = Some (r_matches r) \<and> r_severity r = rd_severity d"
proof -
  have "compile (rd_pattern d) \<noteq> None"
    using NewEngine_None [of compile builtin cfg] assms by auto
  then obtain m where m: "compile (rd_pattern d) = Some m" by blast
  let ?r = "\<lparr>r_id = rd_id d, r_title = rd_title d, r_technique = rd_technique d, r_category = rd_category d,
    r_target = rd_target d, r_matches = m, r_severity = rd_severity d\<rparr>"
  from assms(1) obtain rs where rs: "set rs \<subseteq> set (en_rules e)"
    "those (map (buildRule compile) (filter (\<lambda>d. rd_id d \<notin> set (cf_disabled cfg)) builtin)) = Some rs"
    by (auto simp: NewEngine_def split: option.splits)
  have "Some ?r \<in> set (map (buildRule compile) (filter (\<lambda>d. rd_id d \<notin> set (cf_disabled cfg)) builtin))"
    using assms(2,3) m by (force simp: buildRule_def)
  from those_member [OF rs(2) this] rs(1) have "?r \<in> set (en_rules e)" by blast
  then show ?thesis by (rule bexI [rotated]) (simp add: m)
qed

text \<open>The text of an event that the rules are matched against, and for which target.\<close>

definition examined :: "event \<Rightarrow> string \<times> string" where
  "examined ev =
     (if e_category ev = CatProcess then
        (TargetProcess, go_trim_space (field_of ev ''exe'' @ '' '' @ field_of ev ''cmdline''))
      else if e_category ev = CatFile then (TargetPath, field_of ev ''path'')
      else (TargetLine, e_message ev))"

lemma rule_raises:
  assumes "e_category ev \<in> {CatProcess, CatFile, CatAuth}" "examined ev = (target, text)" "text \<noteq> []"
    "r \<in> set (en_rules e)" "applies ev target text r"
  shows "r_severity r \<le> e_severity (handled e ev)"
proof -
  have "r_severity r \<in> matching_severities e ev target text"
    using assms(4,5) by (auto simp: matching_severities_def)
  then have "r_severity r \<le> e_severity (applyRules e target text ev)"
    using assms(3) by (simp add: applyRules_severity matching_severities_def)
  also have "\<dots> \<le> e_severity (handled e ev)"
    using assms(1,2) escalation_checkWorldWritable [of "applyRules e target text ev"]
    by (auto simp: handled_def examined_def categories escalation_def)
  finally show ?thesis .
qed

lemma severity_top: "Critical \<le> s \<longleftrightarrow> s = Critical"
  by (cases s) (simp_all add: severity_order)

lemma Evaluate_above_info:
  "Info < e_severity (handled e ev) \<Longrightarrow> handled e ev \<in> set (fst (Evaluate e ev))"
  by (simp add: Evaluate_eq)

definition modelled_regexp :: compile where
  "modelled_regexp p = map_option rx_matches (parse_rx p)"

lemma modelled_regexp: "agrees modelled_regexp p"
  by (auto simp: agrees_def modelled_regexp_def)

lemma modelled_regexp_None [simp]: "modelled_regexp p = None \<longleftrightarrow> parse_rx p = None"
  by (simp add: modelled_regexp_def)

lemma default_fields:
  assumes "Default windows = Some cfg"
  shows "cf_rules cfg = []" "cf_disabled cfg = []" "cf_known_bad_files cfg = default_bad_files"
  using ApplyDefaults_fields [OF assms [unfolded Default_def]] by (simp_all add: zero_config_def)

lemmas default_rules = default_fields(1)

lemma default_tools: "Default windows = Some cfg \<Longrightarrow> list_all ascii (cf_known_bad_files cfg)"
  by (simp add: default_fields default_bad_files_def)

lemma default_engine:
  obtains cfg e where "Default False = Some cfg" "NewEngine modelled_regexp builtinRules cfg = Some e"
    "cf_disabled cfg = []"
proof -
  obtain cfg where cfg: "Default False = Some cfg" using Default_Some by blast
  have "parse_rx (file_pattern name) \<noteq> None" if "name \<in> set (cf_known_bad_files cfg)" for name
    using default_tools [OF cfg] that by (simp add: list_all_iff file_pattern_parse)
  moreover have "parse_rx (rd_pattern d) \<noteq> None" if "d \<in> set builtinRules" for d
    using builtin_patterns [OF that] by auto
  ultimately have "NewEngine modelled_regexp builtinRules cfg \<noteq> None"
    unfolding NewEngine_None modelled_regexp_None default_fields(1) [OF cfg] by auto
  with cfg that show ?thesis using default_fields(2) by blast
qed

section \<open>Properties\<close>

text \<open>
  C17 (error). The engine fails to load exactly if \<^verbatim>\<open>regexp.Compile\<close> refuses the pattern of a shipped
  rule in use, of a custom rule or of a known tool, or a custom rule names an unknown severity.
  All fifty shipped patterns, and those of all tool names in ASCII, are well formed: they are in
  the modelled syntax, with repetition counts within Go's limits.
\<close>

theorem shipped_rules_load:
  "(NewEngine compile builtinRules cfg = None \<longleftrightarrow>
     (\<exists>d \<in> set builtinRules. rd_id d \<notin> set (cf_disabled cfg) \<and> compile (rd_pattern d) = None) \<or>
     (\<exists>c \<in> set (cf_rules cfg). rc_pattern c \<noteq> [] \<and>
        (\<not> snd (parse_severity (rc_severity c)) \<or> compile (rc_pattern c) = None)) \<or>
     (\<exists>name \<in> set (cf_known_bad_files cfg). compile (file_pattern name) = None)) \<and>
   length builtinRules = 50 \<and> list_all (\<lambda>d. parse_rx (rd_pattern d) \<noteq> None) builtinRules \<and>
   (\<forall>name. ascii name \<longrightarrow> parse_rx (file_pattern name) \<noteq> None)"
proof -
  have "length builtinRules = 50" by (rule builtin_count)
  moreover have "list_all (\<lambda>d. parse_rx (rd_pattern d) \<noteq> None) builtinRules"
    using builtin_patterns by (auto simp: list_all_iff)
  ultimately show ?thesis using NewEngine_None file_pattern_parse by auto
qed

theorem shipped_rules_load_witness:
  "\<exists>cfg. Default False = Some cfg \<and> NewEngine modelled_regexp builtinRules cfg \<noteq> None"
proof -
  obtain cfg where cfg: "Default False = Some cfg" using Default_Some by blast
  have "list_all ascii (cf_known_bad_files cfg)" "cf_rules cfg = []"
    using default_tools [OF cfg] default_rules [OF cfg] by simp_all
  with shipped_rules_load [of modelled_regexp cfg] cfg show ?thesis
    by (auto simp: list_all_iff)
qed

text \<open>
  C14 (safety). No shipped rule is dead or masked: every one that is not disabled reads as an
  expression, and, where \<^verbatim>\<open>regexp.Compile\<close> agrees with the model on the pattern of that rule, an
  event of its category and target in whose ASCII text the expression matches comes out of the
  engine with at least the rule's severity.
\<close>

theorem shipped_rules_fire:
  assumes "NewEngine compile builtinRules cfg = Some e"
    and "d \<in> set builtinRules" and "rd_id d \<notin> set (cf_disabled cfg)" and "agrees compile (rd_pattern d)"
    and "e_category ev \<in> {CatProcess, CatFile, CatAuth}" and "rd_category d \<in> {[], e_category ev}"
    and "examined ev = (target, text)" and "rd_target d \<in> {TargetAny, target}"
    and "text \<noteq> []" and "ascii text"
  shows "\<exists>r. parse_rx (rd_pattern d) = Some r \<and>
    (matching r text \<noteq> {} \<longrightarrow>
      (\<exists>ev' \<in> set (fst (Evaluate e ev)). observed ev' = observed ev \<and> rd_severity d \<le> e_severity ev'))"
proof -
  obtain r where r: "parse_rx (rd_pattern d) = Some r" using builtin_patterns [OF assms(2)] by blast
  obtain q where q: "q \<in> set (en_rules e)" "r_category q = rd_category d" "r_target q = rd_target d"
    "compile (rd_pattern d) = Some (r_matches q)" "r_severity q = rd_severity d"
    using NewEngine_builtin [OF assms(1-3)] by blast
  have "handled e ev \<in> set (fst (Evaluate e ev)) \<and> rd_severity d \<le> e_severity (handled e ev)"
    if "matching r text \<noteq> {}"
  proof -
    have "r_matches q text" using agrees_matches [OF assms(4) q(4) r assms(10)] that by simp
    then have "applies ev target text q" using q(2,3) assms(6,8) by (auto simp: applies_def)
    from rule_raises [OF assms(5,7,9) q(1) this] have le: "rd_severity d \<le> e_severity (handled e ev)"
      by (simp add: q)
    moreover have "Info < rd_severity d" using builtin_reachable assms(2) by (simp add: list_all_iff)
    ultimately show ?thesis using Evaluate_above_info [of e ev] less_le_trans by blast
  qed
  then show ?thesis using r observed_handled [of e ev] by blast
qed

definition mimikatz_event :: event where
  "mimikatz_event = empty_event\<lparr>e_category := CatAuth, e_message := ''sudo: COMMAND=/tmp/Mimikatz''\<rparr>"

lemma mimikatz_matches: "rx_matches (sequence (map letter ''mimikatz'')) ''sudo: COMMAND=/tmp/Mimikatz''"
proof -
  have "go_to_lower ''Mimikatz'' = go_to_lower ''mimikatz''" by code_simp
  then show ?thesis
    unfolding rx_matches_lang [OF plain_word] word_lang
    by (intro exI [of _ "''sudo: COMMAND=/tmp/''"] exI [of _ "''Mimikatz''"] exI [of _ "[]"]) simp
qed

lemma mimikatz_parse: "parse_rx (rd_pattern (hd credential_rules)) = Some (sequence (map letter ''mimikatz''))"
  by code_simp

theorem shipped_rules_fire_witness:
  "\<exists>cfg e. Default False = Some cfg \<and> NewEngine modelled_regexp builtinRules cfg = Some e \<and>
    (\<exists>ev' \<in> set (fst (Evaluate e mimikatz_event)). e_severity ev' = Critical)"
proof -
  obtain cfg e where e: "Default False = Some cfg" "NewEngine modelled_regexp builtinRules cfg = Some e"
    "cf_disabled cfg = []"
    using default_engine .
  let ?d = "hd credential_rules"
  have d: "?d \<in> set builtinRules" "rd_category ?d = []" "rd_target ?d = TargetAny" "rd_severity ?d = Critical"
    by (simp_all add: builtinRules_def credential_rules_def)
  have ev: "e_category mimikatz_event = CatAuth" "examined mimikatz_event = (TargetLine, ''sudo: COMMAND=/tmp/Mimikatz'')"
    by (simp_all add: mimikatz_event_def examined_def categories)
  have "\<exists>ev' \<in> set (fst (Evaluate e mimikatz_event)). Critical \<le> e_severity ev'"
    using shipped_rules_fire [OF e(2) d(1) _ modelled_regexp _ _ ev(2)] mimikatz_matches mimikatz_parse
    by (auto simp: e(3) d ev(1) rx_matches_iff)
  then show ?thesis using e by (metis severity_top)
qed

end
