(* ===== verification/Alert.thy ===== *)
theory Alert
  imports Config "HOL-Library.Sublist"
begin

text \<open>
  \<^verbatim>\<open>internal/alert/alert.go\<close>: the manager that fans events out to channels. Each channel has
  a queue of at most 256 events, filled by the main loop and emptied by a worker of its own.
  A buffered Go channel is a list; a \<^verbatim>\<open>select\<close> with a \<^verbatim>\<open>default\<close> branch tests it in one atomic
  step, so the worker can run between two of the three tests of \<open>Dispatch\<close>.
\<close>

section \<open>The manager\<close>

definition queue_cap :: nat where "queue_cap = 256"

datatype dispatcher = Stdout | Discord | Ntfy | Webhook

fun dispatcher_name :: "dispatcher \<Rightarrow> string" where
  "dispatcher_name Stdout = ''stdout''"
| "dispatcher_name Discord = ''discord''"
| "dispatcher_name Ntfy = ''ntfy''"
| "dispatcher_name Webhook = ''webhook''"

record disp =
  di_d :: dispatcher
  di_min :: severity
  di_queue :: "event list"
  di_dropped :: nat

type_synonym manager = "disp list"

definition add :: "dispatcher \<Rightarrow> severity \<Rightarrow> manager \<Rightarrow> manager" where
  "add d sev m = m @ [\<lparr>di_d = d, di_min = sev, di_queue = [], di_dropped = 0\<rparr>]"

definition NewManager :: "config \<Rightarrow> manager" where
  "NewManager cfg =
     (let m = add Stdout Info [];
          a = cf_alerts cfg;
          m = (if dc_url (ac_discord a) \<noteq> [] then add Discord (dc_min_sev (ac_discord a)) m else m);
          m = (if nc_topic (ac_ntfy a) \<noteq> [] then add Ntfy (nc_min_sev (ac_ntfy a)) m else m) in
      if wc_url (ac_webhook a) \<noteq> [] then add Webhook (wc_min_sev (ac_webhook a)) m else m)"

definition Names :: "manager \<Rightarrow> string list" where
  "Names m = map (\<lambda>d. dispatcher_name (di_d d)) m"

section \<open>Dispatch\<close>

text \<open>The three tests of the loop body.\<close>

definition try_send :: "event \<Rightarrow> disp \<Rightarrow> bool \<times> disp" where
  "try_send ev d =
     (if length (di_queue d) < queue_cap then (True, d\<lparr>di_queue := di_queue d @ [ev]\<rparr>) else (False, d))"

definition drop_oldest :: "disp \<Rightarrow> disp" where
  "drop_oldest d =
     (case di_queue d of [] \<Rightarrow> d | old # q \<Rightarrow> d\<lparr>di_queue := q, di_dropped := di_dropped d + 1\<rparr>)"

text \<open>\<open>Dispatch\<close> while no worker runs.\<close>

definition offer :: "event \<Rightarrow> disp \<Rightarrow> disp" where
  "offer ev d =
     (if e_severity ev < di_min d then d
      else
        case try_send ev d of
          (True, d) \<Rightarrow> d
        | (False, d) \<Rightarrow> snd (try_send ev (drop_oldest d)))"

definition Dispatch :: "event \<Rightarrow> manager \<Rightarrow> manager" where
  "Dispatch ev m = map (offer ev) m"

text \<open>A worker takes the oldest event, and after sending it resets the counter of drops.\<close>

definition worker_take :: "disp \<Rightarrow> (event \<times> disp) option" where
  "worker_take d = (case di_queue d of [] \<Rightarrow> None | ev # q \<Rightarrow> Some (ev, d\<lparr>di_queue := q\<rparr>))"

definition worker_swap :: "disp \<Rightarrow> nat \<times> disp" where
  "worker_swap d = (di_dropped d, d\<lparr>di_dropped := 0\<rparr>)"

text \<open>
  The note about drops on standard error: what \<open>worker\<close> does behind each sent event. A run of the
  worker is the list of the drops counted between two sent events, with the time of the second.
\<close>

definition worker_note :: "int \<Rightarrow> int \<Rightarrow> disp \<Rightarrow> nat option \<times> int \<times> disp" where
  "worker_note now last_note d =
     (case worker_swap d of
        (n, d) \<Rightarrow> if 0 < n \<and> now - last_note > 30 * second then (Some n, now, d) else (None, last_note, d))"

fun worker_notes :: "int \<Rightarrow> (nat \<times> int) list \<Rightarrow> disp \<Rightarrow> nat list" where
  "worker_notes last_note [] d = []"
| "worker_notes last_note ((n, now) # rest) d =
     (case worker_note now last_note (d\<lparr>di_dropped := di_dropped d + n\<rparr>) of
        (None, last_note, d) \<Rightarrow> worker_notes last_note rest d
      | (Some n, last_note, d) \<Rightarrow> n # worker_notes last_note rest d)"

section \<open>sendWithRetry\<close>

text \<open>
  What the outside does: whether the \<open>i\<close>-th send succeeds, and whether the context is
  cancelled in the \<open>i\<close>-th pause. The result: the sends made, the time spent in pauses, and
  whether one of the sends succeeded.
\<close>

fun retry_loop :: "(nat \<Rightarrow> bool) \<Rightarrow> (nat \<Rightarrow> bool) \<Rightarrow> nat \<Rightarrow> nat \<Rightarrow> int \<Rightarrow> nat \<times> int \<times> bool" where
  "retry_loop sends cancelled 0 attempt backoff = (0, 0, False)"
| "retry_loop sends cancelled (Suc left) attempt backoff =
     (if sends attempt then (1, 0, True)
      else if cancelled attempt then (1, 0, False)
      else
        case retry_loop sends cancelled left (Suc attempt) (backoff * 5) of
          (n, slept, ok) \<Rightarrow> (Suc n, backoff + slept, ok))"

definition sendWithRetry :: "(nat \<Rightarrow> bool) \<Rightarrow> (nat \<Rightarrow> bool) \<Rightarrow> nat \<times> int \<times> bool" where
  "sendWithRetry sends cancelled = retry_loop sends cancelled 3 0 second"

section \<open>One channel with its worker\<close>

text \<open>
  The steps of the two goroutines on one channel. The main loop is idle or at one of the
  tests for an event; the worker is idle or sends an event. The ghost components record the
  events offered and the events the worker received.
\<close>

datatype dispatch_pc = Idle | Offering event | Dropping event | Retrying event

record channel =
  cn_disp :: disp
  cn_pc :: dispatch_pc
  cn_sending :: "event option"
  cn_offered :: "event list"
  cn_received :: "event list"
  cn_lost :: nat

inductive channel_step :: "channel \<Rightarrow> channel \<Rightarrow> bool" where
  skip: "cn_pc c = Idle \<Longrightarrow> e_severity (ev :: event) < di_min (cn_disp c) \<Longrightarrow> channel_step c c"
| begin_offer: "cn_pc c = Idle \<Longrightarrow> \<not> e_severity ev < di_min (cn_disp c) \<Longrightarrow>
    channel_step c (c\<lparr>cn_pc := Offering ev, cn_offered := cn_offered c @ [ev]\<rparr>)"
| offer_done: "cn_pc c = Offering ev \<Longrightarrow> try_send ev (cn_disp c) = (True, d) \<Longrightarrow>
    channel_step c (c\<lparr>cn_pc := Idle, cn_disp := d\<rparr>)"
| offer_full: "cn_pc c = Offering ev \<Longrightarrow> try_send ev (cn_disp c) = (False, d) \<Longrightarrow>
    channel_step c (c\<lparr>cn_pc := Dropping ev, cn_disp := d\<rparr>)"
| drop: "cn_pc c = Dropping ev \<Longrightarrow> channel_step c (c\<lparr>cn_pc := Retrying ev, cn_disp := drop_oldest (cn_disp c),
      cn_lost := (if di_queue (cn_disp c) = [] then cn_lost c else cn_lost c + 1)\<rparr>)"
| retry: "cn_pc c = Retrying ev \<Longrightarrow> try_send ev (cn_disp c) = (sent, d) \<Longrightarrow>
    channel_step c (c\<lparr>cn_pc := Idle, cn_disp := d, cn_lost := (if sent then cn_lost c else cn_lost c + 1)\<rparr>)"
| receive: "cn_sending c = None \<Longrightarrow> worker_take (cn_disp c) = Some (ev, d) \<Longrightarrow>
    channel_step c (c\<lparr>cn_sending := Some ev, cn_disp := d, cn_received := cn_received c @ [ev]\<rparr>)"
| sent: "cn_sending c = Some ev \<Longrightarrow>
    channel_step c (c\<lparr>cn_sending := None, cn_disp := snd (worker_swap (cn_disp c))\<rparr>)"

inductive channel_reachable :: "channel \<Rightarrow> channel \<Rightarrow> bool" for c0 where
  start: "channel_reachable c0 c0"
| step: "channel_reachable c0 c \<Longrightarrow> channel_step c c' \<Longrightarrow> channel_reachable c0 c'"

definition new_channel :: "dispatcher \<Rightarrow> severity \<Rightarrow> channel" where
  "new_channel d sev = \<lparr>cn_disp = \<lparr>di_d = d, di_min = sev, di_queue = [], di_dropped = 0\<rparr>, cn_pc = Idle,
     cn_sending = None, cn_offered = [], cn_received = [], cn_lost = 0\<rparr>"

text \<open>The offered events without the one the main loop still has in its hands.\<close>

fun in_hand :: "dispatch_pc \<Rightarrow> event list" where
  "in_hand Idle = []"
| "in_hand (Offering ev) = [ev]"
| "in_hand (Dropping ev) = [ev]"
| "in_hand (Retrying ev) = [ev]"

definition delivered :: "channel \<Rightarrow> event list" where
  "delivered c = cn_received c @ di_queue (cn_disp c)"

text \<open>
  The invariant: there is room when the main loop tries again, the events received and
  queued are in the order they were offered, with as many missing as are counted as lost,
  and the newest of them is the newest that was offered.
\<close>

definition channel_inv :: "channel \<Rightarrow> bool" where
  "channel_inv c \<longleftrightarrow>
     length (di_queue (cn_disp c)) \<le> queue_cap \<and>
     (\<forall>ev. cn_pc c = Retrying ev \<longrightarrow> length (di_queue (cn_disp c)) < queue_cap) \<and>
     (\<exists>accepted. cn_offered c = accepted @ in_hand (cn_pc c) \<and> subseq (delivered c) accepted \<and>
        length accepted = length (delivered c) + cn_lost c \<and>
        (accepted \<noteq> [] \<longrightarrow> cn_pc c = Idle \<or> (\<exists>ev. cn_pc c = Offering ev) \<longrightarrow>
           delivered c \<noteq> [] \<and> last (delivered c) = last accepted))"

inductive_cases channel_stepE: "channel_step c c'"

section \<open>The invariant holds\<close>

lemma try_send_simps:
  "try_send ev d = (True, d') \<longleftrightarrow> length (di_queue d) < queue_cap \<and> d' = d\<lparr>di_queue := di_queue d @ [ev]\<rparr>"
  "try_send ev d = (False, d') \<longleftrightarrow> \<not> length (di_queue d) < queue_cap \<and> d' = d"
  by (auto simp: try_send_def)

lemma drop_oldest_queue [simp]: "di_queue (drop_oldest d) = tl (di_queue d)" "di_min (drop_oldest d) = di_min d"
  by (simp_all add: drop_oldest_def split: list.split)

lemma queue_cap_pos: "0 < queue_cap" by (simp add: queue_cap_def)

lemma channel_inv_new: "channel_inv (new_channel d sev)"
  by (simp add: channel_inv_def new_channel_def delivered_def)

lemma channel_inv_accept:
  assumes "channel_inv c" and "in_hand (cn_pc c) = [ev]" and "length (di_queue (cn_disp c)) < queue_cap"
  shows "channel_inv (c\<lparr>cn_pc := Idle, cn_disp := (cn_disp c)\<lparr>di_queue := di_queue (cn_disp c) @ [ev]\<rparr>\<rparr>)"
proof -
  obtain acc where acc: "cn_offered c = acc @ [ev]" "subseq (delivered c) acc"
    "length acc = length (delivered c) + cn_lost c"
    using assms(1,2) by (auto simp: channel_inv_def)
  have "subseq (delivered c @ [ev]) (acc @ [ev])"
    using acc(2) by (rule list_emb_append_mono) simp
  with acc assms(3) show ?thesis
    by (auto simp: channel_inv_def delivered_def intro!: exI [of _ "acc @ [ev]"])
qed

lemma channel_inv_drop:
  assumes "channel_inv c" and "cn_pc c = Dropping ev"
  shows "channel_inv (c\<lparr>cn_pc := Retrying ev, cn_disp := drop_oldest (cn_disp c),
    cn_lost := (if di_queue (cn_disp c) = [] then cn_lost c else cn_lost c + 1)\<rparr>)"
proof -
  obtain acc where acc: "cn_offered c = acc @ [ev]" "subseq (delivered c) acc"
    "length acc = length (delivered c) + cn_lost c" and cap: "length (di_queue (cn_disp c)) \<le> queue_cap"
    using assms by (auto simp: channel_inv_def)
  have "subseq (cn_received c @ tl (di_queue (cn_disp c))) (delivered c)"
    unfolding delivered_def by (cases "di_queue (cn_disp c)") (auto intro: list_emb_append_mono)
  then have "subseq (cn_received c @ tl (di_queue (cn_disp c))) acc"
    using acc(2) by (rule subseq_order.trans)
  moreover have "length acc = length (cn_received c @ tl (di_queue (cn_disp c))) +
      (if di_queue (cn_disp c) = [] then cn_lost c else cn_lost c + 1)"
    using acc(3) by (cases "di_queue (cn_disp c)") (simp_all add: delivered_def)
  moreover have "length (tl (di_queue (cn_disp c))) < queue_cap"
    using cap queue_cap_pos by (cases "di_queue (cn_disp c)") auto
  ultimately show ?thesis
    using acc(1) by (auto simp: channel_inv_def delivered_def intro!: exI [of _ acc])
qed

lemma channel_inv_worker:
  assumes "channel_inv c" and "worker_take (cn_disp c) = Some (ev, d)"
  shows "channel_inv (c\<lparr>cn_sending := Some ev, cn_disp := d, cn_received := cn_received c @ [ev]\<rparr>)"
proof -
  obtain q where q: "di_queue (cn_disp c) = ev # q" "d = (cn_disp c)\<lparr>di_queue := q\<rparr>"
    using assms(2) by (auto simp: worker_take_def split: list.splits)
  have "delivered (c\<lparr>cn_sending := Some ev, cn_disp := d, cn_received := cn_received c @ [ev]\<rparr>) = delivered c"
    by (simp add: delivered_def q)
  with assms(1) show ?thesis by (auto simp: channel_inv_def q)
qed

lemma channel_inv_step:
  assumes "channel_step c c'" and "channel_inv c"
  shows "channel_inv c'"
  using assms
proof cases
  case (begin_offer ev)
  then show ?thesis using assms(2) by (auto simp: channel_inv_def delivered_def)
next
  case (offer_done ev d)
  then show ?thesis using channel_inv_accept [OF assms(2)] by (simp add: try_send_simps)
next
  case (offer_full ev d)
  then show ?thesis using assms(2) by (auto simp: channel_inv_def delivered_def try_send_simps)
next
  case (drop ev)
  then show ?thesis using channel_inv_drop [OF assms(2)] by simp
next
  case (retry ev sent d)
  then have "length (di_queue (cn_disp c)) < queue_cap"
    using assms(2) by (simp add: channel_inv_def)
  with retry have "sent" "d = (cn_disp c)\<lparr>di_queue := di_queue (cn_disp c) @ [ev]\<rparr>"
    by (auto simp: try_send_def)
  then show ?thesis
    using retry channel_inv_accept [OF assms(2)] \<open>length (di_queue (cn_disp c)) < queue_cap\<close> by simp
next
  case (receive ev d)
  then show ?thesis using channel_inv_worker [OF assms(2)] by simp
next
  case (sent ev)
  then show ?thesis using assms(2) by (simp add: channel_inv_def delivered_def worker_swap_def)
qed simp

lemma channel_reachable_inv:
  "channel_reachable c0 c \<Longrightarrow> channel_inv c0 \<Longrightarrow> channel_inv c"
  by (induction rule: channel_reachable.induct) (auto intro: channel_inv_step)

section \<open>The main loop alone\<close>

lemma offer_queue:
  assumes "length (di_queue d) \<le> queue_cap"
  shows "di_queue (offer ev d) =
      (if e_severity ev < di_min d then di_queue d else drop (length (di_queue d) + 1 - queue_cap) (di_queue d @ [ev]))"
    and "di_dropped (offer ev d) =
      (if e_severity ev < di_min d \<or> length (di_queue d) < queue_cap then di_dropped d else di_dropped d + 1)"
    and "di_min (offer ev d) = di_min d" and "length (di_queue (offer ev d)) \<le> queue_cap"
    and "di_d (offer ev d) = di_d d"
proof -
  have "di_queue d \<noteq> []" if "\<not> length (di_queue d) < queue_cap"
    using that queue_cap_pos by auto
  then show "di_queue (offer ev d) =
      (if e_severity ev < di_min d then di_queue d else drop (length (di_queue d) + 1 - queue_cap) (di_queue d @ [ev]))"
    and "di_dropped (offer ev d) =
      (if e_severity ev < di_min d \<or> length (di_queue d) < queue_cap then di_dropped d else di_dropped d + 1)"
    and "di_min (offer ev d) = di_min d" and "length (di_queue (offer ev d)) \<le> queue_cap"
    and "di_d (offer ev d) = di_d d"
    using assms queue_cap_pos
    by (cases "di_queue d"; simp add: offer_def try_send_def drop_oldest_def drop_Suc; fail)+
qed

text \<open>The last \<open>n\<close> elements.\<close>

definition newest :: "nat \<Rightarrow> 'a list \<Rightarrow> 'a list" where
  "newest n xs = drop (length xs - n) xs"

lemma newest_snoc:
  assumes "0 < n"
  shows "drop (length (newest n xs) + 1 - n) (newest n xs @ [x]) = newest n (xs @ [x])"
  using assms by (cases "length xs < n") (auto simp: newest_def Suc_diff_le drop_Suc tl_drop)

lemma fold_offer:
  assumes "di_queue d = newest queue_cap xs" and "di_dropped d = length xs - queue_cap"
  shows "di_queue (fold offer evs d) = newest queue_cap (xs @ filter (\<lambda>ev. di_min d \<le> e_severity ev) evs) \<and>
    di_dropped (fold offer evs d) = length (xs @ filter (\<lambda>ev. di_min d \<le> e_severity ev) evs) - queue_cap"
  using assms
proof (induction evs arbitrary: d xs)
  case (Cons ev evs)
  have len: "length (di_queue d) \<le> queue_cap"
    using Cons.prems(1) by (simp add: newest_def)
  note o = offer_queue [OF len, of ev]
  show ?case
  proof (cases "e_severity ev < di_min d")
    case True
    then have "offer ev d = d" by (simp add: offer_def)
    then show ?thesis
      using Cons.IH [of d xs] Cons.prems True by (simp add: not_le [symmetric])
  next
    case False
    have "di_queue (offer ev d) = newest queue_cap (xs @ [ev])"
      using o(1) False newest_snoc [OF queue_cap_pos, of xs ev] by (simp add: Cons.prems(1))
    moreover have "di_dropped (offer ev d) = length (xs @ [ev]) - queue_cap"
      using o(2) False Cons.prems by (auto simp: newest_def)
    ultimately show ?thesis
      using Cons.IH [of "offer ev d" "xs @ [ev]"] False o(3) by (simp add: not_less)
  qed
qed simp

section \<open>Notes about drops\<close>

lemma worker_note_eq:
  "worker_note now last_note d =
    (if 0 < di_dropped d \<and> now - last_note > 30 * second then (Some (di_dropped d), now, d\<lparr>di_dropped := 0\<rparr>)
     else (None, last_note, d\<lparr>di_dropped := 0\<rparr>))"
  by (simp add: worker_note_def worker_swap_def)

text \<open>
  The notes never claim more than was dropped. They may claim less: the counter is cleared behind
  every event, and what it held is forgotten if the last note is at most thirty seconds old.
\<close>

lemma notes_at_most_dropped:
  "sum_list (worker_notes last_note swaps d) \<le> di_dropped d + sum_list (map fst swaps)"
proof (induction last_note swaps d rule: worker_notes.induct)
  case (2 last_note n now rest d)
  then show ?case by (fastforce simp: worker_note_eq split: if_splits)
qed simp

lemma early_drops_unreported:
  assumes "\<forall>(n, now) \<in> set early. now - last_note \<le> 30 * second"
  shows "worker_notes last_note (early @ rest) d =
    worker_notes last_note rest (if early = [] then d else d\<lparr>di_dropped := 0\<rparr>)"
  using assms
proof (induction early arbitrary: d)
  case (Cons x early)
  then show ?case by (cases x) (auto simp: worker_note_eq)
qed simp

section \<open>Retries\<close>

lemma retry_loop_bound:
  "case retry_loop sends cancelled left attempt backoff of (n, slept, ok) \<Rightarrow>
     n \<le> left \<and> (ok \<longleftrightarrow> (\<exists>i < left. sends (attempt + i) \<and> (\<forall>j < i. \<not> sends (attempt + j) \<and> \<not> cancelled (attempt + j))))"
proof (induction left arbitrary: attempt backoff)
  case (Suc left)
  let ?P = "\<lambda>l a. \<exists>i < l. sends (a + i) \<and> (\<forall>j < i. \<not> sends (a + j) \<and> \<not> cancelled (a + j))"
  have P: "?P (Suc left) attempt \<longleftrightarrow> sends attempt \<or> \<not> cancelled attempt \<and> ?P left (Suc attempt)"
    unfolding Ex_less_Suc2 All_less_Suc2 by auto
  obtain n slept ok where r: "retry_loop sends cancelled left (Suc attempt) (backoff * 5) = (n, slept, ok)"
    using prod_cases3 by blast
  then have "n \<le> left \<and> (ok \<longleftrightarrow> ?P left (Suc attempt))"
    using Suc.IH [of "Suc attempt" "backoff * 5"] by simp
  then show ?case unfolding P by (simp add: r)
qed simp

section \<open>The main loop never waits\<close>

text \<open>
  A step of the main loop within \<open>Dispatch\<close>: a step that moves the main loop on from one of its
  tests. A step of the worker leaves the main loop where it is.
\<close>

definition main_step :: "channel \<Rightarrow> channel \<Rightarrow> bool" where
  "main_step c c' \<longleftrightarrow> channel_step c c' \<and> in_hand (cn_pc c) \<noteq> [] \<and> cn_pc c' \<noteq> cn_pc c"

text \<open>The dispatch of an event is over, and only the queue and the counts have changed.\<close>

definition finished :: "event \<Rightarrow> channel \<Rightarrow> channel \<Rightarrow> bool" where
  "finished ev c c' \<longleftrightarrow> cn_pc c' = Idle \<and> cn_offered c' = cn_offered c \<and> cn_sending c' = cn_sending c \<and>
     cn_received c' = cn_received c \<and> di_queue (cn_disp c') \<noteq> [] \<and> last (di_queue (cn_disp c')) = ev"

lemma finish_retrying:
  assumes "cn_pc c = Retrying ev" and "channel_inv c"
  shows "\<exists>c'. main_step c c' \<and> finished ev c c'"
proof -
  let ?d = "(cn_disp c)\<lparr>di_queue := di_queue (cn_disp c) @ [ev]\<rparr>"
  have "try_send ev (cn_disp c) = (True, ?d)"
    using assms by (simp add: try_send_def channel_inv_def)
  from channel_step.retry [OF assms(1) this] show ?thesis
    using assms(1) by (intro exI [of _ "c\<lparr>cn_pc := Idle, cn_disp := ?d\<rparr>"]) (simp add: main_step_def finished_def)
qed

lemma finish_dropping:
  assumes "cn_pc c = Dropping ev" and "channel_inv c"
  shows "\<exists>c'. (main_step ^^ 2) c c' \<and> finished ev c c'"
proof -
  let ?c = "c\<lparr>cn_pc := Retrying ev, cn_disp := drop_oldest (cn_disp c),
      cn_lost := (if di_queue (cn_disp c) = [] then cn_lost c else cn_lost c + 1)\<rparr>"
  note s = channel_step.drop [OF assms(1)]
  obtain c' where c': "main_step ?c c'" "finished ev ?c c'"
    using finish_retrying [OF _ channel_inv_step [OF s assms(2)], of ev] by auto
  have "main_step c ?c" using s assms(1) by (simp add: main_step_def)
  with c' show ?thesis by (intro exI [of _ c']) (auto simp: numeral_2_eq_2 finished_def)
qed

lemma finish_offering:
  assumes "cn_pc c = Offering ev" and "channel_inv c"
  shows "\<exists>n \<in> {1, 3}. \<exists>c'. (main_step ^^ n) c c' \<and> finished ev c c'"
proof (cases "try_send ev (cn_disp c)")
  case (Pair ok d)
  show ?thesis
  proof (cases ok)
    case True
    then have "main_step c (c\<lparr>cn_pc := Idle, cn_disp := d\<rparr>)"
      using Pair channel_step.offer_done [OF assms(1)] assms(1) by (simp add: main_step_def)
    moreover have "finished ev c (c\<lparr>cn_pc := Idle, cn_disp := d\<rparr>)"
      using True Pair by (simp add: try_send_simps finished_def)
    ultimately show ?thesis by (intro bexI [of _ 1]) auto
  next
    case False
    let ?c = "c\<lparr>cn_pc := Dropping ev, cn_disp := d\<rparr>"
    have s: "channel_step c ?c" using False Pair channel_step.offer_full [OF assms(1)] by simp
    obtain c' where c': "(main_step ^^ 2) ?c c'" "finished ev ?c c'"
      using finish_dropping [OF _ channel_inv_step [OF s assms(2)], of ev] by auto
    have "main_step c ?c" using s assms(1) by (simp add: main_step_def)
    from relpowp_Suc_I2 [OF this c'(1)] c'(2) show ?thesis
      by (intro bexI [of _ 3] exI [of _ c']) (auto simp: finished_def numeral_3_eq_3 numeral_2_eq_2)
  qed
qed

section \<open>Properties\<close>

text \<open>
  C21 (invariant). However the main loop and the worker of a channel interleave: the queue
  never has more than 256 events, the events the worker received and the queued ones are in
  the order in which they were offered, exactly as many are missing as were dropped, and
  between two dispatches the newest event offered is the newest one received or queued. The
  branch of \<open>Dispatch\<close> that gives up on the new event is never taken.
\<close>

theorem channel_keeps_newest:
  assumes "channel_reachable (new_channel d sev) c"
  shows "length (di_queue (cn_disp c)) \<le> 256 \<and>
    subseq (cn_received c @ di_queue (cn_disp c)) (cn_offered c) \<and>
    length (cn_offered c) = length (cn_received c @ di_queue (cn_disp c)) + cn_lost c + length (in_hand (cn_pc c)) \<and>
    (cn_pc c = Idle \<longrightarrow> cn_offered c \<noteq> [] \<longrightarrow> last (cn_received c @ di_queue (cn_disp c)) = last (cn_offered c)) \<and>
    (\<forall>ev. cn_pc c = Retrying ev \<longrightarrow> fst (try_send ev (cn_disp c)))"
proof -
  have inv: "channel_inv c"
    by (rule channel_reachable_inv [OF assms channel_inv_new])
  then obtain acc where acc: "cn_offered c = acc @ in_hand (cn_pc c)" "subseq (delivered c) acc"
    "length acc = length (delivered c) + cn_lost c"
    "acc \<noteq> [] \<Longrightarrow> cn_pc c = Idle \<Longrightarrow> last (delivered c) = last acc"
    unfolding channel_inv_def by blast
  have "subseq (delivered c) (cn_offered c)"
    unfolding acc(1) using acc(2) by (rule subseq_rev_drop_many)
  with inv acc show ?thesis
    by (auto simp: channel_inv_def delivered_def queue_cap_def try_send_def)
qed

theorem channel_keeps_newest_witness:
  "\<exists>c. channel_reachable (new_channel Stdout Info) c \<and> cn_offered c = [empty_event] \<and>
    last (cn_received c @ di_queue (cn_disp c)) = empty_event"
proof -
  let ?c = "new_channel Stdout Info"
  let ?o = "?c\<lparr>cn_pc := Offering empty_event, cn_offered := [empty_event]\<rparr>"
  let ?i = "?o\<lparr>cn_pc := Idle, cn_disp := (cn_disp ?o)\<lparr>di_queue := [empty_event]\<rparr>\<rparr>"
  have "channel_step ?c ?o"
    using channel_step.begin_offer [of ?c empty_event] by (simp add: new_channel_def empty_event_def)
  moreover have "channel_step ?o ?i"
    using channel_step.offer_done [of ?o empty_event "(cn_disp ?o)\<lparr>di_queue := [empty_event]\<rparr>"]
    by (simp add: try_send_simps new_channel_def queue_cap_def)
  ultimately have r: "channel_reachable ?c ?i"
    by (blast intro: channel_reachable.intros)
  then show ?thesis
    using channel_keeps_newest [OF r] by (intro exI [of _ ?i]) simp
qed

text \<open>
  C22 (liveness). \<open>Dispatch\<close> never waits: in every state that is reached during a dispatch,
  whatever the worker has done in between, the main loop can go on from that very state and
  finish the dispatch with at most three steps of its own, without any step of the worker. Then
  the event is the last one of the queue.
\<close>

theorem Dispatch_never_blocks:
  assumes "channel_reachable (new_channel d sev) c" and "in_hand (cn_pc c) = [ev]"
  shows "\<exists>n \<le> 3. \<exists>c'. (main_step ^^ n) c c' \<and> cn_pc c' = Idle \<and> cn_offered c' = cn_offered c \<and>
    cn_sending c' = cn_sending c \<and> cn_received c' = cn_received c \<and>
    di_queue (cn_disp c') \<noteq> [] \<and> last (di_queue (cn_disp c')) = ev"
proof -
  note inv = channel_reachable_inv [OF assms(1) channel_inv_new]
  have "\<exists>n \<le> 3. \<exists>c'. (main_step ^^ n) c c' \<and> finished ev c c'"
  proof (cases "cn_pc c")
    case (Offering ev')
    then have "cn_pc c = Offering ev" using assms(2) by simp
    from finish_offering [OF this inv] obtain n c' where "n \<in> {1, 3}" "(main_step ^^ n) c c'" "finished ev c c'"
      by blast
    then show ?thesis by (intro exI [of _ n]) auto
  next
    case (Dropping ev')
    then show ?thesis using finish_dropping [OF _ inv] assms(2) by (intro exI [of _ 2]) simp
  next
    case (Retrying ev')
    then show ?thesis using finish_retrying [OF _ inv] assms(2) by (intro exI [of _ 1]) (simp add: eq_OO)
  qed (use assms(2) in simp)
  then show ?thesis by (simp add: finished_def)
qed

theorem Dispatch_never_blocks_witness:
  "\<exists>c c' n. channel_reachable (new_channel Stdout Info) c \<and> cn_pc c = Offering empty_event \<and>
    (main_step ^^ n) c c' \<and> cn_pc c' = Idle \<and> last (di_queue (cn_disp c')) = empty_event"
proof -
  let ?c = "new_channel Stdout Info"
  let ?o = "?c\<lparr>cn_pc := Offering empty_event, cn_offered := [empty_event]\<rparr>"
  have "channel_step ?c ?o"
    using channel_step.begin_offer [of ?c empty_event] by (simp add: new_channel_def empty_event_def)
  from channel_reachable.step [OF channel_reachable.start this] have r: "channel_reachable ?c ?o" .
  from Dispatch_never_blocks [OF r, of empty_event] obtain n c' where "(main_step ^^ n) ?o c'" "cn_pc c' = Idle"
    "last (di_queue (cn_disp c')) = empty_event" by auto
  with r show ?thesis by (intro exI [of _ ?o] exI [of _ c'] exI [of _ n]) simp
qed

text \<open>
  A channel whose worker hangs keeps, of any burst of events, the newest
  256 that reach its minimum severity, in order, and counts the others as dropped; this is
  so for every channel of the manager, whatever the others do.
\<close>

theorem burst_keeps_newest:
  assumes "i < length (NewManager cfg)"
  shows "di_queue (fold Dispatch evs (NewManager cfg) ! i) =
      newest 256 (filter (\<lambda>ev. di_min (NewManager cfg ! i) \<le> e_severity ev) evs) \<and>
    di_dropped (fold Dispatch evs (NewManager cfg) ! i) =
      length (filter (\<lambda>ev. di_min (NewManager cfg ! i) \<le> e_severity ev) evs) - 256"
proof -
  have split: "fold Dispatch evs m ! i = fold offer evs (m ! i)" if "i < length m" for m
    using that by (induction evs arbitrary: m) (simp_all add: Dispatch_def)
  have "di_queue d = [] \<and> di_dropped d = 0" if "d \<in> set (NewManager cfg)" for d
    using that by (auto simp: NewManager_def add_def Let_def split: if_splits)
  then have "di_queue (NewManager cfg ! i) = newest queue_cap []" "di_dropped (NewManager cfg ! i) = length [] - queue_cap"
    using assms by (simp_all add: newest_def)
  from fold_offer [OF this, of evs] show ?thesis
    unfolding split [OF assms] by (simp add: queue_cap_def)
qed

theorem burst_keeps_newest_witness:
  "di_queue (fold Dispatch [empty_event, empty_event\<lparr>e_severity := High\<rparr>] (NewManager zero_config) ! 0) =
    [empty_event, empty_event\<lparr>e_severity := High\<rparr>]"
  using burst_keeps_newest [of 0 zero_config "[empty_event, empty_event\<lparr>e_severity := High\<rparr>]"]
  by (simp add: NewManager_def add_def zero_config_def newest_def Info_least)

text \<open>
  A send is tried at most three times, with pauses of one, five and
  twenty-five seconds after the failures, the last of them after the last try; it succeeds
  exactly if one of the tries does before which there was no cancelled pause.
\<close>

theorem sendWithRetry_bounded:
  "case sendWithRetry sends cancelled of (n, slept, ok) \<Rightarrow>
     n \<le> 3 \<and> slept \<in> {0, 1 * second, 6 * second, 31 * second} \<and>
     (slept = 31 * second \<longleftrightarrow> (\<forall>i < 3. \<not> sends i \<and> \<not> cancelled i)) \<and>
     (ok \<longleftrightarrow> (\<exists>i < 3. sends i \<and> (\<forall>j < i. \<not> sends j \<and> \<not> cancelled j)))"
  by (simp add: sendWithRetry_def numeral_3_eq_3 All_less_Suc2 Ex_less_Suc2)

theorem sendWithRetry_bounded_witness:
  "snd (snd (sendWithRetry (\<lambda>i. i = 2) (\<lambda>_. False))) \<and> fst (sendWithRetry (\<lambda>i. i = 2) (\<lambda>_. False)) \<le> 3"
  using sendWithRetry_bounded [of "\<lambda>i. i = 2" "\<lambda>_. False"]
  by (auto simp: numeral_3_eq_3 All_less_Suc2 Ex_less_Suc2 split: prod.splits)

end
