(* ===== verification/Channels.thy ===== *)
theory Channels
  imports Alert Go_Text
begin

text \<open>
  The alert channels: \<^verbatim>\<open>internal/alert/discord.go\<close>, \<^verbatim>\<open>ntfy.go\<close>, \<^verbatim>\<open>webhook.go\<close> and
  \<^verbatim>\<open>stdout.go\<close>. The server's answers, JSON, the HMAC and the printing of times are parameters;
  a map is visited in the order of a list of its keys.
\<close>

section \<open>Discord\<close>

record discord_embed =
  de_title :: string
  de_description :: string
  de_color :: nat
  de_footer :: string
  de_timestamp :: string

fun severityColor :: "severity \<Rightarrow> nat" where
  "severityColor Critical = 0xe74c3c"
| "severityColor High = 0xe67e22"
| "severityColor Medium = 0xf1c40f"
| "severityColor Low = 0x3498db"
| "severityColor Info = 0x95a5a6"

definition techniqueSuffix :: "event \<Rightarrow> string" where
  "techniqueSuffix ev =
     (if e_technique ev = [] then [] else '' '' @ map char_of [194, 183 :: nat] @ '' '' @ e_technique ev)"

definition newline_char :: char where "newline_char = CHR 0x0A"

definition embed_text :: "string list \<Rightarrow> event \<Rightarrow> string" where
  "embed_text keys ev =
     e_message ev
     @ (if e_host ev \<noteq> [] then newline_char # ''**host:** '' @ e_host ev else [])
     @ concat (map (\<lambda>k. newline_char # ''**'' @ k @ '':** '' @ field_of ev k) keys)"

definition embedFor :: "(int \<Rightarrow> string) \<Rightarrow> string list \<Rightarrow> event \<Rightarrow> discord_embed" where
  "embedFor rfc3339 keys ev =
     (let desc = embed_text keys ev;
          desc = (if length desc > 4000 then take 3997 desc @ ''...'' else desc) in
      \<lparr>de_title = ''['' @ severity_string (e_severity ev) @ ''] '' @ e_title ev, de_description = desc,
       de_color = severityColor (e_severity ev), de_footer = ''elmer'' @ techniqueSuffix ev,
       de_timestamp = rfc3339 (e_time ev)\<rparr>)"

text \<open>The answer to a request: none, or a status code and the header \<^verbatim>\<open>Retry-After\<close>.\<close>

datatype response = No_Response | Response nat string

definition retry_after :: "string \<Rightarrow> int \<Rightarrow> int" where
  "retry_after header backoff =
     (if header \<noteq> [] then
        (case atoi header of (secs, ok) \<Rightarrow>
           if ok then sint (word_of_int secs * word_of_int second :: u64) else backoff)
      else backoff)"

text \<open>
  The loop of \<open>post\<close> with \<open>n\<close> attempts left, the answers being numbered: whether the batch was
  accepted, and how long it slept.
\<close>

fun post_loop :: "(nat \<Rightarrow> response) \<Rightarrow> nat \<Rightarrow> nat \<Rightarrow> int \<Rightarrow> bool \<times> int list" where
  "post_loop server 0 attempt backoff = (False, [])"
| "post_loop server (Suc n) attempt backoff =
     (case server attempt of
        No_Response \<Rightarrow> (False, [])
      | Response code header \<Rightarrow>
          if 200 \<le> code \<and> code < 300 then (True, [])
          else if code = 429 then
            (case post_loop server n (attempt + 1) (backoff * 2) of
               (ok, waits) \<Rightarrow> (ok, retry_after header backoff # waits))
          else (False, []))"

definition post :: "(nat \<Rightarrow> response) \<Rightarrow> bool \<times> int list" where
  "post server = post_loop server 4 0 (2 * second)"

text \<open>\<open>Send\<close> puts an event into the pending batch and cannot fail; \<open>flush\<close> posts ten at a time.\<close>

definition discord_send :: "event \<Rightarrow> event list \<Rightarrow> event list \<times> bool" where
  "discord_send ev pending = (pending @ [ev], True)"

function batches_from :: "nat \<Rightarrow> 'a list \<Rightarrow> 'a list list" where
  "batches_from start batch =
     (if start < length batch then
        (let stop = min (start + 10) (length batch) in
         take (stop - start) (drop start batch) # batches_from (start + 10) batch)
      else [])"
  by pat_completeness auto
termination
  by (relation "measure (\<lambda>(start, batch). length batch - start)") auto

declare batches_from.simps [simp del]

text \<open>The posts of a flush with their outcomes, and the pending list after it.\<close>

definition flush :: "(event list \<Rightarrow> nat \<Rightarrow> response) \<Rightarrow> event list \<Rightarrow> (event list \<times> bool) list \<times> event list" where
  "flush server pending =
     (if pending = [] then ([], [])
      else (map (\<lambda>b. (b, fst (post (server b)))) (batches_from 0 pending), []))"

datatype discord_step = Send event | Flush "event list \<Rightarrow> nat \<Rightarrow> response"

fun discord_run :: "discord_step list \<Rightarrow> event list \<Rightarrow> (event list \<times> bool) list \<times> event list" where
  "discord_run [] pending = ([], pending)"
| "discord_run (Send ev # steps) pending = discord_run steps (fst (discord_send ev pending))"
| "discord_run (Flush server # steps) pending =
     (case flush server pending of (posts, pending) \<Rightarrow>
        case discord_run steps pending of (posts', pending) \<Rightarrow> (posts @ posts', pending))"

section \<open>ntfy\<close>

fun ntfyPriority :: "severity \<Rightarrow> nat" where
  "ntfyPriority Critical = 5"
| "ntfyPriority High = 4"
| "ntfyPriority Medium = 3"
| "ntfyPriority Low = 2"
| "ntfyPriority Info = 1"

fun ntfyTags :: "severity \<Rightarrow> string" where
  "ntfyTags Critical = ''rotating_light''"
| "ntfyTags High = ''fire''"
| "ntfyTags Medium = ''warning''"
| "ntfyTags _ = ''information_source''"

record request =
  rq_url :: string
  rq_headers :: "(string \<times> string) list"
  rq_body :: string

definition ntfy_keys :: "string list" where
  "ntfy_keys = [''pid'', ''uid'', ''user'', ''src_ip'', ''dst_ip'', ''port'', ''path'', ''comm'', ''exe'', ''cmdline'']"

definition ntfy_request :: "string \<Rightarrow> ntfy_config \<Rightarrow> event \<Rightarrow> request" where
  "ntfy_request host cfg ev =
     \<lparr>rq_url = rev (dropWhile (\<lambda>c. c = CHR ''/'') (rev (nc_url cfg))) @ ''/'' @ nc_topic cfg,
      rq_headers =
        [(''Title'', ''['' @ severity_string (e_severity ev) @ ''] '' @ e_title ev @ '' @ '' @ host),
         (''Priority'', format_uint (ntfyPriority (e_severity ev))), (''Tags'', ntfyTags (e_severity ev))]
        @ (if nc_token cfg \<noteq> [] then [(''Authorization'', ''Bearer '' @ nc_token cfg)] else []),
      rq_body = e_title ev @ '': '' @ e_message ev
        @ (if e_host ev \<noteq> [] then newline_char # ''host: '' @ e_host ev else [])
        @ concat (map (\<lambda>k. if field_of ev k \<noteq> [] then newline_char # k @ '': '' @ field_of ev k else []) ntfy_keys)\<rparr>"

text \<open>\<open>Send\<close> of ntfy and of the webhook succeeds for an answer with a status of 200 to 299.\<close>

definition accepted :: "response \<Rightarrow> bool" where
  "accepted r = (case r of No_Response \<Rightarrow> False | Response code _ \<Rightarrow> \<not> (code < 200 \<or> code \<ge> 300))"

section \<open>Webhook\<close>

definition webhook_request :: "(event \<Rightarrow> string) \<Rightarrow> (string \<Rightarrow> string \<Rightarrow> string) \<Rightarrow> webhook_config \<Rightarrow> event \<Rightarrow> request" where
  "webhook_request json hmac_hex cfg ev =
     \<lparr>rq_url = wc_url cfg,
      rq_headers = [(''Content-Type'', ''application/json''), (''User-Agent'', ''elmer'')]
        @ (if wc_secret cfg \<noteq> [] then [(''X-Elmer-Signature'', ''sha256='' @ hmac_hex (wc_secret cfg) (json ev))] else []),
      rq_body = json ev\<rparr>"

section \<open>Standard output\<close>

definition color_reset :: string where
  "color_reset = escape ''[0m''"

definition pad_right :: "nat \<Rightarrow> string \<Rightarrow> string" where
  "pad_right n s = s @ replicate (n - length s) CHR '' ''"

definition stdout_keys :: "string list" where
  "stdout_keys = [''path'', ''exe'', ''cmdline'', ''dst_ip'', ''port'', ''user'', ''src_ip'', ''command'']"

definition stdout_line :: "(event \<Rightarrow> string) \<Rightarrow> (int \<Rightarrow> string) \<Rightarrow> bool \<Rightarrow> bool \<Rightarrow> event \<Rightarrow> string" where
  "stdout_line json clock_time use_json color ev =
     (if use_json then json ev @ [newline_char]
      else
        let sev = severity_string (e_severity ev);
            parts = concat (map (\<lambda>k. if field_of ev k \<noteq> [] then [k @ ''='' @ field_of ev k] else []) stdout_keys) in
        clock_time (e_time ev) @ '' ''
        @ (if color then severity_color (e_severity ev) @ pad_right 8 sev @ color_reset else pad_right 8 sev)
        @ '' '' @ pad_right 9 (e_category ev) @ '' '' @ e_title ev
        @ (if e_message ev \<noteq> [] then '': '' @ e_message ev else [])
        @ (if parts \<noteq> [] then '' ['' @ go_join parts '' '' @ '']'' else [])
        @ (if e_host ev \<noteq> [] then '' ('' @ e_host ev @ '')'' else []) @ [newline_char])"

section \<open>Batches\<close>

lemma batches_from_concat: "concat (batches_from start batch) = drop start batch"
proof (induction start batch rule: batches_from.induct)
  case (1 start batch)
  show ?case
  proof (cases "start < length batch")
    case True
    have "take (min (start + 10) (length batch) - start) (drop start batch) @ drop (start + 10) batch = drop start batch"
    proof -
      have "take (min (start + 10) (length batch) - start) (drop start batch) = take 10 (drop start batch)"
        by (simp add: min_def)
      moreover have "drop (start + 10) batch = drop 10 (drop start batch)" by (simp add: add.commute)
      ultimately show ?thesis by (simp only: append_take_drop_id)
    qed
    with 1 True show ?thesis by (subst batches_from.simps) (simp add: Let_def)
  next
    case False
    then show ?thesis by (subst batches_from.simps) simp
  qed
qed

lemma batches_from_sizes: "list_all (\<lambda>b. b \<noteq> [] \<and> length b \<le> 10) (batches_from start batch)"
proof (induction start batch rule: batches_from.induct)
  case (1 start batch)
  then show ?case by (subst batches_from.simps) (auto simp: Let_def)
qed

fun sent :: "discord_step list \<Rightarrow> event list" where
  "sent [] = []"
| "sent (Send ev # steps) = ev # sent steps"
| "sent (Flush server # steps) = sent steps"

lemma discord_run_sent:
  "discord_run steps pending = (posts, left_over) \<Longrightarrow>
     concat (map fst posts) @ left_over = pending @ sent steps \<and>
     list_all (\<lambda>(b, _). b \<noteq> [] \<and> length b \<le> 10) posts"
proof (induction steps pending arbitrary: posts rule: discord_run.induct)
  case (2 ev steps pending)
  then show ?case by (simp add: discord_send_def)
next
  case (3 server steps pending)
  obtain posts1 p1 where f: "flush server pending = (posts1, p1)" by fastforce
  obtain posts2 where r: "discord_run steps p1 = (posts2, left_over)" and p: "posts = posts1 @ posts2"
    using "3.prems" f by (auto split: prod.splits)
  have "concat (map fst posts1) @ p1 = pending"
    using f batches_from_concat [of 0 pending] by (auto simp: flush_def comp_def split: if_splits)
  moreover have "list_all (\<lambda>(b, _). b \<noteq> [] \<and> length b \<le> 10) posts1"
    using f batches_from_sizes [of 0 pending] by (auto simp: flush_def list_all_iff split: if_splits)
  ultimately show ?case using "3.IH" [OF f [symmetric] r] by (auto simp: p)
qed simp

section \<open>Rate limits\<close>

fun too_many :: "response \<Rightarrow> bool" where
  "too_many No_Response = False"
| "too_many (Response code _) = (code = 429)"

lemma post_loop_outcome:
  "fst (post_loop server n attempt backoff) =
     (case find (\<lambda>r. \<not> too_many r) (map server [attempt..<attempt + n]) of None \<Rightarrow> False | Some r \<Rightarrow> accepted r) \<and>
   length (snd (post_loop server n attempt backoff)) = length (takeWhile too_many (map server [attempt..<attempt + n]))"
proof (induction server n attempt backoff rule: post_loop.induct)
  case (2 server n attempt backoff)
  have u: "[attempt..<attempt + Suc n] = attempt # [attempt + 1..<attempt + 1 + n]"
    by (simp add: upt_conv_Cons)
  show ?case
  proof (cases "server attempt")
    case No_Response
    then show ?thesis unfolding u by (simp add: accepted_def)
  next
    case (Response code header)
    show ?thesis
    proof (cases "code = 429")
      case True
      with "2.IH" [OF Response _ True] Response show ?thesis unfolding u by (auto simp: split_beta)
    next
      case False
      with Response show ?thesis unfolding u by (auto simp: accepted_def)
    qed
  qed
qed simp

lemma embed_description_bound: "length (de_description (embedFor rfc3339 keys ev)) \<le> 4000"
  by (simp add: embedFor_def Let_def)

section \<open>Properties\<close>

text \<open>
  C37 (invariant). Over any run of the Discord channel every event it took is posted at most
  once, in the order in which they came, in batches of one to ten, or is still pending; a batch
  whose post fails is not tried again, as nothing returns to the pending list.
\<close>

theorem discord_posts_once:
  "concat (map fst (fst (discord_run steps []))) @ snd (discord_run steps []) = sent steps \<and>
   list_all (\<lambda>(b, _). b \<noteq> [] \<and> length b \<le> 10) (fst (discord_run steps []))"
  using discord_run_sent [of steps "[]" "fst (discord_run steps [])" "snd (discord_run steps [])"] by simp

text \<open>
  C38 (termination). A batch is posted with at most four requests: it is accepted exactly if the
  first answer of these that is not a rate limit is a success, and the channel sleeps once for
  each rate limit before that answer.
\<close>

theorem post_outcome:
  "fst (post server) =
     (case find (\<lambda>r. \<not> too_many r) (map server [0..<4]) of None \<Rightarrow> False | Some r \<Rightarrow> accepted r) \<and>
   length (snd (post server)) = length (takeWhile too_many (map server [0..<4]))"
  using post_loop_outcome [of server 4 0 "2 * second"] by (simp add: post_def)

end
