(* ===== verification/App.thy ===== *)
theory App
  imports Detect_Correct Alert Networks
begin

text \<open>
  \<^verbatim>\<open>internal/app/app.go\<close>: the main loop of \<open>Run\<close>. For each event of a monitor it evaluates
  the rules, drops repeated alerts and dispatches the rest. The clock is a parameter: the
  time that the \<open>i\<close>-th call of \<^verbatim>\<open>time.Now\<close> returns.
\<close>

section \<open>The main loop\<close>

record app =
  ap_engine :: engine
  ap_dedupe :: dedupe
  ap_alerts :: manager

definition new_app :: "compile \<Rightarrow> rule_def list \<Rightarrow> config \<Rightarrow> app option" where
  "new_app compile builtin cfg =
     map_option (\<lambda>e. \<lparr>ap_engine = e, ap_dedupe = new_dedupe (cf_dedupe_cool cfg), ap_alerts = NewManager cfg\<rparr>)
       (NewEngine compile builtin cfg)"

text \<open>The inner loop over what \<open>Evaluate\<close> returned, and which of it was dispatched.\<close>

fun app_deliver :: "event list \<Rightarrow> (nat \<Rightarrow> int) \<Rightarrow> app \<Rightarrow> event list \<times> app" where
  "app_deliver [] clock a = ([], a)"
| "app_deliver (out # outs) clock a =
     (case suppressed out (clock 0) (ap_dedupe a) of (again, d) \<Rightarrow>
        let a = a\<lparr>ap_dedupe := d\<rparr> in
        if again then app_deliver outs (\<lambda>i. clock (Suc i)) a
        else
          case app_deliver outs (\<lambda>i. clock (Suc i)) (a\<lparr>ap_alerts := Dispatch out (ap_alerts a)\<rparr>) of
            (sent, a) \<Rightarrow> (out # sent, a))"

definition app_step :: "event \<Rightarrow> (nat \<Rightarrow> int) \<Rightarrow> app \<Rightarrow> event list \<times> app" where
  "app_step ev clock a =
     (case Evaluate (ap_engine a) ev of (outs, e) \<Rightarrow> app_deliver outs clock (a\<lparr>ap_engine := e\<rparr>))"

text \<open>
  The loop over the events, by itself: what the workers do meanwhile is added below and changes
  nothing of what is dispatched (\<open>app_trace_dispatched\<close>).
\<close>

fun app_run :: "(event \<times> (nat \<Rightarrow> int)) list \<Rightarrow> app \<Rightarrow> event list list \<times> app" where
  "app_run [] a = ([], a)"
| "app_run ((ev, clock) # evs) a =
     (case app_step ev clock a of (sent, a) \<Rightarrow>
      case app_run evs a of (sents, a) \<Rightarrow> (sent # sents, a))"

section \<open>The workers\<close>

text \<open>
  \<^verbatim>\<open>go alerts.Run(ctx)\<close> starts the workers before the loop, so they take events from the queues in
  between. An input is an event of a monitor, a worker that takes an event, or one that has sent
  it and clears its counter. (That a worker may also run in the middle of a dispatch is the subject
  of \<open>channel_step\<close>.) The result has what was dispatched and what the workers took.
\<close>

datatype app_input = Arrives event "nat \<Rightarrow> int" | Takes nat | Sent nat

definition app_take :: "nat \<Rightarrow> app \<Rightarrow> event list \<times> app" where
  "app_take i a =
     (if i < length (ap_alerts a) then
        case worker_take (ap_alerts a ! i) of
          None \<Rightarrow> ([], a)
        | Some (ev, d) \<Rightarrow> ([ev], a\<lparr>ap_alerts := (ap_alerts a)[i := d]\<rparr>)
      else ([], a))"

definition app_sent :: "nat \<Rightarrow> app \<Rightarrow> app" where
  "app_sent i a = a\<lparr>ap_alerts := (ap_alerts a)[i := snd (worker_swap (ap_alerts a ! i))]\<rparr>"

fun app_trace :: "app_input list \<Rightarrow> app \<Rightarrow> event list list \<times> (nat \<times> event) list \<times> app" where
  "app_trace [] a = ([], [], a)"
| "app_trace (Arrives ev clock # ins) a =
     (case app_step ev clock a of (sent, a) \<Rightarrow>
      case app_trace ins a of (sents, taken, a) \<Rightarrow> (sent # sents, taken, a))"
| "app_trace (Takes i # ins) a =
     (case app_take i a of (evs, a) \<Rightarrow>
      case app_trace ins a of (sents, taken, a) \<Rightarrow> (sents, map (Pair i) evs @ taken, a))"
| "app_trace (Sent i # ins) a = app_trace ins (app_sent i a)"

fun arrivals :: "app_input list \<Rightarrow> (event \<times> (nat \<Rightarrow> int)) list" where
  "arrivals [] = []"
| "arrivals (Arrives ev clock # ins) = (ev, clock) # arrivals ins"
| "arrivals (_ # ins) = arrivals ins"

definition taken_by :: "nat \<Rightarrow> (nat \<times> event) list \<Rightarrow> event list" where
  "taken_by i taken = map snd (filter (\<lambda>x. fst x = i) taken)"

section \<open>The loop as a composition\<close>

text \<open>
  Everything the engine returns, in order, with the time of the check for repetition; what
  of it the de-duplicator lets pass.
\<close>

definition stamped :: "event list \<Rightarrow> (nat \<Rightarrow> int) \<Rightarrow> (event \<times> int) list" where
  "stamped outs clock = zip outs (map clock [0..<length outs])"

fun app_log :: "(event \<times> (nat \<Rightarrow> int)) list \<Rightarrow> engine \<Rightarrow> (event \<times> int) list" where
  "app_log [] e = []"
| "app_log ((ev, clock) # evs) e = stamped (fst (Evaluate e ev)) clock @ app_log evs (snd (Evaluate e ev))"

definition passed :: "dedupe \<Rightarrow> (event \<times> int) list \<Rightarrow> event list" where
  "passed d es = map (fst \<circ> fst) (filter (\<lambda>(x, again). \<not> again) (zip es (fst (dedupe_run d es))))"

lemma stamped_Cons [simp]: "stamped (out # outs) clock = (out, clock 0) # stamped outs (\<lambda>i. clock (Suc i))"
  by (simp add: stamped_def upt_conv_Cons map_Suc_upt [symmetric] comp_def del: upt_Suc)

lemma stamped_Nil [simp]: "stamped [] clock = []"
  by (simp add: stamped_def)

lemma passed_simps [simp]:
  "passed d [] = []"
  "passed d ((e, now) # es) =
     (if fst (suppressed e now d) then passed (snd (suppressed e now d)) es
      else e # passed (snd (suppressed e now d)) es)"
  by (simp_all add: passed_def)

lemma snd_dedupe_run_Cons [simp]:
  "snd (dedupe_run d ((e, now) # es)) = snd (dedupe_run (snd (suppressed e now d)) es)"
  by (simp add: dedupe_run.simps split: prod.split)

lemma passed_append: "passed d (xs @ ys) = passed d xs @ passed (snd (dedupe_run d xs)) ys"
proof (induction xs arbitrary: d)
  case (Cons x xs)
  then show ?case by (cases x) simp
qed simp

lemma snd_dedupe_run_append: "snd (dedupe_run d (xs @ ys)) = snd (dedupe_run (snd (dedupe_run d xs)) ys)"
proof (induction xs arbitrary: d)
  case (Cons x xs)
  then show ?case by (cases x) simp
qed simp

lemma app_deliver_eq:
  "app_deliver outs clock a =
     (passed (ap_dedupe a) (stamped outs clock),
      a\<lparr>ap_dedupe := snd (dedupe_run (ap_dedupe a) (stamped outs clock)),
        ap_alerts := fold Dispatch (passed (ap_dedupe a) (stamped outs clock)) (ap_alerts a)\<rparr>)"
  by (induction outs clock a rule: app_deliver.induct) (simp_all add: Let_def split: prod.split)

lemma app_step_eq:
  "app_step ev clock a =
     (passed (ap_dedupe a) (stamped (fst (Evaluate (ap_engine a) ev)) clock),
      a\<lparr>ap_engine := snd (Evaluate (ap_engine a) ev),
        ap_dedupe := snd (dedupe_run (ap_dedupe a) (stamped (fst (Evaluate (ap_engine a) ev)) clock)),
        ap_alerts := fold Dispatch (passed (ap_dedupe a) (stamped (fst (Evaluate (ap_engine a) ev)) clock)) (ap_alerts a)\<rparr>)"
  by (simp add: app_step_def app_deliver_eq split: prod.split)

lemma app_run_eq:
  "concat (fst (app_run evs a)) = passed (ap_dedupe a) (app_log evs (ap_engine a)) \<and>
   ap_alerts (snd (app_run evs a)) = fold Dispatch (concat (fst (app_run evs a))) (ap_alerts a) \<and>
   ap_dedupe (snd (app_run evs a)) = snd (dedupe_run (ap_dedupe a) (app_log evs (ap_engine a)))"
proof (induction evs arbitrary: a)
  case (Cons x evs)
  obtain ev clock where x: "x = (ev, clock)" by (cases x)
  let ?a = "snd (app_step ev clock a)"
  have step: "fst (app_step ev clock a) = passed (ap_dedupe a) (stamped (fst (Evaluate (ap_engine a) ev)) clock)"
    "ap_engine ?a = snd (Evaluate (ap_engine a) ev)"
    "ap_dedupe ?a = snd (dedupe_run (ap_dedupe a) (stamped (fst (Evaluate (ap_engine a) ev)) clock))"
    "ap_alerts ?a = fold Dispatch (passed (ap_dedupe a) (stamped (fst (Evaluate (ap_engine a) ev)) clock)) (ap_alerts a)"
    by (simp_all add: app_step_eq)
  have "app_run (x # evs) a = (fst (app_step ev clock a) # fst (app_run evs ?a), snd (app_run evs ?a))"
    by (simp add: x split: prod.split)
  then show ?case
    using Cons.IH [of ?a] step by (simp add: x passed_append snd_dedupe_run_append)
qed simp

section \<open>Queues that are emptied meanwhile\<close>

lemma fst_app_run_Cons:
  "fst (app_run ((ev, clock) # evs) a) = fst (app_step ev clock a) # fst (app_run evs (snd (app_step ev clock a)))"
  by (simp split: prod.split)

lemma fst_app_trace:
  "fst (app_trace (Arrives ev clock # ins) a) = fst (app_step ev clock a) # fst (app_trace ins (snd (app_step ev clock a)))"
  "fst (app_trace (Takes i # ins) a) = fst (app_trace ins (snd (app_take i a)))"
  "fst (app_trace (Sent i # ins) a) = fst (app_trace ins (app_sent i a))"
  by (simp_all split: prod.split)

text \<open>Workers change nothing of what is dispatched.\<close>

lemma app_run_cong:
  "ap_engine a = ap_engine b \<Longrightarrow> ap_dedupe a = ap_dedupe b \<Longrightarrow> fst (app_run evs a) = fst (app_run evs b)"
proof (induction evs arbitrary: a b)
  case (Cons x evs)
  obtain ev clock where x: "x = (ev, clock)" by (cases x)
  have "fst (app_run evs (snd (app_step ev clock a))) = fst (app_run evs (snd (app_step ev clock b)))"
    using Cons.prems by (intro Cons.IH) (simp_all add: app_step_eq)
  then show ?case using Cons.prems unfolding x fst_app_run_Cons by (simp add: app_step_eq)
qed simp

lemma app_take_keeps:
  "ap_engine (snd (app_take i a)) = ap_engine a" "ap_dedupe (snd (app_take i a)) = ap_dedupe a"
  "ap_engine (app_sent i a) = ap_engine a" "ap_dedupe (app_sent i a) = ap_dedupe a"
  by (simp_all add: app_take_def app_sent_def split: option.split prod.split)

lemma app_trace_dispatched: "fst (app_trace ins a) = fst (app_run (arrivals ins) a)"
proof (induction ins a rule: app_trace.induct)
  case (2 ev clock ins a)
  then show ?case unfolding arrivals.simps fst_app_trace fst_app_run_Cons by (metis prod.collapse)
next
  case (3 i ins a)
  then have "fst (app_trace ins (snd (app_take i a))) = fst (app_run (arrivals ins) (snd (app_take i a)))"
    by (metis prod.collapse)
  also have "\<dots> = fst (app_run (arrivals ins) a)" by (intro app_run_cong app_take_keeps)
  finally show ?case unfolding fst_app_trace by simp
next
  case (4 i ins a)
  also have "fst (app_run (arrivals ins) (app_sent i a)) = fst (app_run (arrivals ins) a)"
    by (intro app_run_cong app_take_keeps)
  finally show ?case unfolding fst_app_trace by simp
qed simp

text \<open>
  A channel to which \<open>offered\<close> was dispatched and whose worker has taken \<open>got\<close>: nothing out of
  order, the newest kept, and nothing lost as long as the queue cannot have been full.
\<close>

definition kept :: "disp \<Rightarrow> event list \<Rightarrow> event list \<Rightarrow> bool" where
  "kept d offered got \<longleftrightarrow> length (di_queue d) \<le> queue_cap \<and> subseq (got @ di_queue d) offered \<and>
     (offered \<noteq> [] \<longrightarrow> got @ di_queue d \<noteq> [] \<and> last (got @ di_queue d) = last offered) \<and>
     (length offered \<le> queue_cap \<longrightarrow> got @ di_queue d = offered) \<and>
     (got = [] \<longrightarrow> di_queue d = newest queue_cap offered)"

lemma kept_offer:
  assumes "kept d offered got"
  shows "kept (offer ev d) (offered @ (if di_min d \<le> e_severity ev then [ev] else [])) got"
proof (cases "di_min d \<le> e_severity ev")
  case True
  let ?q = "drop (length (di_queue d) + 1 - queue_cap) (di_queue d @ [ev])"
  have len: "length (di_queue d) \<le> queue_cap" using assms by (simp add: kept_def)
  have q: "di_queue (offer ev d) = ?q" using offer_queue(1) [OF len] True by simp
  have ne: "?q \<noteq> []" "last ?q = ev" using len queue_cap_pos by (simp_all add: last_drop)
  have "subseq ?q (di_queue d @ [ev])" by (metis append_take_drop_id list_emb_append2 subseq_order.refl)
  then have "subseq (got @ ?q) (got @ di_queue d @ [ev])" by (intro list_emb_append_mono) auto
  also have "subseq (got @ di_queue d @ [ev]) (offered @ [ev])"
    using assms list_emb_append_mono [of "(=)" "got @ di_queue d" offered "[ev]" "[ev]"] by (simp add: kept_def)
  finally have sub: "subseq (got @ ?q) (offered @ [ev])" .
  have all: "got @ ?q = offered @ [ev]" if "length (offered @ [ev]) \<le> queue_cap"
  proof -
    have "got @ di_queue d = offered" using assms that by (simp add: kept_def)
    moreover from this have "length (di_queue d) < queue_cap" using that by auto
    ultimately show ?thesis by auto
  qed
  have new: "?q = newest queue_cap (offered @ [ev])" if "got = []"
    using assms that newest_snoc [OF queue_cap_pos, of offered ev] by (simp add: kept_def)
  have "length ?q \<le> queue_cap" using queue_cap_pos by simp
  with sub ne all new True show ?thesis by (simp add: kept_def q)
next
  case False
  then have "offer ev d = d" by (simp add: offer_def not_le)
  with False assms show ?thesis by simp
qed

lemma offer_min: "length (di_queue d) \<le> queue_cap \<Longrightarrow> di_min (offer ev d) = di_min d"
  by (rule offer_queue(3))

lemma kept_offers:
  "kept d offered got \<Longrightarrow>
   kept (fold offer evs d) (offered @ filter (\<lambda>ev. di_min d \<le> e_severity ev) evs) got \<and> di_min (fold offer evs d) = di_min d"
proof (induction evs arbitrary: d offered)
  case (Cons ev evs)
  have m: "di_min (offer ev d) = di_min d" using Cons.prems by (intro offer_min) (simp add: kept_def)
  from Cons.IH [OF kept_offer [OF Cons.prems, of ev]] m show ?case by (simp split: if_splits)
qed simp

lemma kept_cong: "di_queue d = di_queue d' \<Longrightarrow> kept d = kept d'"
  by (simp add: kept_def fun_eq_iff)

lemma kept_take:
  "kept d offered got \<Longrightarrow> worker_take d = Some (ev, d') \<Longrightarrow> kept d' offered (got @ [ev]) \<and> di_min d' = di_min d"
  by (auto simp: kept_def worker_take_def split: list.splits)

lemma kept_swap: "kept d offered got \<Longrightarrow> kept (snd (worker_swap d)) offered got \<and> di_min (snd (worker_swap d)) = di_min d"
  using kept_cong [of "snd (worker_swap d)" d] by (simp add: worker_swap_def)

lemma fold_Dispatch_nth: "i < length m \<Longrightarrow> fold Dispatch evs m ! i = fold offer evs (m ! i) \<and> length (fold Dispatch evs m) = length m"
  by (induction evs arbitrary: m) (simp_all add: Dispatch_def)

lemma taken_by_simps [simp]:
  "taken_by i [] = []" "taken_by i (xs @ ys) = taken_by i xs @ taken_by i ys"
  "taken_by i (map (Pair j) evs) = (if i = j then evs else [])"
  by (simp_all add: taken_by_def comp_def filter_map)

lemma app_trace_kept:
  assumes "app_trace ins a = (sents, taken, a')" and "i < length (ap_alerts a)" and "kept (ap_alerts a ! i) offered got"
  shows "i < length (ap_alerts a') \<and>
    kept (ap_alerts a' ! i) (offered @ filter (\<lambda>ev. di_min (ap_alerts a ! i) \<le> e_severity ev) (concat sents)) (got @ taken_by i taken)"
  using assms
proof (induction ins a arbitrary: sents taken offered got rule: app_trace.induct)
  case (2 ev clock ins a)
  obtain sent b where b: "app_step ev clock a = (sent, b)" by fastforce
  obtain rest where rest: "app_trace ins b = (rest, taken, a')" "sents = sent # rest"
    using "2.prems"(1) b by (auto split: prod.splits)
  have al: "ap_alerts b = fold Dispatch sent (ap_alerts a)" using b by (auto simp: app_step_eq)
  from fold_Dispatch_nth [OF "2.prems"(2), of sent] kept_offers [OF "2.prems"(3), of sent]
  have "kept (ap_alerts b ! i) (offered @ filter (\<lambda>ev. di_min (ap_alerts a ! i) \<le> e_severity ev) sent) got"
    "i < length (ap_alerts b)" "di_min (ap_alerts b ! i) = di_min (ap_alerts a ! i)"
    using "2.prems"(2) by (simp_all add: al)
  from "2.IH" [OF b [symmetric] rest(1) this(2,1)] this(3) show ?case by (simp add: rest(2))
next
  case (3 j ins a)
  obtain evs b where b: "app_take j a = (evs, b)" by fastforce
  obtain rest where rest: "app_trace ins b = (sents, rest, a')" "taken = map (Pair j) evs @ rest"
    using "3.prems"(1) b by (auto split: prod.splits)
  have "i < length (ap_alerts b)" "di_min (ap_alerts b ! i) = di_min (ap_alerts a ! i)"
    "kept (ap_alerts b ! i) offered (got @ taken_by i (map (Pair j) evs))"
    using b "3.prems"(2,3) kept_take [OF "3.prems"(3)]
    by (auto simp: app_take_def nth_list_update split: if_splits option.splits prod.splits)
  from "3.IH" [OF b [symmetric] rest(1) this(1,3)] this(2) show ?case by (simp add: rest(2))
next
  case (4 j ins a)
  have "i < length (ap_alerts (app_sent j a))" "di_min (ap_alerts (app_sent j a) ! i) = di_min (ap_alerts a ! i)"
    "kept (ap_alerts (app_sent j a) ! i) offered got"
    using "4.prems"(2,3) kept_swap [OF "4.prems"(3)] by (cases "j = i"; simp add: app_sent_def)+
  from "4.IH" [OF _ this(1,3)] this(2) "4.prems"(1) show ?case by simp
qed simp

section \<open>A burst of failed logins\<close>

text \<open>
  One failed login per second from one address. The state after \<open>n\<close> of them, with the
  default window and levels: the series has the last two minutes, and the first alert is in
  the table of the de-duplicator.
\<close>

definition burst :: "nat \<Rightarrow> (event \<times> (nat \<Rightarrow> int)) list" where
  "burst n = map (\<lambda>i. (attack (int i * second), \<lambda>_. int i * second)) [0..<n]"

definition burst_series :: "nat \<Rightarrow> int list" where
  "burst_series n = map (\<lambda>i. int i * second) [n - 120..<n]"

definition burst_engine :: "config \<Rightarrow> nat \<Rightarrow> engine \<Rightarrow> bool" where
  "burst_engine cfg n e \<longleftrightarrow>
     en_cfg e = cfg \<and> th_window (en_brute e) = 2 * minute \<and> th_levels (en_brute e) = brute_levels cfg \<and>
     th_series (en_brute e) ''203.0.113.9'' = burst_series n"

lemma burst_kept:
  "filter (\<lambda>ts. ts > int n * second - 2 * minute) (burst_series n) @ [int n * second] = burst_series (Suc n)"
proof -
  have "filter (\<lambda>ts. ts > int n * second - 2 * minute) (map (\<lambda>i. int i * second) xs) =
      map (\<lambda>i. int i * second) (filter (\<lambda>i. int n - 120 < int i) xs)" for xs :: "nat list"
    by (induction xs) auto
  moreover have "filter (\<lambda>i. int n - 120 < int i) [n - 120..<n] = [n - 119..<n]"
  proof (cases "n < 120")
    case True
    then have "filter (\<lambda>i. int n - 120 < int i) [n - 120..<n] = [n - 120..<n]"
      by (intro filter_True) auto
    with True show ?thesis by (cases "n = 119") auto
  next
    case False
    then have "[n - 120..<n] = (n - 120) # [n - 119..<n]"
      by (subst upt_conv_Cons) (simp_all add: Suc_diff_le [symmetric])
    moreover have "filter (\<lambda>i. int n - 120 < int i) [n - 119..<n] = [n - 119..<n]"
      using False by (intro filter_True) auto
    ultimately show ?thesis using False by simp
  qed
  ultimately show ?thesis
    by (simp add: burst_series_def)
qed

lemma length_burst_series: "length (burst_series n) = min n 120"
  by (simp add: burst_series_def)

text \<open>What the engine returns for the \<open>n\<close>-th login.\<close>

definition burst_alert :: "config \<Rightarrow> threshold_level \<Rightarrow> int \<Rightarrow> event" where
  "burst_alert cfg lv t =
     \<lparr>e_time = t, e_severity = tl_severity lv, e_category = CatAuth, e_title = tl_title lv,
      e_message = itoa (tl_count lv) @ '' failed logins from '' @ ''203.0.113.9'' @ '' within ''
        @ duration_string (cf_brute_force_window cfg) @ '' (last user: '' @ [] @ '')'',
      e_fields = Some [''src_ip'' \<mapsto> ''203.0.113.9''], e_technique = ''T1110'', e_host = [],
      e_key = ''bruteforce/203.0.113.9''\<rparr>"

definition burst_out :: "config \<Rightarrow> nat \<Rightarrow> (event \<times> int) list" where
  "burst_out cfg n =
     (if n = 4 then [(burst_alert cfg (brute_levels cfg ! 0) (int n * second), int n * second)]
      else if n = 19 then [(burst_alert cfg (brute_levels cfg ! 1) (int n * second), int n * second)]
      else []) @ [(attack (int n * second), int n * second)]"

definition default_levels :: "config \<Rightarrow> bool" where
  "default_levels cfg \<longleftrightarrow> cf_brute_force_window cfg = 2 * minute \<and> cf_brute_fire_count cfg = 5 \<and>
     cf_brute_force_high_cnt cfg = 20 \<and> cf_dedupe_cool cfg = 60 * second"

lemma attack_simps:
  "e_category (attack t) = CatAuth" "e_message (attack t) = []" "e_key (attack t) = []" "e_severity (attack t) = Info"
  by (simp_all add: attack_def empty_event_def)

lemma attack_user: "field_of (attack t) ''user'' = []"
proof -
  have "field_of (empty_event\<lparr>e_time := t, e_category := CatAuth\<rparr>) ''user'' = []"
    by (simp add: empty_event_def field_of_def)
  then show ?thesis by (simp add: attack_def)
qed

lemma handled_attack: "handled e (attack t) = attack t"
  by (simp add: handled_def attack_simps categories applyRules_def)

lemma Evaluate_attack:
  assumes "burst_engine cfg n e" and "default_levels cfg"
  shows "stamped (fst (Evaluate e (attack (int n * second)))) (\<lambda>_. int n * second) = burst_out cfg n \<and>
    burst_engine cfg (Suc n) (snd (Evaluate e (attack (int n * second))))"
proof -
  let ?t = "int n * second"
  have e: "en_cfg e = cfg" "th_window (en_brute e) = 2 * minute" "th_levels (en_brute e) = brute_levels cfg"
    "th_series (en_brute e) ''203.0.113.9'' = burst_series n"
    using assms(1) by (simp_all add: burst_engine_def)
  have kept: "filter (\<lambda>ts. ts > ?t - 2 * minute) (th_series (en_brute e) ''203.0.113.9'') @ [?t] = burst_series (Suc n)"
    unfolding e(4) by (rule burst_kept)
  have level: "find (\<lambda>l. int (length (burst_series (Suc n))) = tl_count l) (brute_levels cfg) =
      (if n = 4 then Some (brute_levels cfg ! 0) else if n = 19 then Some (brute_levels cfg ! 1) else None)"
    using assms(2) by (auto simp: length_burst_series brute_levels_def default_levels_def)
  have hit: "hit ''203.0.113.9'' ?t (en_brute e) =
      (if n = 4 then Some (brute_levels cfg ! 0) else if n = 19 then Some (brute_levels cfg ! 1) else None,
       (en_brute e)\<lparr>th_series := (th_series (en_brute e))(''203.0.113.9'' := burst_series (Suc n))\<rparr>)"
    unfolding hit_def Let_def e(2,3) kept level ..
  have out: "fst (Evaluate e (attack ?t)) = fst (correlated e (attack ?t)) @ [attack ?t]"
    by (simp add: Evaluate_eq handled_attack passThrough_def attack_simps categories)
  show ?thesis
    using e by (simp add: out snd_Evaluate correlated_hit hit attack_simps attack_user burst_out_def burst_alert_def burst_engine_def)
qed

lemma app_log_burst:
  assumes "burst_engine cfg n e" and "default_levels cfg"
  shows "app_log (map (\<lambda>i. (attack (int i * second), \<lambda>_. int i * second)) [n..<n + k]) e =
    concat (map (burst_out cfg) [n..<n + k])"
  using assms(1)
proof (induction k arbitrary: n e)
  case (Suc k)
  have "[n..<n + Suc k] = n # [Suc n..<Suc n + k]"
    by (simp add: upt_conv_Cons)
  then show ?case
    using Suc.IH [of "Suc n" "snd (Evaluate e (attack (int n * second)))"] Evaluate_attack [OF Suc.prems assms(2)]
    by simp
qed simp

text \<open>The second alert comes fifteen seconds after the first, under the same key.\<close>

definition alert_recorded :: "nat \<Rightarrow> dedupe \<Rightarrow> bool" where
  "alert_recorded n d \<longleftrightarrow> dd_cooldown d = 60 * second \<and>
     (if n \<le> 4 then dd_last d = [] else dd_last d = [(''bruteforce/203.0.113.9'', 4 * second)])"

lemma suppressed_burst:
  assumes "alert_recorded n d"
  shows "alert_recorded (Suc n) (snd (dedupe_run d (burst_out cfg n))) \<and>
    passed d (burst_out cfg n) =
      (if n = 4 then [burst_alert cfg (brute_levels cfg ! 0) (int n * second)] else []) @ [attack (int n * second)]"
  using assms
  by (auto simp: alert_recorded_def burst_out_def suppressed_def burst_alert_def attack_simps Let_def)

lemma passed_burst:
  assumes "alert_recorded n d" and "x \<in> set (passed d (concat (map (burst_out cfg) [n..<n + k])))"
  shows "e_severity x \<le> Medium"
  using assms
proof (induction k arbitrary: n d)
  case (Suc k)
  have split: "[n..<n + Suc k] = n # [Suc n..<Suc n + k]"
    by (simp add: upt_conv_Cons)
  note s = suppressed_burst [OF Suc.prems(1), of cfg]
  have "x \<in> set (passed d (burst_out cfg n)) \<or>
      x \<in> set (passed (snd (dedupe_run d (burst_out cfg n))) (concat (map (burst_out cfg) [Suc n..<Suc n + k])))"
    using Suc.prems(2) unfolding split by (simp add: passed_append)
  then show ?case
  proof
    assume "x \<in> set (passed d (burst_out cfg n))"
    then show ?thesis
      using s by (auto simp: burst_alert_def brute_levels_def attack_simps Info_least split: if_splits)
  qed (rule Suc.IH [OF conjunct1 [OF s]])
qed simp

lemma new_app_fields:
  assumes "new_app compile builtin cfg = Some a"
  shows "NewEngine compile builtin cfg = Some (ap_engine a)" "ap_dedupe a = new_dedupe (cf_dedupe_cool cfg)"
    "ap_alerts a = NewManager cfg"
  using assms by (auto simp: new_app_def)

lemma passed_nth:
  assumes "j < length es" and "\<not> fst (dedupe_run d es) ! j"
  shows "fst (es ! j) \<in> set (passed d es)"
proof -
  have "(es ! j, fst (dedupe_run d es) ! j) \<in> set (zip es (fst (dedupe_run d es)))"
    using assms(1) by (auto simp: set_zip)
  with assms(2) show ?thesis
    unfolding passed_def by (force simp: comp_def)
qed

lemma Dispatch_queues:
  assumes "i < length (NewManager cfg)"
  shows "di_queue (fold Dispatch evs (NewManager cfg) ! i) =
    newest queue_cap (filter (\<lambda>ev. di_min (NewManager cfg ! i) \<le> e_severity ev) evs)"
proof -
  have split: "fold Dispatch evs m ! i = fold offer evs (m ! i)" if "i < length m" for m
    using that by (induction evs arbitrary: m) (simp_all add: Dispatch_def)
  have "di_queue d = [] \<and> di_dropped d = 0" if "d \<in> set (NewManager cfg)" for d
    using that by (auto simp: NewManager_def add_def Let_def split: if_splits)
  then have "di_queue (NewManager cfg ! i) = newest queue_cap []" "di_dropped (NewManager cfg ! i) = length [] - queue_cap"
    using assms by (simp_all add: newest_def)
  from fold_offer [OF this, of evs] show ?thesis
    unfolding split [OF assms] by simp
qed

lemma app_step_fresh:
  assumes "new_app compile builtin cfg = Some a" and "fst (Evaluate (ap_engine a) ev) = [alert]"
  shows "fst (app_step ev clock a) = [alert] \<and>
    ap_alerts (snd (app_step ev clock a)) = Dispatch alert (NewManager cfg)"
proof -
  obtain e where "Evaluate (ap_engine a) ev = ([alert], e)"
    using assms(2) by (cases "Evaluate (ap_engine a) ev") simp
  then show ?thesis
    by (simp add: app_step_def app_deliver_eq new_app_fields [OF assms(1)] new_dedupe_def suppressed_def)
qed

lemma dispatched_unless_repeated:
  assumes "new_app compile builtin cfg = Some a" and "j < length (app_log evs (ap_engine a))"
  shows "fst (app_log evs (ap_engine a) ! j) \<in> set (concat (fst (app_run evs a))) \<or>
    e_key (fst (app_log evs (ap_engine a) ! j)) \<noteq> [] \<and>
    (\<exists>i < j. e_key (fst (app_log evs (ap_engine a) ! i)) = e_key (fst (app_log evs (ap_engine a) ! j)) \<and>
       fst (app_log evs (ap_engine a) ! i) \<in> set (concat (fst (app_run evs a))) \<and>
       snd (app_log evs (ap_engine a) ! j) - snd (app_log evs (ap_engine a) ! i) < cf_dedupe_cool cfg)"
proof (cases "fst (dedupe_run (new_dedupe (cf_dedupe_cool cfg)) (app_log evs (ap_engine a))) ! j")
  case True
  have "fst (app_log evs (ap_engine a) ! i) \<in> set (concat (fst (app_run evs a)))"
    if "i < j" "\<not> fst (dedupe_run (new_dedupe (cf_dedupe_cool cfg)) (app_log evs (ap_engine a))) ! i" for i
    using passed_nth [OF _ that(2)] that(1) assms(2) app_run_eq [of evs a] by (simp add: new_app_fields [OF assms(1)])
  then show ?thesis
    using suppressed_reason [OF assms(2) True] by (auto simp: new_dedupe_def)
next
  case False
  then show ?thesis
    using passed_nth [OF assms(2)] app_run_eq [of evs a] by (simp add: new_app_fields [OF assms(1)])
qed

section \<open>Properties\<close>

text \<open>
  C23 (refinement). The main loop is the composition of its parts, while the workers empty the
  queues at any times between dispatches: what it dispatches is what the engine returns for the
  events of the monitors, in order, without what the de-duplicator suppresses, and does not depend
  on the workers. Of the dispatched events that reach the minimum severity of a channel, its
  worker has taken and its queue holds some, in order and with the newest of them last: all of
  them as long as there are at most 256, and the newest 256 if the worker has taken nothing.
\<close>

theorem main_loop_composition:
  assumes "new_app compile builtin cfg = Some a" and "app_trace ins a = (sents, taken, a')"
    and "i < length (NewManager cfg)"
    and "offered = filter (\<lambda>ev. di_min (NewManager cfg ! i) \<le> e_severity ev) (concat sents)"
    and "got = taken_by i taken" and "q = di_queue (ap_alerts a' ! i)"
  shows "concat sents = passed (new_dedupe (cf_dedupe_cool cfg)) (app_log (arrivals ins) (ap_engine a)) \<and>
    length q \<le> 256 \<and> subseq (got @ q) offered \<and>
    (offered \<noteq> [] \<longrightarrow> got @ q \<noteq> [] \<and> last (got @ q) = last offered) \<and>
    (length offered \<le> 256 \<longrightarrow> got @ q = offered) \<and>
    (got = [] \<longrightarrow> q = newest 256 offered)"
proof -
  have "concat sents = concat (fst (app_run (arrivals ins) a))"
    using app_trace_dispatched [of ins a] assms(2) by simp
  then have "concat sents = passed (new_dedupe (cf_dedupe_cool cfg)) (app_log (arrivals ins) (ap_engine a))"
    using app_run_eq [of "arrivals ins" a] by (simp add: new_app_fields [OF assms(1)])
  moreover have "di_queue (NewManager cfg ! i) = []"
    using nth_mem [OF assms(3)] by (auto simp: NewManager_def add_def Let_def split: if_splits)
  then have "kept (ap_alerts a ! i) [] []"
    by (simp add: kept_def new_app_fields [OF assms(1)] newest_def)
  from app_trace_kept [OF assms(2) _ this] have "kept (ap_alerts a' ! i) offered got"
    using assms(3) by (simp add: assms(4,5) new_app_fields [OF assms(1)])
  ultimately show ?thesis unfolding kept_def assms(6) queue_cap_def by blast
qed

text \<open>A configuration whose process log is on, an engine without rules and one process event.\<close>

definition quiet_app :: app where
  "quiet_app = the (new_app (\<lambda>_. None) [] zero_config)"

lemma quiet_app: "new_app (\<lambda>_. None) [] zero_config = Some quiet_app"
proof -
  have "NewEngine (\<lambda>_. None) [] zero_config \<noteq> None"
    unfolding NewEngine_None by (simp add: zero_config_def)
  then show ?thesis by (auto simp: quiet_app_def new_app_def)
qed

text \<open>Two events, the first of which the worker has taken when the second comes.\<close>

theorem main_loop_composition_witness:
  "case app_trace [Arrives empty_event (\<lambda>_. 0), Takes 0, Arrives empty_event (\<lambda>_. 5)] quiet_app of
     (sents, taken, a) \<Rightarrow> taken_by 0 taken @ di_queue (ap_alerts a ! 0) = [empty_event, empty_event]"
proof -
  let ?ins = "[Arrives empty_event (\<lambda>_. 0), Takes 0, Arrives empty_event (\<lambda>_. 5)]"
  obtain sents taken a where t: "app_trace ?ins quiet_app = (sents, taken, a)" using prod_cases3 by blast
  have m: "NewManager zero_config = [\<lparr>di_d = Stdout, di_min = Info, di_queue = [], di_dropped = 0\<rparr>]"
    by (simp add: NewManager_def add_def zero_config_def)
  have ev: "Evaluate e empty_event = ([empty_event], e)" for e
    by (simp add: Evaluate_eq correlated_def handled_def passThrough_def empty_event_def categories)
  have i: "0 < length (NewManager zero_config)" by (simp add: m)
  note c = main_loop_composition [OF quiet_app t i refl refl refl]
  have "e_key empty_event = []" by (simp add: empty_event_def)
  then have "suppressed empty_event now d = (False, d)" for now d by (simp add: suppressed_def)
  then have "concat sents = [empty_event, empty_event]"
    using conjunct1 [OF c] by (simp add: ev)
  with c have "taken_by 0 taken @ di_queue (ap_alerts a ! 0) = [empty_event, empty_event]"
    by (simp add: m Info_least)
  then show ?thesis unfolding t prod.case .
qed

text \<open>
  C18 (safety). No alert of the engine is lost without cause: it is dispatched, or an alert
  with the same key was dispatched before it and less than the cooldown has passed since.
\<close>

theorem dispatched_or_repeated:
  assumes "new_app compile builtin cfg = Some a" and "j < length (app_log evs (ap_engine a))"
  shows "fst (app_log evs (ap_engine a) ! j) \<in> set (concat (fst (app_run evs a))) \<or>
    e_key (fst (app_log evs (ap_engine a) ! j)) \<noteq> [] \<and>
    (\<exists>i < j. e_key (fst (app_log evs (ap_engine a) ! i)) = e_key (fst (app_log evs (ap_engine a) ! j)) \<and>
       fst (app_log evs (ap_engine a) ! i) \<in> set (concat (fst (app_run evs a))) \<and>
       snd (app_log evs (ap_engine a) ! j) - snd (app_log evs (ap_engine a) ! i) < cf_dedupe_cool cfg)"
  using dispatched_unless_repeated [OF assms] .

theorem dispatched_or_repeated_witness:
  "fst (app_log [(attack 1, \<lambda>_. 1)] (ap_engine quiet_app) ! 0) \<in> set (concat (fst (app_run [(attack 1, \<lambda>_. 1)] quiet_app)))"
proof -
  have "0 < length (app_log [(attack 1, \<lambda>_. 1)] (ap_engine quiet_app))"
    by (simp add: stamped_def Evaluate_eq passThrough_def attack_simps categories)
  then show ?thesis
    using dispatched_or_repeated [OF quiet_app, of 0 "[(attack 1, \<lambda>_. 1)]"] by blast
qed

text \<open>
  C24 (error). With the default configuration, a burst of one failed login per second never
  gives the High alert that the engine raises at the twentieth: it has the key of the Medium
  alert of the fifth, which was dispatched fifteen seconds before, and the count does not
  meet the level again, however long the burst goes on.
\<close>

theorem burst_high_alert_suppressed:
  assumes "Default windows = Some cfg" and "new_app compile builtin cfg = Some a"
  shows "(\<forall>x \<in> set (concat (fst (app_run (burst n) a))). e_severity x \<le> Medium) \<and>
    (20 \<le> n \<longrightarrow> (\<exists>x \<in> fst ` set (app_log (burst n) (ap_engine a)).
       e_severity x = High \<and> e_title x = ''SSH brute force in progress''))"
proof -
  have cfg: "default_levels cfg"
    using ApplyDefaults_fields [OF assms(1) [unfolded Default_def]] by (simp add: default_levels_def zero_config_def)
  have "burst_engine cfg 0 (ap_engine a)"
    using NewEngine_fields [OF new_app_fields(1) [OF assms(2)]] cfg
    by (simp add: burst_engine_def new_threshold_def burst_series_def default_levels_def)
  from app_log_burst [OF this cfg, of n]
  have log: "app_log (burst n) (ap_engine a) = concat (map (burst_out cfg) [0..<n])"
    by (simp add: burst_def)
  have "alert_recorded 0 (ap_dedupe a)"
    using cfg by (simp add: new_app_fields [OF assms(2)] alert_recorded_def new_dedupe_def default_levels_def)
  from passed_burst [OF this, of _ cfg n]
  have "e_severity x \<le> Medium" if "x \<in> set (concat (fst (app_run (burst n) a)))" for x
    using that app_run_eq [of "burst n" a] log by simp
  moreover have "\<exists>x \<in> fst ` set (app_log (burst n) (ap_engine a)). e_severity x = High \<and>
      e_title x = ''SSH brute force in progress''" if "20 \<le> n"
  proof (rule bexI)
    show "burst_alert cfg (brute_levels cfg ! 1) (int 19 * second) \<in> fst ` set (app_log (burst n) (ap_engine a))"
    proof (rule image_eqI)
      have "(burst_alert cfg (brute_levels cfg ! 1) (int 19 * second), int 19 * second) \<in> set (burst_out cfg 19)"
        by (simp add: burst_out_def)
      moreover have "19 \<in> set [0..<n]" using that by simp
      ultimately show "(burst_alert cfg (brute_levels cfg ! 1) (int 19 * second), int 19 * second) \<in>
          set (app_log (burst n) (ap_engine a))"
        unfolding log set_concat set_map by blast
    qed simp
  qed (simp add: burst_alert_def brute_levels_def)
  ultimately show ?thesis by blast
qed

theorem burst_high_alert_suppressed_witness:
  "\<exists>cfg a. Default False = Some cfg \<and> new_app (\<lambda>_. Some (\<lambda>_. False)) builtinRules cfg = Some a \<and>
    (\<exists>x \<in> fst ` set (app_log (burst 60) (ap_engine a)). e_severity x = High) \<and>
    \<not> (\<exists>x \<in> set (concat (fst (app_run (burst 60) a))). e_severity x = High)"
proof -
  obtain cfg where cfg: "Default False = Some cfg" using Default_Some by blast
  have "cf_rules cfg = []"
    using ApplyDefaults_fields [OF cfg [unfolded Default_def]] by (simp add: zero_config_def)
  then have "NewEngine (\<lambda>_. Some (\<lambda>_. False)) builtinRules cfg \<noteq> None"
    unfolding NewEngine_None by simp
  then obtain a where a: "new_app (\<lambda>_. Some (\<lambda>_. False)) builtinRules cfg = Some a"
    by (auto simp: new_app_def)
  from burst_high_alert_suppressed [OF cfg a, of 60] cfg a show ?thesis
    by (fastforce simp: severity_order)
qed

end
