(* ===== verification/Ebpf_Loader.thy ===== *)
theory Ebpf_Loader
  imports Elmer_Correct Net_IP Events
begin

text \<open>
  The consumer of the ring buffer, \<^verbatim>\<open>internal/monitors/ebpf/loader.go\<close>: \<open>parse\<close> turns the raw
  bytes of a record into an event for the detection engine. The structs are read in place
  (\<^verbatim>\<open>unsafe.Pointer\<close>), so their integers have the host's byte order, while the kind is read
  with \<^verbatim>\<open>binary.LittleEndian\<close>. A slice expression out of range is \<^const>\<open>Panic\<close>.
\<close>

section \<open>Strings in records\<close>

text \<open>
  \<^verbatim>\<open>u8\<close> reinterprets \<^verbatim>\<open>int8\<close>s as bytes; the model's records hold bytes from the start. An
  empty slice becomes a nil slice, which has the same elements: none.
\<close>

definition u8_slice :: "u8 list \<Rightarrow> u8 list" where
  "u8_slice b = (if b = [] then [] else b)"

fun cstr_from :: "nat \<Rightarrow> u8 list \<Rightarrow> u8 list \<Rightarrow> string" where
  "cstr_from i b [] = str_of b"
| "cstr_from i b (c # cs) = (if c = 0 then str_of (take i b) else cstr_from (Suc i) b cs)"

definition cstr :: "u8 list \<Rightarrow> string" where
  "cstr b = cstr_from 0 b b"

text \<open>The loop of \<^verbatim>\<open>argvStrings\<close>: index and rest of the range loop, \<open>out\<close> and \<open>start\<close>.\<close>

fun argv_strings_from :: "u8 list \<Rightarrow> nat \<Rightarrow> u8 list \<Rightarrow> string list \<Rightarrow> nat \<Rightarrow> string list" where
  "argv_strings_from b i [] out start =
     (if start < length b then out @ [str_of (drop start b)] else out)"
| "argv_strings_from b i (c # cs) out start =
     (if c = 0 then argv_strings_from b (Suc i) cs (out @ [str_of (take (i - start) (drop start b))]) (i + 1)
      else argv_strings_from b (Suc i) cs out start)"

definition argv_strings :: "u8 list \<Rightarrow> string list" where
  "argv_strings b = argv_strings_from b 0 b [] 0"

text \<open>\<^verbatim>\<open>b[:n]\<close> of an array: a panic if \<open>n\<close> is past the end.\<close>

definition slice_to :: "nat \<Rightarrow> 'a list \<Rightarrow> 'a list go" where
  "slice_to n b = (if n \<le> length b then Ret (take n b) else Panic)"

section \<open>parse\<close>

definition kindExec :: u32 where "kindExec = 1"
definition kindConnect :: u32 where "kindConnect = 2"
definition kindBind :: u32 where "kindBind = 3"

definition exec_to_event :: "int \<Rightarrow> string \<Rightarrow> exec_event \<Rightarrow> u8 list \<Rightarrow> event" where
  "exec_to_event now host e argv =
     (let cmdline = go_join (argv_strings (u8_slice argv)) '' '' in
      with_fields [(''pid'', format_uint (unat (x_tgid e))), (''uid'', format_uint (unat (x_uid e))),
          (''gid'', format_uint (unat (x_gid e))), (''comm'', cstr (u8_slice (x_comm e))),
          (''exe'', cstr (u8_slice (x_filename e))), (''cmdline'', cmdline)]
        (empty_event\<lparr>e_time := now, e_severity := Info, e_category := CatProcess,
           e_title := ''exec'', e_host := host\<rparr>))"

definition sock_to_event :: "int \<Rightarrow> string \<Rightarrow> u32 \<Rightarrow> sock_event \<Rightarrow> event" where
  "sock_to_event now host kind s =
     (let ip = (if s_family s = 2 then take 4 (s_addr s) else s_addr s);
          (title, action) = (if kind = kindBind then (''socket bound'', ''bind'')
                             else (''outbound connect'', ''connect'')) in
      with_fields [(''action'', action), (''pid'', format_uint (unat (s_tgid s))),
          (''uid'', format_uint (unat (s_uid s))), (''comm'', cstr (u8_slice (s_comm s))),
          (''dst_ip'', ip_string ip), (''port'', format_uint (unat (s_port s)))]
        (empty_event\<lparr>e_time := now, e_severity := Info, e_category := CatNetwork,
           e_title := title, e_host := host\<rparr>))"

definition parse :: "byte_order \<Rightarrow> int \<Rightarrow> string \<Rightarrow> u8 list \<Rightarrow> event option go" where
  "parse bo now host b =
     (if length b < 4 then Ret None
      else
        let kind = dec Little (take 4 b) :: u32 in
        if kind = kindExec then
          if length b \<noteq> sizeof_struct (host_layout elmerBpfExecEvent) then Ret None
          else
            let e = decode_exec bo b in
            case slice_to (unat (x_argv_len e)) (x_argv e) of
              Panic \<Rightarrow> Panic
            | Ret argv \<Rightarrow> Ret (Some (exec_to_event now host e argv))
        else if kind = kindConnect \<or> kind = kindBind then
          if length b \<noteq> sizeof_struct (host_layout elmerBpfSockEvent) then Ret None
          else Ret (Some (sock_to_event now host kind (decode_sock bo b)))
        else Ret None)"

section \<open>What the string functions compute\<close>

lemma u8_slice_id [simp]: "u8_slice b = b"
  by (simp add: u8_slice_def)

lemma cstr_from_eq: "cstr_from (length a) (a @ b) b = str_of (a @ c_string b)"
proof (induction b arbitrary: a)
  case (Cons c b)
  show ?case using Cons.IH [of "a @ [c]"] by (simp add: c_string_def)
qed (simp add: c_string_def)

lemma cstr_eq: "cstr b = str_of (c_string b)"
  using cstr_from_eq [of "[]" b] by (simp add: cstr_def)

lemma argv_strings_from_word:
  "0 \<notin> set w \<Longrightarrow>
   argv_strings_from b i (w @ rest) out start = argv_strings_from b (i + length w) rest out start"
  by (induction w arbitrary: i) auto

lemma argv_strings_from_nul_terminated:
  assumes "\<And>s. s \<in> set ss \<Longrightarrow> 0 \<notin> set s" and "b = pre @ nul_terminated ss @ post" and "0 \<notin> set post"
  shows "argv_strings_from b (length pre) (nul_terminated ss @ post) out (length pre) =
    out @ map str_of ss @ (if post = [] then [] else [str_of post])"
  using assms(1,2)
proof (induction ss arbitrary: pre out)
  case Nil
  then show ?case
    using argv_strings_from_word [OF assms(3), of b "length pre" "[]"] by simp
next
  case (Cons s ss)
  have s: "0 \<notin> set s" using Cons.prems(1) by simp
  have b: "b = (pre @ s @ [0]) @ nul_terminated ss @ post" using Cons.prems(2) by simp
  have "argv_strings_from b (length pre) (nul_terminated (s # ss) @ post) out (length pre) =
      argv_strings_from b (length (pre @ s @ [0])) (nul_terminated ss @ post) (out @ [str_of s]) (length (pre @ s @ [0]))"
    using Cons.prems(2) argv_strings_from_word [OF s, of b "length pre"] by simp
  also have "\<dots> = out @ map str_of (s # ss) @ (if post = [] then [] else [str_of post])"
    using Cons.IH [OF _ b] Cons.prems(1) by simp
  finally show ?case .
qed

lemma argv_strings_nul_terminated:
  assumes "\<And>s. s \<in> set ss \<Longrightarrow> 0 \<notin> set s" and "0 \<notin> set post"
  shows "argv_strings (nul_terminated ss @ post) = map str_of ss @ (if post = [] then [] else [str_of post])"
  using argv_strings_from_nul_terminated [OF assms(1) _ assms(2), where b = "nul_terminated ss @ post" and pre = "[]" and out = "[]"]
  by (simp add: argv_strings_def)

lemma sizeof_bindings [simp]:
  "sizeof_struct (host_layout elmerBpfExecEvent) = 680"
  "sizeof_struct (host_layout elmerBpfSockEvent) = 48"
  by (simp_all add: sizeof_struct_def layout_simps)

lemma take_kind_exec: "take 4 (encode_exec bo e) = enc bo 4 (x_kind e)"
  by (simp add: encode_exec_def)

lemma take_kind_sock: "take 4 (encode_sock bo e) = enc bo 4 (s_kind e)"
  by (simp add: encode_sock_def)

lemma parse_exec:
  assumes "valid_exec e" and "x_kind e = kindExec"
  shows "parse Little now host (encode_exec Little e) =
    (if unat (x_argv_len e) \<le> 512
     then Ret (Some (exec_to_event now host e (take (unat (x_argv_len e)) (x_argv e)))) else Panic)"
  using assms exec_codec.length_encode [of e Little] exec_codec.decode_encode [of e Little]
  by (auto simp: parse_def take_kind_exec dec_enc slice_to_def valid_exec_def ARGV_LEN_def)

lemma parse_sock:
  assumes "valid_sock e" and "s_kind e = kindConnect \<or> s_kind e = kindBind"
  shows "parse Little now host (encode_sock Little e) = Ret (Some (sock_to_event now host (s_kind e) e))"
  using assms sock_codec.length_encode [of e Little] sock_codec.decode_encode [of e Little]
  by (auto simp: parse_def take_kind_sock dec_enc kindExec_def kindConnect_def kindBind_def)

lemma exec_image_parses:
  assumes "exec_image Little d"
  shows "\<exists>ev. parse Little now host d = Ret (Some ev)"
proof -
  have "dec Little (take 4 d) = x_kind (decode_exec Little d)"
    by (simp add: decode_exec_def field_def)
  with assms show ?thesis
    by (simp add: exec_image_def parse_def slice_to_def EXEC_KIND_def kindExec_def ARGV_LEN_def
        decode_exec_def length_field)
qed

lemma sock_image_parses:
  assumes "sock_image Little kind d" and "kind = CONNECT_KIND \<or> kind = BIND_KIND"
  shows "\<exists>ev. parse Little now host d = Ret (Some ev)"
proof -
  have "dec Little (take 4 d) = s_kind (decode_sock Little d)"
    by (simp add: decode_sock_def field_def)
  with assms show ?thesis
    by (auto simp: sock_image_def parse_def kindExec_def kindConnect_def kindBind_def
        CONNECT_KIND_def BIND_KIND_def)
qed

lemma clean_run_submitted:
  assumes "clean_run records pending P k run" and "run = Some (r, k')" and "records k' = records k @ [d]"
  shows "P d"
  using assms by (simp add: clean_run_def)

lemma exec_event_fields:
  assumes "exec_spec Little v fname argv e"
  shows "\<exists>ev. parse Little now host (encode_exec Little e) = Ret (Some ev) \<and>
    e_category ev = CatProcess \<and> e_severity ev = Info \<and>
    field_of ev ''pid'' = format_uint (unat (ucast (drop_bit 32 (v_pid_tgid v)) :: u32)) \<and>
    field_of ev ''uid'' = format_uint (unat (ucast (v_uid_gid v) :: u32)) \<and>
    field_of ev ''gid'' = format_uint (unat (ucast (drop_bit 32 (v_uid_gid v)) :: u32)) \<and>
    field_of ev ''comm'' = str_of (take 15 (v_comm v)) \<and>
    (\<forall>s. read_cstr (v_mem v) fname FNAME_LEN = Some s \<longrightarrow> field_of ev ''exe'' = str_of (take 127 s)) \<and>
    field_of ev ''cmdline'' = go_join (map str_of (exec_args Little (v_mem v) argv)) '' ''"
proof -
  let ?packed = "nul_terminated (exec_args Little (v_mem v) argv)"
  have e: "valid_exec e" "x_kind e = kindExec" "unat (x_argv_len e) = length ?packed"
    "take (unat (x_argv_len e)) (x_argv e) = ?packed"
    using assms by (auto simp: exec_spec_def EXEC_KIND_def kindExec_def)
  have "length ?packed \<le> 512"
    using captured_bound [of 0] by (auto simp: exec_args_def ARGV_LEN_def)
  then have p: "parse Little now host (encode_exec Little e) = Ret (Some (exec_to_event now host e ?packed))"
    using parse_exec [OF e(1,2), of now host] unfolding e(4) by (simp add: e(3))
  have "0 \<notin> set s" if "s \<in> set (exec_args Little (v_mem v) argv)" for s
    using that captured_no_nul [OF user_argv_no_nul] by (auto simp: exec_args_def split: if_splits)
  then have "argv_strings ?packed = map str_of (exec_args Little (v_mem v) argv)"
    using argv_strings_nul_terminated [of "exec_args Little (v_mem v) argv" "[]"] by simp
  with p show ?thesis
    using assms by (simp add: exec_to_event_def exec_spec_def cstr_eq elmer_consts Let_def)
qed

text \<open>The address a \<^verbatim>\<open>sockaddr\<close> names: where its family puts it.\<close>

definition peer_ip :: "user_view \<Rightarrow> u64 \<Rightarrow> ip" where
  "peer_ip v addr =
     (if sock_family Little v addr = AF_INET then field 4 4 (bytes_or_zero (v_mem v) addr 16)
      else field 8 16 (bytes_or_zero (v_mem v) addr 28))"

definition peer_port :: "user_view \<Rightarrow> u64 \<Rightarrow> u16" where
  "peer_port v addr =
     dec Big (field 2 2 (bytes_or_zero (v_mem v) addr (if sock_family Little v addr = AF_INET then 16 else 28)))"

lemma length_peer_ip: "length (peer_ip v addr) = 4 \<or> length (peer_ip v addr) = 16"
proof -
  have "length (bytes_or_zero mem p n) = n" for mem p n
    by (simp add: bytes_or_zero_def length_read_bytes split: option.split)
  then show ?thesis by (simp add: peer_ip_def length_field)
qed

lemma sock_event_fields:
  assumes "sock_spec Little v kind addr e" and "kind = CONNECT_KIND \<or> kind = BIND_KIND"
  shows "\<exists>ev. parse Little now host (encode_sock Little e) = Ret (Some ev) \<and>
    e_category ev = CatNetwork \<and> e_severity ev = Info \<and>
    field_of ev ''action'' = (if kind = BIND_KIND then ''bind'' else ''connect'') \<and>
    field_of ev ''pid'' = format_uint (unat (ucast (drop_bit 32 (v_pid_tgid v)) :: u32)) \<and>
    field_of ev ''uid'' = format_uint (unat (ucast (v_uid_gid v) :: u32)) \<and>
    field_of ev ''comm'' = str_of (take 15 (v_comm v)) \<and>
    field_of ev ''port'' = format_uint (unat (peer_port v addr)) \<and>
    parse_ip (field_of ev ''dst_ip'') = Some (to16 (peer_ip v addr))"
proof -
  have e: "valid_sock e" "s_kind e = kindConnect \<or> s_kind e = kindBind"
    using assms by (auto simp: sock_spec_def CONNECT_KIND_def BIND_KIND_def kindConnect_def kindBind_def)
  have fam: "s_family e = sock_family Little v addr" and len: "length (s_addr e) = 16"
    using assms by (auto simp: sock_spec_def valid_sock_def)
  have ip: "(if s_family e = 2 then take 4 (s_addr e) else s_addr e) = peer_ip v addr"
    and port: "s_port e = peer_port v addr"
    using assms fam by (auto simp: sock_spec_def peer_ip_def peer_port_def AF_INET_def split: if_splits)
  have kind: "s_kind e = kindBind \<longleftrightarrow> kind = BIND_KIND"
    using assms by (auto simp: sock_spec_def BIND_KIND_def kindBind_def)
  show ?thesis
    using parse_sock [OF e, of now host] assms parse_ip_string [OF length_peer_ip, of v addr]
    by (simp add: sock_to_event_def ip port kind sock_spec_def cstr_eq elmer_consts Let_def)
qed

end
