(* ===== verification/Pipeline.thy ===== *)
theory Pipeline
  imports Ebpf_Loader "HOL-Library.Sublist"
begin

text \<open>
  The kernel side and the user side together. A system state is the kernel's state and the
  consumer's (\<^verbatim>\<open>Runtime.Run\<close>): how many records it has read and the events it has sent on.
  A step is one tracepoint firing, the consumer reading one record, or anything else that
  happens in the kernel between two of these. Faults of either side are states of their own,
  which the invariant shows to be unreachable.
\<close>

section \<open>The four programs\<close>

datatype tracepoint = Sys_enter_execve | Sys_enter_execveat | Sys_enter_connect | Sys_enter_bind

fun prog_of :: "tracepoint \<Rightarrow> 'k bpf_ops \<Rightarrow> byte_order \<Rightarrow> sys_enter_ctx \<Rightarrow> 'k \<Rightarrow> (int \<times> 'k) program" where
  "prog_of Sys_enter_execve = trace_execve"
| "prog_of Sys_enter_execveat = trace_execveat"
| "prog_of Sys_enter_connect = trace_connect"
| "prog_of Sys_enter_bind = trace_bind"

definition event_image :: "byte_order \<Rightarrow> u8 list \<Rightarrow> bool" where
  "event_image bo d \<longleftrightarrow> exec_image bo d \<or> sock_image bo CONNECT_KIND d \<or> sock_image bo BIND_KIND d"

lemma clean_run_mono: "clean_run records pending P k run \<Longrightarrow> (\<And>d. P d \<Longrightarrow> Q d) \<Longrightarrow> clean_run records pending Q k run"
  by (auto simp: clean_run_def split: option.splits)

lemma event_image_parses: "event_image Little d \<Longrightarrow> \<exists>ev. parse Little now host d = Ret (Some ev)"
  unfolding event_image_def using exec_image_parses sock_image_parses by blast

lemma nat_le_numeral:
  "nat_le (numeral n) v = of_nat v # nat_le (pred_numeral n) (v div 256)"
  by (subst numeral_eq_Suc [of n]) (rule nat_le.simps(2))

text \<open>
  On a big-endian host, which has bindings and bytecode of its own, the parser
  ignores every record the programs submit: the programs store the kind in the host's byte
  order and the parser reads it as little-endian.
\<close>

lemma big_endian_ignored:
  assumes "event_image Big d"
  shows "parse Big now host d = Ret None"
proof -
  have swap: "dec Little (enc Big 4 w) = builtin_bswap 4 w" for w :: u32
    by (simp add: builtin_bswap_def enc_def dec_def order_bytes_def)
  have kind: "dec Big (take 4 d) = x_kind (decode_exec Big d)" "dec Big (take 4 d) = s_kind (decode_sock Big d)"
    by (simp_all add: decode_exec_def decode_sock_def field_def)
  have d: "4 \<le> length d"
    using assms by (auto simp: event_image_def exec_image_def sock_image_def)
  have k: "dec Big (take 4 d) = (1 :: u32) \<or> dec Big (take 4 d) = (2 :: u32) \<or> dec Big (take 4 d) = (3 :: u32)"
    using assms kind unfolding event_image_def exec_image_def sock_image_def EXEC_KIND_def CONNECT_KIND_def BIND_KIND_def
    by metis
  have "enc Big 4 (dec Big (take 4 d) :: u32) = take 4 d"
    using d by (intro enc_dec) simp_all
  with swap [of "dec Big (take 4 d)"] have "dec Little (take 4 d) = builtin_bswap 4 (dec Big (take 4 d) :: u32)"
    by metis
  moreover have "builtin_bswap 4 (1 :: u32) = 16777216" "builtin_bswap 4 (2 :: u32) = 33554432"
    "builtin_bswap 4 (3 :: u32) = 50331648"
    by (simp_all add: builtin_bswap_def enc_def dec_def order_bytes_def nat_le_numeral)
  ultimately have "dec Little (take 4 d) = (16777216 :: u32) \<or> dec Little (take 4 d) = (33554432 :: u32) \<or>
      dec Little (take 4 d) = (50331648 :: u32)"
    using k by metis
  then show ?thesis
    by (elim disjE) (simp_all add: parse_def Let_def kindExec_def kindConnect_def kindBind_def)
qed

context bpf_kernel
begin

lemma prog_clean:
  "length (args ctx) = 6 \<Longrightarrow> clean_run records pending (event_image bo) k (prog_of t ops bo ctx k)"
  using do_exec_safe do_sock_safe
  by (cases t)
    (auto intro!: clean_run_mono [OF do_exec_safe] clean_run_mono [OF do_sock_safe]
      simp: trace_execve_def trace_execveat_def trace_connect_def trace_bind_def event_image_def)

end

section \<open>The system\<close>

text \<open>Kernel, programs and consumer run on one host, whose byte order is a parameter.\<close>

datatype fault = Running | Bad_access | Bad_slice

record 'k system =
  sys_kernel :: 'k
  sys_read :: nat
  sys_events :: "event list"
  sys_fault :: fault

definition consume :: "byte_order \<Rightarrow> int \<Rightarrow> string \<Rightarrow> u8 list \<Rightarrow> 'k system \<Rightarrow> 'k system" where
  "consume bo now host d s =
     (case parse bo now host d of
        Panic \<Rightarrow> s\<lparr>sys_fault := Bad_slice\<rparr>
      | Ret None \<Rightarrow> s\<lparr>sys_read := Suc (sys_read s)\<rparr>
      | Ret (Some ev) \<Rightarrow> s\<lparr>sys_read := Suc (sys_read s), sys_events := sys_events s @ [ev]\<rparr>)"

inductive consumer_step :: "byte_order \<Rightarrow> ('k \<Rightarrow> u8 list list) \<Rightarrow> 'k system \<Rightarrow> 'k system \<Rightarrow> bool" for bo records where
  read_next: "sys_fault s = Running \<Longrightarrow> sys_read s < length (records (sys_kernel s)) \<Longrightarrow>
     consumer_step bo records s (consume bo now host (records (sys_kernel s) ! sys_read s) s)"

inductive system_step ::
  "byte_order \<Rightarrow> 'k bpf_ops \<Rightarrow> ('k \<Rightarrow> u8 list list) \<Rightarrow> ('k \<Rightarrow> nat) \<Rightarrow> 'k system \<Rightarrow> 'k system \<Rightarrow> bool"
  for bo ops records pending where
  fire: "sys_fault s = Running \<Longrightarrow> length (args ctx) = 6 \<Longrightarrow>
     prog_of t ops bo ctx (sys_kernel s) = Some (r, k') \<Longrightarrow>
     system_step bo ops records pending s (s\<lparr>sys_kernel := k'\<rparr>)"
| fire_fault: "sys_fault s = Running \<Longrightarrow> length (args ctx) = 6 \<Longrightarrow>
     prog_of t ops bo ctx (sys_kernel s) = None \<Longrightarrow>
     system_step bo ops records pending s (s\<lparr>sys_fault := Bad_access\<rparr>)"
| read_record: "consumer_step bo records s t \<Longrightarrow> system_step bo ops records pending s t"
| elsewhere: "sys_fault s = Running \<Longrightarrow> records k' = records (sys_kernel s) \<Longrightarrow>
     pending k' = pending (sys_kernel s) \<Longrightarrow>
     system_step bo ops records pending s (s\<lparr>sys_kernel := k'\<rparr>)"

inductive system_reachable ::
  "byte_order \<Rightarrow> 'k bpf_ops \<Rightarrow> ('k \<Rightarrow> u8 list list) \<Rightarrow> ('k \<Rightarrow> nat) \<Rightarrow> 'k system \<Rightarrow> 'k system \<Rightarrow> bool"
  for bo ops records pending s0 where
  start: "system_reachable bo ops records pending s0 s0"
| extend: "system_reachable bo ops records pending s0 s \<Longrightarrow> system_step bo ops records pending s t \<Longrightarrow>
     system_reachable bo ops records pending s0 t"

inductive_cases system_stepE: "system_step bo ops records pending s t"

definition initial :: "('k \<Rightarrow> u8 list list) \<Rightarrow> ('k \<Rightarrow> nat) \<Rightarrow> 'k system \<Rightarrow> bool" where
  "initial records pending s \<longleftrightarrow> records (sys_kernel s) = [] \<and> pending (sys_kernel s) = 0 \<and>
     sys_read s = 0 \<and> sys_events s = [] \<and> sys_fault s = Running"

text \<open>
  What has been sent for the records that were read: on a little-endian host the event of each
  record, in order; on a big-endian host nothing.
\<close>

definition sent_for :: "byte_order \<Rightarrow> u8 list list \<Rightarrow> event list \<Rightarrow> bool" where
  "sent_for bo ds evs \<longleftrightarrow>
     (case bo of
        Little \<Rightarrow> list_all2 (\<lambda>d ev. \<exists>now host. parse Little now host d = Ret (Some ev)) ds evs
      | Big \<Rightarrow> evs = [])"

text \<open>
  The invariant: no fault, no open reservation, nothing but event images in the ring, and
  for the records that were read what \<open>sent_for\<close> says.
\<close>

definition system_inv :: "byte_order \<Rightarrow> ('k \<Rightarrow> u8 list list) \<Rightarrow> ('k \<Rightarrow> nat) \<Rightarrow> 'k system \<Rightarrow> bool" where
  "system_inv bo records pending s \<longleftrightarrow> sys_fault s = Running \<and> pending (sys_kernel s) = 0 \<and>
     list_all (event_image bo) (records (sys_kernel s)) \<and>
     sys_read s \<le> length (records (sys_kernel s)) \<and>
     sent_for bo (take (sys_read s) (records (sys_kernel s))) (sys_events s)"

lemma initial_inv: "initial records pending s \<Longrightarrow> system_inv bo records pending s"
  by (simp add: initial_def system_inv_def sent_for_def split: byte_order.split)

text \<open>A record that is read is one more record, and one more event or none.\<close>

lemma consume_image:
  assumes "event_image bo d"
  shows "\<exists>evs. consume bo now host d s = s\<lparr>sys_read := Suc (sys_read s), sys_events := sys_events s @ evs\<rparr> \<and>
    sent_for bo [d] evs"
proof (cases bo)
  case Little
  then obtain ev where "parse Little now host d = Ret (Some ev)" using event_image_parses assms by blast
  then show ?thesis using Little by (intro exI [of _ "[ev]"]) (auto simp: consume_def sent_for_def)
next
  case Big
  then have "parse Big now host d = Ret None" using big_endian_ignored assms by blast
  then show ?thesis using Big by (intro exI [of _ "[]"]) (simp add: consume_def sent_for_def)
qed

lemma sent_for_append: "sent_for bo ds evs \<Longrightarrow> sent_for bo ds' evs' \<Longrightarrow> sent_for bo (ds @ ds') (evs @ evs')"
  by (cases bo) (simp_all add: sent_for_def list_all2_appendI)

lemma consumer_step_inv:
  assumes "consumer_step bo records s t" and "system_inv bo records pending s"
  shows "system_inv bo records pending t \<and> sys_kernel t = sys_kernel s \<and> sys_read t = Suc (sys_read s) \<and>
    prefix (sys_events s) (sys_events t)"
  using assms(1)
proof cases
  case (read_next now host)
  let ?d = "records (sys_kernel s) ! sys_read s"
  have "event_image bo ?d"
    using assms(2) read_next by (auto simp: system_inv_def list_all_length)
  from consume_image [OF this] obtain evs where
    t: "t = s\<lparr>sys_read := Suc (sys_read s), sys_events := sys_events s @ evs\<rparr>" and evs: "sent_for bo [?d] evs"
    using read_next(1) by metis
  have inv: "sys_fault s = Running" "pending (sys_kernel s) = 0" "list_all (event_image bo) (records (sys_kernel s))"
    "sent_for bo (take (sys_read s) (records (sys_kernel s))) (sys_events s)"
    using assms(2) by (simp_all add: system_inv_def)
  have "take (Suc (sys_read s)) (records (sys_kernel s)) = take (sys_read s) (records (sys_kernel s)) @ [?d]"
    using read_next by (simp add: take_Suc_conv_app_nth)
  with sent_for_append [OF inv(4) evs] show ?thesis
    using inv read_next(3) unfolding t system_inv_def by simp
qed

lemma consumer_steps_inv:
  assumes "(consumer_step bo records)\<^sup>*\<^sup>* s t" and "system_inv bo records pending s"
  shows "system_inv bo records pending t \<and> sys_kernel t = sys_kernel s \<and> prefix (sys_events s) (sys_events t)"
  using assms(1)
proof (induction rule: rtranclp_induct)
  case (step t u)
  with consumer_step_inv [OF step(2), of pending] show ?case by (metis prefix_order.trans)
qed (simp add: assms(2))

lemma consumer_drains:
  assumes "system_inv bo records pending s"
  shows "\<exists>t. (consumer_step bo records)\<^sup>*\<^sup>* s t \<and> sys_read t = length (records (sys_kernel t))"
  using assms
proof (induction "length (records (sys_kernel s)) - sys_read s" arbitrary: s)
  case 0
  then show ?case by (intro exI [of _ s]) (simp add: system_inv_def)
next
  case (Suc n)
  then have s: "consumer_step bo records s (consume bo 0 [] (records (sys_kernel s) ! sys_read s) s)"
    by (intro read_next) (simp_all add: system_inv_def)
  let ?t = "consume bo 0 [] (records (sys_kernel s) ! sys_read s) s"
  from consumer_step_inv [OF s Suc.prems] Suc.hyps(2) have "system_inv bo records pending ?t"
    "n = length (records (sys_kernel ?t)) - sys_read ?t" by simp_all
  from Suc.hyps(1) [OF this(2,1)] show ?case using s by (meson converse_rtranclp_into_rtranclp)
qed

context bpf_kernel
begin

lemma prog_records:
  assumes "length (args ctx) = 6" and "prog_of t ops bo ctx k = Some (r, k')"
  shows "\<exists>ds. pending k' = pending k \<and> records k' = records k @ ds \<and> list_all (event_image bo) ds"
proof -
  have c: "clean_run records pending (event_image bo) k (Some (r, k'))"
    using prog_clean [OF assms(1), of bo k t] assms(2) by simp
  show ?thesis
  proof (cases "records k' = records k")
    case True
    with c show ?thesis by (simp add: clean_run_def)
  next
    case False
    with c have b: "butlast (records k') = records k" "records k' \<noteq> []" "event_image bo (last (records k'))"
      and p: "pending k' = pending k"
      by (auto simp: clean_run_def)
    then have "records k' = records k @ [last (records k')]"
      by (metis append_butlast_last_id)
    with b(3) p show ?thesis by (intro exI [of _ "[last (records k')]"]) simp
  qed
qed

lemma system_step_inv:
  "system_step bo ops records pending s t \<Longrightarrow> system_inv bo records pending s \<Longrightarrow> system_inv bo records pending t"
proof (induction rule: system_step.induct)
  case (fire s ctx t r k')
  then show ?case
    using prog_records [OF fire(2,3)] by (auto simp: system_inv_def)
next
  case (fire_fault s ctx t)
  then show ?case
    using prog_clean [of ctx bo "sys_kernel s" t] by (simp add: clean_run_def)
next
  case (read_record s t)
  then show ?case using consumer_step_inv by blast
qed (simp add: system_inv_def)

lemma system_reachable_inv:
  "system_reachable bo ops records pending s0 s \<Longrightarrow> system_inv bo records pending s0 \<Longrightarrow>
   system_inv bo records pending s"
  by (induction rule: system_reachable.induct) (auto intro: system_step_inv)

end

section \<open>A process and its record\<close>

definition ls_system :: "kernel system" where
  "ls_system = \<lparr>sys_kernel = ls_kernel, sys_read = 0, sys_events = [], sys_fault = Running\<rparr>"

lemma ls_initial: "initial kn_records kn_open ls_system"
  by (simp add: initial_def ls_system_def ls_kernel_def)

text \<open>After the process has been started there is a record in the ring that was not read.\<close>

lemma ls_fired:
  obtains s where "system_reachable bo kernel_ops kn_records kn_open ls_system s"
    "length (kn_records (sys_kernel s)) = 1" "sys_read s = 0" "sys_events s = []"
proof -
  have room: "kn_room ls_kernel (sizeof_struct exec_event_decl)"
    by (simp add: kn_room_def ls_kernel_def ring_size_def ring_capacity_def)
  let ?ctx = "ctx_of [4096, 12288, 0, 0, 0, 0]"
  obtain e k where k: "do_exec kernel_ops bo ?ctx 0 1 ls_kernel = Some (0, k)"
    "kn_records k = kn_records ls_kernel @ [encode_exec bo e]"
    using kernel_memory.do_exec_content [OF room, of 0 ?ctx 1 bo] by auto
  have "system_step bo kernel_ops kn_records kn_open ls_system (ls_system\<lparr>sys_kernel := k\<rparr>)"
    using fire [of ls_system ?ctx Sys_enter_execve kernel_ops bo 0 k kn_records kn_open] k(1)
    by (simp add: ls_system_def trace_execve_def)
  from that [OF extend [OF start this]] show thesis
    using k(2) by (simp add: ls_system_def ls_kernel_def)
qed

section \<open>Properties\<close>

text \<open>
  C5 (invariant). In every state the system can reach, neither side has faulted, no
  reservation is open between two runs, and the ring holds nothing but well-formed exec, connect
  and bind images. On a little-endian host the events sent are those of the records read, one for
  each and in order; on a big-endian host every record is ignored and nothing is sent.
\<close>

theorem pipeline_invariant:
  assumes "bpf_kernel ops records pending" and "initial records pending s0"
    and "system_reachable bo ops records pending s0 s"
  shows "sys_fault s = Running \<and> pending (sys_kernel s) = 0 \<and>
    list_all (event_image bo) (records (sys_kernel s)) \<and> sys_read s \<le> length (records (sys_kernel s)) \<and>
    (bo = Little \<longrightarrow> list_all2 (\<lambda>d ev. \<exists>now host. parse Little now host d = Ret (Some ev))
       (take (sys_read s) (records (sys_kernel s))) (sys_events s)) \<and>
    (bo = Big \<longrightarrow> sys_events s = [])"
  using bpf_kernel.system_reachable_inv [OF assms(1,3) initial_inv [OF assms(2)]]
  by (auto simp: system_inv_def sent_for_def)

theorem pipeline_invariant_witness:
  "\<exists>s. system_reachable Little kernel_ops kn_records kn_open ls_system s \<and>
     sys_read s = 1 \<and> length (sys_events s) = 1 \<and> list_all (event_image Little) (kn_records (sys_kernel s))"
proof -
  obtain s where s: "system_reachable Little kernel_ops kn_records kn_open ls_system s"
    "length (kn_records (sys_kernel s)) = 1" "sys_read s = 0" "sys_events s = []"
    using ls_fired .
  have inv: "system_inv Little kn_records kn_open s"
    by (rule kernel_safe.system_reachable_inv [OF s(1) initial_inv [OF ls_initial]])
  let ?t = "consume Little 0 [] (kn_records (sys_kernel s) ! sys_read s) s"
  have step: "consumer_step Little kn_records s ?t"
    using inv s by (intro read_next) (simp_all add: system_inv_def)
  from consumer_step_inv [OF step inv] have t: "sys_kernel ?t = sys_kernel s" "sys_read ?t = 1"
    using s(3) by simp_all
  have r: "system_reachable Little kernel_ops kn_records kn_open ls_system ?t"
    by (rule extend [OF s(1) read_record [OF step]])
  from pipeline_invariant [OF kernel_safe.bpf_kernel_axioms ls_initial r] t s(2) r show ?thesis
    by (intro exI [of _ ?t]) (auto dest: list_all2_lengthD)
qed

text \<open>
  C9 (liveness). From every reachable state on, by steps of the consumer alone, everything in
  the ring can be read, and no way of reading gets stuck before: as long as a record is left the
  consumer can take the next one. The events sent before stay; on a little-endian host there is
  in the end one for every record, its own.
\<close>

theorem pipeline_drains:
  assumes "bpf_kernel ops records pending" and "initial records pending s0"
    and "system_reachable bo ops records pending s0 s"
  shows "(\<exists>t. (consumer_step bo records)\<^sup>*\<^sup>* s t \<and> sys_read t = length (records (sys_kernel s))) \<and>
    (\<forall>t. (consumer_step bo records)\<^sup>*\<^sup>* s t \<longrightarrow> sys_kernel t = sys_kernel s \<and> prefix (sys_events s) (sys_events t) \<and>
       (sys_read t < length (records (sys_kernel s)) \<longrightarrow> (\<exists>u. consumer_step bo records t u \<and> sys_read u = Suc (sys_read t))) \<and>
       (bo = Little \<longrightarrow> list_all2 (\<lambda>d ev. \<exists>now host. parse Little now host d = Ret (Some ev))
          (take (sys_read t) (records (sys_kernel s))) (sys_events t)))"
proof -
  have inv: "system_inv bo records pending s"
    by (rule bpf_kernel.system_reachable_inv [OF assms(1,3) initial_inv [OF assms(2)]])
  have step: "\<exists>u. consumer_step bo records t u \<and> sys_read u = Suc (sys_read t)"
    if t: "system_inv bo records pending t" "sys_read t < length (records (sys_kernel t))" for t
  proof -
    have "consumer_step bo records t (consume bo 0 [] (records (sys_kernel t) ! sys_read t) t)"
      using t by (intro read_next) (simp_all add: system_inv_def)
    from this consumer_step_inv [OF this t(1)] show ?thesis by blast
  qed
  obtain t where t: "(consumer_step bo records)\<^sup>*\<^sup>* s t" "sys_read t = length (records (sys_kernel t))"
    using consumer_drains [OF inv] by blast
  have "sys_kernel t = sys_kernel s \<and> prefix (sys_events s) (sys_events t) \<and>
       (sys_read t < length (records (sys_kernel s)) \<longrightarrow> (\<exists>u. consumer_step bo records t u \<and> sys_read u = Suc (sys_read t))) \<and>
       (bo = Little \<longrightarrow> list_all2 (\<lambda>d ev. \<exists>now host. parse Little now host d = Ret (Some ev))
          (take (sys_read t) (records (sys_kernel s))) (sys_events t))"
    if "(consumer_step bo records)\<^sup>*\<^sup>* s t" for t
  proof -
    have t: "system_inv bo records pending t" "sys_kernel t = sys_kernel s" "prefix (sys_events s) (sys_events t)"
      using consumer_steps_inv [OF that inv] by simp_all
    have "bo = Little \<longrightarrow> list_all2 (\<lambda>d ev. \<exists>now host. parse Little now host d = Ret (Some ev))
        (take (sys_read t) (records (sys_kernel t))) (sys_events t)"
      using t(1) by (auto simp: system_inv_def sent_for_def)
    then show ?thesis using t step [OF t(1)] by simp
  qed
  moreover from this [OF t(1)] t have "sys_read t = length (records (sys_kernel s))" by simp
  ultimately show ?thesis using t(1) by blast
qed

theorem pipeline_drains_witness:
  "\<exists>(s :: kernel system) t. length (kn_records (sys_kernel s)) = 1 \<and> sys_events s = [] \<and>
     (consumer_step Little kn_records)\<^sup>*\<^sup>* s t \<and> length (sys_events t) = 1"
proof -
  obtain s where s: "system_reachable Little kernel_ops kn_records kn_open ls_system s"
    "length (kn_records (sys_kernel s)) = 1" "sys_events s = []"
    using ls_fired by metis
  note d = pipeline_drains [OF kernel_safe.bpf_kernel_axioms ls_initial s(1)]
  from conjunct1 [OF d] obtain t where t: "(consumer_step Little kn_records)\<^sup>*\<^sup>* s t" "sys_read t = 1"
    using s(2) by auto
  from conjunct2 [OF d, rule_format, OF t(1)]
  have "length (take (sys_read t) (kn_records (sys_kernel s))) = length (sys_events t)"
    by (blast dest: list_all2_lengthD)
  then have "length (sys_events t) = 1" using t(2) s(2) by simp
  with s t show ?thesis by blast
qed

lemma exec_spec_image:
  assumes "exec_spec bo v f a e"
  shows "event_image bo (encode_exec bo e)"
proof -
  have "length (nul_terminated (exec_args bo (v_mem v) a)) \<le> length (x_argv e)"
    using assms by (metis exec_spec_def length_take min.cobounded1 min_def)
  moreover have "valid_exec e" "x_kind e = EXEC_KIND" "unat (x_argv_len e) = length (nul_terminated (exec_args bo (v_mem v) a))"
    using assms by (simp_all add: exec_spec_def)
  ultimately show ?thesis
    by (simp add: event_image_def exec_image_def exec_codec.length_encode exec_codec.decode_encode valid_exec_def)
qed

text \<open>
  C8 (functional). From the system call to the event, for \<^verbatim>\<open>execve\<close> with room in the ring: one
  record is submitted. On a little-endian host it parses to one process event whose fields are
  the caller's process, user and group ids in decimal, its name, the path it executes (up to 127
  bytes) and, joined by blanks, the arguments that \<open>exec_args\<close> keeps: of the first sixteen, in
  order and each cut to 127 bytes, those that begin while a chunk of 128 bytes is free in the 512
  bytes for them. On a big-endian host the record is ignored.
\<close>

theorem exec_end_to_end:
  assumes "user_memory ops records pending view room" and "length (args ctx) = 6"
    and "room k (sizeof_struct exec_event_decl)"
  shows "(\<exists>d ev. submitted records k (trace_execve ops Little ctx k) = Some [d] \<and>
    parse Little now host d = Ret (Some ev) \<and> e_category ev = CatProcess \<and>
    field_of ev ''pid'' = format_uint (unat (ucast (drop_bit 32 (v_pid_tgid (view k))) :: u32)) \<and>
    field_of ev ''uid'' = format_uint (unat (ucast (v_uid_gid (view k)) :: u32)) \<and>
    field_of ev ''gid'' = format_uint (unat (ucast (drop_bit 32 (v_uid_gid (view k))) :: u32)) \<and>
    field_of ev ''comm'' = str_of (take 15 (v_comm (view k))) \<and>
    (\<forall>s. read_cstr (v_mem (view k)) (args ctx ! 0) FNAME_LEN = Some s \<longrightarrow>
       field_of ev ''exe'' = str_of (take 127 s)) \<and>
    field_of ev ''cmdline'' =
      go_join (map str_of (exec_args Little (v_mem (view k)) (args ctx ! 1))) '' '') \<and>
   (\<exists>d. submitted records k (trace_execve ops Big ctx k) = Some [d] \<and> parse Big now host d = Ret None)"
proof
  obtain e where d: "submitted records k (trace_execve ops Little ctx k) = Some [encode_exec Little e]"
    and e: "exec_spec Little (view k) (args ctx ! 0) (args ctx ! 1) e"
    using user_memory.do_exec_content [OF assms(1,3), of 0 ctx 1 Little] assms(2)
    by (auto simp: trace_execve_def dest!: submitted_one)
  with exec_event_fields [OF e, of now host] show "\<exists>d ev. submitted records k (trace_execve ops Little ctx k) = Some [d] \<and>
    parse Little now host d = Ret (Some ev) \<and> e_category ev = CatProcess \<and>
    field_of ev ''pid'' = format_uint (unat (ucast (drop_bit 32 (v_pid_tgid (view k))) :: u32)) \<and>
    field_of ev ''uid'' = format_uint (unat (ucast (v_uid_gid (view k)) :: u32)) \<and>
    field_of ev ''gid'' = format_uint (unat (ucast (drop_bit 32 (v_uid_gid (view k))) :: u32)) \<and>
    field_of ev ''comm'' = str_of (take 15 (v_comm (view k))) \<and>
    (\<forall>s. read_cstr (v_mem (view k)) (args ctx ! 0) FNAME_LEN = Some s \<longrightarrow>
       field_of ev ''exe'' = str_of (take 127 s)) \<and>
    field_of ev ''cmdline'' =
      go_join (map str_of (exec_args Little (v_mem (view k)) (args ctx ! 1))) '' ''" by blast
  obtain e where d: "submitted records k (trace_execve ops Big ctx k) = Some [encode_exec Big e]"
    and e: "exec_spec Big (view k) (args ctx ! 0) (args ctx ! 1) e"
    using user_memory.do_exec_content [OF assms(1,3), of 0 ctx 1 Big] assms(2)
    by (auto simp: trace_execve_def dest!: submitted_one)
  then show "\<exists>d. submitted records k (trace_execve ops Big ctx k) = Some [d] \<and> parse Big now host d = Ret None"
    using big_endian_ignored [OF exec_spec_image [OF e]] by blast
qed

theorem exec_end_to_end_witness:
  "\<exists>d ev. submitted kn_records ls_kernel
      (trace_execve kernel_ops Little (ctx_of [4096, 12288, 0, 0, 0, 0]) ls_kernel) = Some [d] \<and>
    parse Little 0 ''host'' d = Ret (Some ev) \<and> field_of ev ''pid'' = ''7'' \<and>
    field_of ev ''cmdline'' = ''ls -l''"
proof -
  have room: "kn_room ls_kernel (sizeof_struct exec_event_decl)"
    by (simp add: kn_room_def ls_kernel_def ring_size_def ring_capacity_def)
  have v: "v_pid_tgid (kn_view ls_kernel) = 30064771079" "v_mem (kn_view ls_kernel) = ls_mem"
    by (simp_all add: kn_view_def ls_kernel_def)
  have num: "format_uint 7 = ''7''" and str: "str_of ls_arg0 = ''ls''" "str_of ls_arg1 = ''-l''"
    by code_simp+
  obtain d ev where r: "submitted kn_records ls_kernel
      (trace_execve kernel_ops Little (ctx_of [4096, 12288, 0, 0, 0, 0]) ls_kernel) = Some [d]"
    "parse Little 0 ''host'' d = Ret (Some ev)"
    and f: "field_of ev ''pid'' = format_uint (unat (ucast (drop_bit 32 (30064771079 :: u64)) :: u32))"
      "field_of ev ''cmdline'' = go_join (map str_of (exec_args Little ls_mem 12288)) '' ''"
    using exec_end_to_end [OF kernel_memory.user_memory_axioms, of "ctx_of [4096, 12288, 0, 0, 0, 0]" ls_kernel 0 "''host''"]
      room by (auto simp: v)
  have "unat (ucast (drop_bit 32 (30064771079 :: u64)) :: u32) = 7"
    by (simp add: drop_bit_eq_div)
  then have "field_of ev ''pid'' = ''7''" using f(1) num by metis
  moreover have "field_of ev ''cmdline'' = ''ls -l''"
    unfolding f(2) ls_args by (simp add: str)
  ultimately show ?thesis using r by blast
qed

text \<open>
  The same for \<^verbatim>\<open>connect\<close> and \<^verbatim>\<open>bind\<close>: the network event has the action,
  the caller's ids and name, the port number, and an address that \<^verbatim>\<open>net.ParseIP\<close>, with which
  the detection engine reads it, takes back to the address in the caller's \<^verbatim>\<open>sockaddr\<close>.
\<close>

theorem sock_end_to_end:
  assumes "user_memory ops records pending view room" and "length (args ctx) = 6"
    and "room k (sizeof_struct sock_event_decl)"
    and "sock_family Little (view k) (args ctx ! 1) \<in> {AF_INET, AF_INET6}"
    and "(t, action) \<in> {(Sys_enter_connect, ''connect''), (Sys_enter_bind, ''bind'')}"
  shows "\<exists>d ev. submitted records k (prog_of t ops Little ctx k) = Some [d] \<and>
    parse Little now host d = Ret (Some ev) \<and> e_category ev = CatNetwork \<and>
    field_of ev ''action'' = action \<and>
    field_of ev ''pid'' = format_uint (unat (ucast (drop_bit 32 (v_pid_tgid (view k))) :: u32)) \<and>
    field_of ev ''uid'' = format_uint (unat (ucast (v_uid_gid (view k)) :: u32)) \<and>
    field_of ev ''comm'' = str_of (take 15 (v_comm (view k))) \<and>
    field_of ev ''port'' = format_uint (unat (peer_port (view k) (args ctx ! 1))) \<and>
    parse_ip (field_of ev ''dst_ip'') = Some (to16 (peer_ip (view k) (args ctx ! 1)))"
proof -
  define kind where "kind = (if t = Sys_enter_bind then BIND_KIND else CONNECT_KIND)"
  have run: "prog_of t ops Little ctx k = do_sock ops Little ctx kind k"
    and kind: "kind = CONNECT_KIND \<or> kind = BIND_KIND"
    and action: "(if kind = BIND_KIND then ''bind'' else ''connect'') = action"
    using assms(5) by (auto simp: kind_def trace_connect_def trace_bind_def CONNECT_KIND_def BIND_KIND_def)
  obtain e where "submitted records k (do_sock ops Little ctx kind k) = Some [encode_sock Little e]"
    and e: "sock_spec Little (view k) kind (args ctx ! 1) e"
    using user_memory.do_sock_content [OF assms(1) _ assms(4,3), of kind] assms(2)
    by (auto dest!: submitted_one)
  with sock_event_fields [OF e kind, of now host] show ?thesis
    unfolding run action by blast
qed

theorem sock_end_to_end_witness:
  "\<exists>d ev. submitted kn_records ls_kernel
      (trace_connect kernel_ops Little (ctx_of [3, 16384, 16, 0, 0, 0]) ls_kernel) = Some [d] \<and>
    parse Little 0 ''host'' d = Ret (Some ev) \<and> field_of ev ''action'' = ''connect'' \<and>
    field_of ev ''port'' = ''443'' \<and>
    parse_ip (field_of ev ''dst_ip'') = Some [0, 0, 0, 0, 0, 0, 0, 0, 0, 0, 255, 255, 192, 0, 2, 1]"
proof -
  have room: "kn_room ls_kernel (sizeof_struct sock_event_decl)"
    by (simp add: kn_room_def ls_kernel_def ring_size_def ring_capacity_def)
  have v: "v_mem (kn_view ls_kernel) = ls_mem"
    by (simp add: kn_view_def ls_kernel_def)
  have fam: "sock_family Little (kn_view ls_kernel) 16384 = AF_INET"
    by (simp add: sock_family_def bytes_or_zero_def v ls_sockaddr dec_def order_bytes_def AF_INET_def)
  have peer: "peer_ip (kn_view ls_kernel) 16384 = [192, 0, 2, 1]" "peer_port (kn_view ls_kernel) 16384 = 443"
    by (simp_all add: peer_ip_def peer_port_def fam bytes_or_zero_def v ls_sockaddr field_def dec_def order_bytes_def)
  have num: "format_uint 443 = ''443''"
    by code_simp
  have sixteen: "to16 [192, 0, 2, 1] = [0, 0, 0, 0, 0, 0, 0, 0, 0, 0, 255, 255, 192, 0, 2, 1]"
    by (simp add: to16_def numeral_eq_Suc)
  obtain d ev where r: "submitted kn_records ls_kernel
      (trace_connect kernel_ops Little (ctx_of [3, 16384, 16, 0, 0, 0]) ls_kernel) = Some [d]"
    "parse Little 0 ''host'' d = Ret (Some ev)" "field_of ev ''action'' = ''connect''"
    and port: "field_of ev ''port'' = format_uint (unat (443 :: u16))"
    and ip: "parse_ip (field_of ev ''dst_ip'') = Some (to16 [192, 0, 2, 1])"
    using sock_end_to_end [OF kernel_memory.user_memory_axioms, of "ctx_of [3, 16384, 16, 0, 0, 0]" ls_kernel
        Sys_enter_connect "''connect''" 0 "''host''"] room fam
    by (auto simp: peer simp del: sizeof_structs)
  have "field_of ev ''port'' = ''443''" using port num by simp
  with r ip show ?thesis unfolding sixteen by blast
qed

text \<open>
  C10 (error). The parser panics on exactly one kind of input: a block of the exec event's
  size and kind whose \<^verbatim>\<open>argv_len\<close> exceeds the 512 bytes of \<^verbatim>\<open>argv\<close>. It ignores a block that is
  too short, has another size or another kind, and makes an event of everything else.
\<close>

theorem parse_outcomes:
  "(parse bo now host b = Panic \<longleftrightarrow>
     length b = 680 \<and> dec Little (take 4 b) = kindExec \<and> 512 < unat (x_argv_len (decode_exec bo b))) \<and>
   (parse bo now host b = Ret None \<longleftrightarrow>
     \<not> (length b = 680 \<and> dec Little (take 4 b) = kindExec) \<and>
     \<not> (length b = 48 \<and> dec Little (take 4 b) \<in> {kindConnect, kindBind}))"
  by (auto simp: parse_def slice_to_def Let_def decode_exec_def length_field kindExec_def
      kindConnect_def kindBind_def not_le split: if_splits)

text \<open>
  Splitting a NUL-terminated argument blob gives the arguments back; an
  unterminated rest becomes the last argument.
\<close>

theorem argv_strings_inverse:
  assumes "list_all (\<lambda>s. 0 \<notin> set s) ss" and "0 \<notin> set post"
  shows "argv_strings (nul_terminated ss @ post) = map str_of ss @ (if post = [] then [] else [str_of post])"
  using assms by (intro argv_strings_nul_terminated) (auto simp: list_all_iff)

theorem argv_strings_inverse_witness:
  "argv_strings [108, 115, 0, 0, 45] = [''ls'', [], ''-'']"
proof -
  have s: "str_of [108, 115] = ''ls''" "str_of [45] = ''-''" by code_simp+
  show ?thesis
    using argv_strings_inverse [of "[[108, 115], []]" "[45]"]
    by (simp add: s del: str_of_simps(2))
qed

end
