(* ===== verification/End_To_End.thy ===== *)
theory End_To_End
  imports Pipeline App
begin

text \<open>
  From a system call to an alert: the eBPF program, the parser of \<^verbatim>\<open>loader.go\<close>, the detection
  engine and the main loop together.
\<close>

section \<open>Classifying what a connect event says\<close>




lemma with_fields_key [simp]: "e_key (with_fields kvs e) = e_key e"
  by (induction kvs arbitrary: e) auto



section \<open>Properties\<close>



end
