(* ===== verification/Monitor_Base.thy ===== *)
theory Monitor_Base
  imports Go_Text Events
begin

text \<open>
  What the monitors share (\<^verbatim>\<open>internal/monitors/monitor.go\<close>): the categories of their own
  notes, the event of a monitor that cannot work fully, and the interface of the monitors that
  poll: at each tick they scan, report the scan against the one before, and keep it.
\<close>

definition CatPersistence :: string where "CatPersistence = ''persistence''"
definition CatElmer :: string where "CatElmer = ''elmer''"

definition DegradedNote :: "int \<Rightarrow> string \<Rightarrow> string \<Rightarrow> event" where
  "DegradedNote now host msg =
     \<lparr>e_time = now, e_severity = Low, e_category = CatElmer, e_title = ''monitor degraded'', e_message = msg,
      e_fields = None, e_technique = [], e_host = host, e_key = []\<rparr>"

section \<open>Polling\<close>

locale poll_monitor =
  fixes scan :: "'env \<Rightarrow> 'snap"
    and report :: "'env \<Rightarrow> 'snap \<Rightarrow> 'out"
    and run :: "'env list \<Rightarrow> 'snap \<Rightarrow> 'out list"
  assumes run_Nil: "run [] prev = []"
    and run_Cons: "run (e # es) prev = report e prev # run es (scan e)"
begin

lemma length_run: "length (run es prev) = length es"
  by (induction es arbitrary: prev) (simp_all add: run_Nil run_Cons)

lemma run_append:
  "run (es @ fs) prev = run es prev @ run fs (if es = [] then prev else scan (last es))"
  by (induction es arbitrary: prev) (simp_all add: run_Nil run_Cons)

text \<open>What a tick reports depends on its own scan and on the one before, and on nothing else.\<close>

lemma run_nth:
  "i < length es \<Longrightarrow> run es prev ! i = report (es ! i) (if i = 0 then prev else scan (es ! (i - 1)))"
proof (induction es arbitrary: prev i)
  case (Cons e es)
  then show ?case by (cases i) (auto simp: run_Cons nth_Cons')
qed simp

end

end
