(* ===== verification/Net_Monitor.thy ===== *)
theory Net_Monitor
  imports Detect_Correct Monitor_Base "HOL-Library.Sublist"
begin

text \<open>
  \<^verbatim>\<open>internal/monitors/net_linux.go\<close>: the monitor that compares snapshots of
  \<^verbatim>\<open>/proc/net/tcp\<close> and its siblings. The contents of a file are its lines after the header,
  or \<open>None\<close> if it cannot be opened; the owner of each socket when it is asked for is a function
  of its inode (\<open>pidForInode\<close> on the state of \<^verbatim>\<open>/proc\<close> then).
\<close>

section \<open>Snapshots\<close>

record conn_key =
  ck_local :: string
  ck_remote :: string
  ck_state :: string

record conn =
  co_key :: conn_key
  co_inode :: string
  co_uid :: string

text \<open>One line of the loop of \<open>parseProcNet\<close>: a connection in one of the two states of interest.\<close>

definition conn_of_line :: "string \<Rightarrow> conn option" where
  "conn_of_line line =
     (let fields = string_fields line in
      if length fields < 10 then None
      else
        let state = (if fields ! 3 = ''0A'' then Some ''LISTEN''
                     else if fields ! 3 = ''01'' then Some ''ESTABLISHED'' else None) in
        map_option (\<lambda>st. \<lparr>co_key = \<lparr>ck_local = fields ! 1, ck_remote = fields ! 2, ck_state = st\<rparr>,
            co_inode = fields ! 9, co_uid = fields ! 7\<rparr>) state)"

fun parseProcNet :: "string list \<Rightarrow> conn_key list \<Rightarrow> conn list \<times> conn_key list" where
  "parseProcNet [] seen = ([], seen)"
| "parseProcNet (line # lines) seen =
     (case conn_of_line line of
        None \<Rightarrow> parseProcNet lines seen
      | Some c \<Rightarrow>
          if co_key c \<in> set seen then parseProcNet lines seen
          else
            case parseProcNet lines (co_key c # seen) of
              (cs, seen) \<Rightarrow> (c # cs, seen))"

definition proc_net_files :: "string list" where
  "proc_net_files = [''/proc/net/tcp'', ''/proc/net/tcp6'', ''/proc/net/udp'', ''/proc/net/udp6'']"

fun snapshot_from :: "(string \<Rightarrow> string list option) \<Rightarrow> string list \<Rightarrow> conn_key list \<Rightarrow> conn list" where
  "snapshot_from proc [] seen = []"
| "snapshot_from proc (f # fs) seen =
     (case proc f of
        None \<Rightarrow> snapshot_from proc fs seen
      | Some lines \<Rightarrow> (case parseProcNet lines seen of (cs, seen) \<Rightarrow> cs @ snapshot_from proc fs seen))"

definition snapshotConns :: "(string \<Rightarrow> string list option) \<Rightarrow> conn list" where
  "snapshotConns proc = snapshot_from proc proc_net_files []"

section \<open>Events\<close>

text \<open>\<^verbatim>\<open>net.JoinHostPort\<close>.\<close>

definition join_host_port :: "string \<Rightarrow> string \<Rightarrow> string" where
  "join_host_port host port =
     (if colon \<in> set host then ''['' @ host @ '']:'' @ port else host @ '':'' @ port)"

text \<open>The text before the last colon and the decimal number after it; nothing before it is no address.\<close>

definition split_end :: "string \<Rightarrow> string \<times> int" where
  "split_end s =
     (case last_index_byte s colon of
        None \<Rightarrow> ([], 0)
      | Some i \<Rightarrow> if i > 0 then (take i s, fst (atoi (drop (i + 1) s))) else ([], 0))"

text \<open>
  The owner of a socket: the names in \<^verbatim>\<open>/proc\<close> and, for each, the targets of the links in its
  \<^verbatim>\<open>fd\<close> directory, in their order (\<open>None\<close> for a directory that cannot be read).
\<close>

definition pidForInode :: "string list option \<Rightarrow> (string \<Rightarrow> string list option) \<Rightarrow> string \<Rightarrow> string" where
  "pidForInode entries links inode =
     (let target = ''socket:['' @ inode @ '']'' in
      if inode = [] then []
      else
        case entries of
          None \<Rightarrow> []
        | Some es \<Rightarrow>
            (case find (\<lambda>e. snd (atoi e) \<and> (case links e of None \<Rightarrow> False | Some ls \<Rightarrow> target \<in> set ls)) es of
               None \<Rightarrow> []
             | Some e \<Rightarrow> e))"

definition connEvent :: "int \<Rightarrow> string \<Rightarrow> (string \<Rightarrow> string) \<Rightarrow> string \<Rightarrow> conn \<Rightarrow> event" where
  "connEvent now host pids title c =
     (let (localIP, lport) = split_end (ck_local (co_key c));
          (remoteIP, rport) = split_end (ck_remote (co_key c));
          action = (if title = ''socket bound'' then ''bind'' else ''connect'');
          ev = empty_event\<lparr>e_time := now, e_severity := Info, e_category := CatNetwork, e_title := title, e_host := host\<rparr>;
          ev = with_field ''action'' action ev;
          ev = with_field ''local'' (join_host_port localIP (itoa lport)) ev;
          ev = (if remoteIP \<noteq> [] then with_fields [(''dst_ip'', remoteIP), (''port'', itoa rport)] ev
                else with_fields [(''dst_ip'', localIP), (''port'', itoa lport)] ev);
          ev = with_field ''uid'' (co_uid c) ev;
          pid = pids (co_inode c) in
      if pid \<noteq> [] then with_field ''pid'' pid ev else ev)"

definition reportNew :: "bool \<Rightarrow> int \<Rightarrow> string \<Rightarrow> (string \<Rightarrow> string) \<Rightarrow> conn \<Rightarrow> event list" where
  "reportNew ebpfActive now host pids c =
     (if ck_state (co_key c) = ''LISTEN'' then [connEvent now host pids ''socket bound'' c]
      else if ck_state (co_key c) = ''ESTABLISHED'' then
        (if ebpfActive then [] else [connEvent now host pids ''outbound connect'' c])
      else [])"

text \<open>
  The report at start: the decoder of an address may panic, and the clock is read anew for each
  event.
\<close>

fun reportBaseline :: "ip_ctx option \<Rightarrow> (conn \<Rightarrow> int) \<Rightarrow> string \<Rightarrow> (string \<Rightarrow> string) \<Rightarrow> conn list \<Rightarrow> event list go" where
  "reportBaseline ipc clock host pids [] = Ret []"
| "reportBaseline ipc clock host pids (c # cs) =
     (if ck_state (co_key c) \<noteq> ''ESTABLISHED'' then reportBaseline ipc clock host pids cs
      else
        case ParseAddrPort (ck_remote (co_key c)) of
          Panic \<Rightarrow> Panic
        | Ret None \<Rightarrow> reportBaseline ipc clock host pids cs
        | Ret (Some (rip, _)) \<Rightarrow>
            (case ipc of
               None \<Rightarrow> reportBaseline ipc clock host pids cs
             | Some nets \<Rightarrow>
                 if Internal nets (Some rip) then reportBaseline ipc clock host pids cs
                 else
                   case reportBaseline ipc clock host pids cs of
                     Panic \<Rightarrow> Panic
                   | Ret evs \<Rightarrow> Ret (connEvent (clock c) host pids ''outbound connect'' c # evs)))"

section \<open>The polling loop\<close>

text \<open>A tick: the events for the connections that were not there before, and the new set.\<close>

definition connSet :: "conn list \<Rightarrow> conn_key set" where
  "connSet cs = set (map co_key cs)"

definition net_tick ::
  "bool \<Rightarrow> string \<Rightarrow> (string \<Rightarrow> string) \<Rightarrow> int \<Rightarrow> conn list \<Rightarrow> conn_key set \<Rightarrow> event list \<times> conn_key set" where
  "net_tick ebpfActive host pids now cur prevSet =
     (concat (map (\<lambda>c. if co_key c \<in> prevSet then [] else reportNew ebpfActive now host pids c) cur), connSet cur)"

text \<open>
  The loop over the ticks, each with its time and the contents of \<^verbatim>\<open>/proc/net\<close> then, and the
  whole monitor: the base line, then the events of every tick.
\<close>

fun net_loop ::
  "bool \<Rightarrow> string \<Rightarrow> (string \<Rightarrow> string) \<Rightarrow> (int \<times> (string \<Rightarrow> string list option)) list \<Rightarrow> conn_key set \<Rightarrow> event list list" where
  "net_loop ebpfActive host pids [] prevSet = []"
| "net_loop ebpfActive host pids ((now, proc) # ticks) prevSet =
     (case net_tick ebpfActive host pids now (snapshotConns proc) prevSet of
        (evs, prevSet) \<Rightarrow> evs # net_loop ebpfActive host pids ticks prevSet)"

definition net_start ::
  "config \<Rightarrow> bool \<Rightarrow> (conn \<Rightarrow> int) \<Rightarrow> string \<Rightarrow> (string \<Rightarrow> string) \<Rightarrow> (string \<Rightarrow> string list option)
     \<Rightarrow> (int \<times> (string \<Rightarrow> string list option)) list \<Rightarrow> event list list go" where
  "net_start cfg ebpfActive clock host pids proc ticks =
     (let prev = snapshotConns proc in
      case reportBaseline (NewIPCtx (cf_internal_cidr cfg)) clock host pids prev of
        Panic \<Rightarrow> Panic
      | Ret evs \<Rightarrow> Ret (evs # net_loop ebpfActive host pids ticks (connSet prev)))"

section \<open>What a snapshot holds\<close>

definition line_keys :: "string list \<Rightarrow> conn_key set" where
  "line_keys lines = {co_key c | c l. l \<in> set lines \<and> conn_of_line l = Some c}"

definition proc_keys :: "(string \<Rightarrow> string list option) \<Rightarrow> string list \<Rightarrow> conn_key set" where
  "proc_keys proc files = {k. \<exists>f \<in> set files. \<exists>lines. proc f = Some lines \<and> k \<in> line_keys lines}"

lemma line_keys_simps [simp]:
  "line_keys [] = {}"
  "line_keys (l # ls) = (case conn_of_line l of None \<Rightarrow> {} | Some c \<Rightarrow> {co_key c}) \<union> line_keys ls"
  by (auto simp: line_keys_def split: option.splits)

lemma proc_keys_simps [simp]:
  "proc_keys proc [] = {}"
  "proc_keys proc (f # fs) = (case proc f of None \<Rightarrow> {} | Some ls \<Rightarrow> line_keys ls) \<union> proc_keys proc fs"
  by (auto simp: proc_keys_def split: option.splits)







section \<open>The connections of a snapshot\<close>










section \<open>What a tick reports\<close>

lemma split_end_colon:
  assumes "a \<noteq> []" and "colon \<notin> set p"
  shows "split_end (a @ colon # p) = (a, fst (atoi p))"
  using assms by (simp add: split_end_def last_index_byte_split)








lemma snd_net_tick [simp]: "snd (net_tick ebpfActive host pids now cs old) = connSet cs"
  by (simp add: net_tick_def)


section \<open>Addresses of polled connections\<close>

text \<open>The characters of an address as the kernel prints it: hexadecimal digits.\<close>

definition hex_text :: "string \<Rightarrow> bool" where
  "hex_text a = (a \<noteq> [] \<and> list_all (\<lambda>c. digit_value c \<noteq> None) a)"

lemma hex_text_no_address: "hex_text a \<Longrightarrow> parse_ip a = None"
proof -
  assume "hex_text a"
  moreover have "digit_value dot = None" "digit_value colon = None" "digit_value percent = None"
    by (simp_all add: digit_value_def dot_def colon_def percent_def)
  ultimately have "find (\<lambda>c. c \<in> {dot, colon, percent}) a = None"
    by (auto simp: find_None_iff hex_text_def list_all_iff)
  then show ?thesis by (simp add: parse_ip_def)
qed

lemma connEvent_fields:
  assumes "ck_remote (co_key c) = a @ colon # p" and "a \<noteq> []" and "colon \<notin> set p"
  shows "field_of (connEvent now host pids title c) ''dst_ip'' = a"
    and "field_of (connEvent now host pids title c) ''port'' = itoa (fst (atoi p))"
    and "e_severity (connEvent now host pids title c) = Info"
    and "e_category (connEvent now host pids title c) = CatNetwork"
  using assms by (simp_all add: connEvent_def split_end_colon Let_def split_beta)

lemma classifyNet_no_address:
  "parse_ip (field_of ev ''dst_ip'') = None \<Longrightarrow> classifyNet e ev = ev"
  by (cases "en_ipc e") (simp_all add: classifyNet_def)

lemma Evaluate_network_info:
  assumes "e_category ev = CatNetwork" and "classifyNet e ev = ev"
  shows "Evaluate e ev = ([ev], e)"
  by (simp add: Evaluate_def assms categories passThrough_def)

lemma reportBaseline_panics:
  assumes "c \<in> set cs" and "ck_state (co_key c) = ''ESTABLISHED''"
    and "ParseAddrPort (ck_remote (co_key c)) = Panic"
  shows "reportBaseline ipc clock host pids cs = Panic"
  using assms(1)
proof (induction ipc clock host pids cs rule: reportBaseline.induct)
  case (2 ipc clock host pids d cs)
  then show ?case
    by (cases "d = c") (auto simp: assms(2,3) split: go.split option.split)
qed simp

section \<open>Properties\<close>


definition tcp6_line :: string where
  "tcp6_line = ''   1: 00000000000000000000000001000000:1F90 00000000000000000000000001000000:115C 01 00000000:00000000 00:00000000 00000000 0 0 23''"

definition proc_with :: "string \<Rightarrow> string \<Rightarrow> string \<Rightarrow> string list option" where
  "proc_with file line = (\<lambda>f. if f = file then Some [line, line] else None)"


lemma conn_of_tcp6_line:
  "conn_of_line tcp6_line =
     Some \<lparr>co_key = \<lparr>ck_local = ''00000000000000000000000001000000:1F90'',
         ck_remote = ''00000000000000000000000001000000'' @ colon # ''115C'', ck_state = ''ESTABLISHED''\<rparr>,
       co_inode = ''23'', co_uid = ''0''\<rparr>"
  by code_simp



text \<open>
  An event of the polling monitor is never rated: it carries the address as the
  hexadecimal number of \<^verbatim>\<open>/proc/net\<close>, which \<^verbatim>\<open>net.ParseIP\<close> refuses, so the detection engine
  leaves the connection at the lowest severity whatever its address, port and owner; and the
  port of a socket that listens is reported as 0.
\<close>

theorem polled_connection_unrated:
  assumes "ck_remote (co_key c) = a @ colon # p" and "hex_text a" and "colon \<notin> set p"
  shows "Evaluate e (connEvent now host pids title c) = ([connEvent now host pids title c], e) \<and>
    e_severity (connEvent now host pids title c) = Info \<and>
    (p = ''0000'' \<longrightarrow> field_of (connEvent now host pids title c) ''port'' = ''0'')"
proof -
  let ?ev = "connEvent now host pids title c"
  have a: "a \<noteq> []" using assms(2) by (simp add: hex_text_def)
  note f = connEvent_fields [OF assms(1) a assms(3), of now host pids title]
  have "classifyNet e ?ev = ?ev"
    by (rule classifyNet_no_address) (simp only: f(1) hex_text_no_address [OF assms(2)])
  then have "Evaluate e ?ev = ([?ev], e)"
    by (intro Evaluate_network_info) (simp_all only: f(3,4))
  moreover have "itoa (fst (atoi ''0000'')) = ''0''"
    by (simp add: itoa_def atoi_def digit_value_def format_uint_zero)
  ultimately show ?thesis using f(2,3) by simp
qed

theorem polled_connection_unrated_witness:
  "e_severity (connEvent 5 [] (\<lambda>_. ''7'') ''outbound connect''
     \<lparr>co_key = \<lparr>ck_local = ''0100000A:1F90'', ck_remote = ''08080808:115C'', ck_state = ''ESTABLISHED''\<rparr>,
       co_inode = ''22'', co_uid = ''0''\<rparr>) = Info"
proof -
  have "hex_text ''08080808'' \<and> colon \<notin> set ''115C'' \<and> ''08080808:115C'' = ''08080808'' @ colon # ''115C''"
    by code_simp
  then show ?thesis
    using polled_connection_unrated [of "\<lparr>co_key = \<lparr>ck_local = ''0100000A:1F90'', ck_remote = ''08080808:115C'',
      ck_state = ''ESTABLISHED''\<rparr>, co_inode = ''22'', co_uid = ''0''\<rparr>" "''08080808''" "''115C''"
      quiet_engine 5 "[]" "\<lambda>_. ''7''" "''outbound connect''"]
    by simp
qed

text \<open>
  C30 (error). One established IPv6 connection when the monitor starts, and it panics: the base
  line hands every remote end point of \<^verbatim>\<open>/proc/net/tcp6\<close> to the decoder that reads past the end.
\<close>

theorem baseline_panics_on_tcp6:
  assumes "c \<in> set (snapshotConns proc)" and "ck_state (co_key c) = ''ESTABLISHED''"
    and "ck_remote (co_key c) = a @ colon # p" and "hex_text a" and "length a = 32" and "colon \<notin> set p"
  shows "net_start cfg ebpfActive clock host pids proc ticks = Panic"
proof -
  have "ParseAddrPort (ck_remote (co_key c)) = Panic"
    unfolding assms(3) using assms(4-6) by (intro ParseAddrPort_v6_panics) (simp_all add: hex_text_def)
  then show ?thesis
    using reportBaseline_panics [OF assms(1,2)] by (simp add: net_start_def Let_def)
qed

theorem baseline_panics_on_tcp6_witness:
  "net_start zero_config True (\<lambda>_. 0) [] (\<lambda>_. []) (proc_with ''/proc/net/tcp6'' tcp6_line) [] = Panic"
proof -
  have "snapshotConns (proc_with ''/proc/net/tcp6'' tcp6_line) = [the (conn_of_line tcp6_line)]"
    by (simp add: snapshotConns_def proc_net_files_def proc_with_def conn_of_tcp6_line)
  moreover have "hex_text ''00000000000000000000000001000000'' \<and> colon \<notin> set ''115C''"
    by code_simp
  ultimately show ?thesis
    using baseline_panics_on_tcp6 [of "the (conn_of_line tcp6_line)" "proc_with ''/proc/net/tcp6'' tcp6_line"
        "''00000000000000000000000001000000''" "''115C''" zero_config True "\<lambda>_. 0" "[]" "\<lambda>_. []" "[]"]
    by (simp add: conn_of_tcp6_line)
qed

end
