(* ===== verification/Persistence.thy ===== *)
theory Persistence
  imports Monitor_Base "HOL-Library.AList" "HOL-Library.List_Lexorder" "HOL-Library.Char_ord" "HOL-Library.Word"
begin

text \<open>
  \<^verbatim>\<open>internal/monitors/persistence_linux.go\<close>: the sweep over users, password hashes, set-uid
  programs, units, cron files, modules and keys, compared with a stored base line. A Go map is
  the list of its entries, in the order in which a loop over it visits them. The host is what
  the sweep reads of it: the lines of files, the names in directories, the walk of a tree with
  the \<^verbatim>\<open>st_mode\<close> of each entry, the matches of \<^verbatim>\<open>/home/*\<close>, which files exist and their hashes.
\<close>

section \<open>Snapshots\<close>

record snapshot =
  sn_time :: string
  sn_users :: "(string \<times> string) list"
  sn_shadow :: "(string \<times> string) list"
  sn_uid0 :: "string list"
  sn_sudo :: "string list"
  sn_suid :: "(string \<times> string) list"
  sn_systemd :: "string list"
  sn_cron :: "string list"
  sn_modules :: "string list"
  sn_sshkeys :: "(string \<times> nat) list"
  sn_preload :: bool

record host_fs =
  fs_lines :: "string \<Rightarrow> string list option"
  fs_dir :: "string \<Rightarrow> string list option"
  fs_walk :: "string \<Rightarrow> (string \<times> 32 word) list"
  fs_homes :: "string list"
  fs_exists :: "string \<Rightarrow> bool"
  fs_hash :: "string \<Rightarrow> string"

definition lines_of :: "host_fs \<Rightarrow> string \<Rightarrow> string list" where
  "lines_of h f = (case fs_lines h f of None \<Rightarrow> [] | Some ls \<Rightarrow> ls)"

definition dir_of :: "host_fs \<Rightarrow> string \<Rightarrow> string list" where
  "dir_of h d = (case fs_dir h d of None \<Rightarrow> [] | Some ns \<Rightarrow> ns)"

text \<open>\<^verbatim>\<open>filepath.Join\<close> of a clean directory and the name of an entry.\<close>

definition path_join :: "string \<Rightarrow> string \<Rightarrow> string" where
  "path_join d n = d @ ''/'' @ n"

section \<open>Parsing\<close>

definition passwd_line :: "string \<Rightarrow> (string \<times> string) list \<times> string list \<Rightarrow> (string \<times> string) list \<times> string list" where
  "passwd_line line st =
     (case st of (users, uid0) \<Rightarrow>
       let p = go_split line CHR '':'' in
       if length p < 7 then (users, uid0)
       else (AList.update (p ! 0) (p ! 2 @ '':'' @ p ! 3 @ '':'' @ p ! 6) users,
             if p ! 2 = ''0'' then uid0 @ [p ! 0] else uid0))"

text \<open>
  The marker of a password hash: what is before the first dollar, and the length. (The text
  has a dollar where it is searched, so there is an index.)
\<close>

definition shadow_marker :: "string \<Rightarrow> string" where
  "shadow_marker h =
     (if go_has_prefix h ''$'' then take (the (index_byte h CHR ''$'')) h @ '':'' @ format_uint (length h) else h)"

definition shadow_line :: "string \<Rightarrow> (string \<times> string) list \<Rightarrow> (string \<times> string) list" where
  "shadow_line line m =
     (let p = go_split line CHR '':'' in
      if length p < 2 then m else AList.update (p ! 0) (shadow_marker (p ! 1)) m)"

definition sudo_rule :: "string \<Rightarrow> string \<Rightarrow> string list" where
  "sudo_rule f text_line =
     (let line = go_trim_space text_line in
      if line = [] \<or> go_has_prefix line ''#'' then []
      else if go_contains line ''NOPASSWD'' \<or> go_contains line '' !'' then [f @ '' :: '' @ line]
      else [])"

definition collectSudoers :: "host_fs \<Rightarrow> string list" where
  "collectSudoers h =
     (let files = ''/etc/sudoers'' # map (path_join ''/etc/sudoers.d'') (dir_of h ''/etc/sudoers.d'') in
      sort (concat (map (\<lambda>f. concat (map (sudo_rule f) (lines_of h f))) files)))"

text \<open>
  \<^verbatim>\<open>os.FileMode\<close>: the permissions are the low nine bits of \<^verbatim>\<open>st_mode\<close>; the type and the
  set-uid, set-gid and sticky bits are moved to Go's own positions, from bit 19 up.
\<close>

definition ModeDir :: "32 word" where "ModeDir = 2147483648"
definition ModeSymlink :: "32 word" where "ModeSymlink = 134217728"
definition ModeDevice :: "32 word" where "ModeDevice = 67108864"
definition ModeNamedPipe :: "32 word" where "ModeNamedPipe = 33554432"
definition ModeSocket :: "32 word" where "ModeSocket = 16777216"
definition ModeSetuid :: "32 word" where "ModeSetuid = 8388608"
definition ModeSetgid :: "32 word" where "ModeSetgid = 4194304"
definition ModeCharDevice :: "32 word" where "ModeCharDevice = 2097152"
definition ModeSticky :: "32 word" where "ModeSticky = 1048576"

definition go_file_mode :: "32 word \<Rightarrow> 32 word" where
  "go_file_mode st =
     (let fmt = and st 61440;
          kind = (if fmt = 24576 then ModeDevice
                  else if fmt = 8192 then or ModeDevice ModeCharDevice
                  else if fmt = 16384 then ModeDir
                  else if fmt = 4096 then ModeNamedPipe
                  else if fmt = 40960 then ModeSymlink
                  else if fmt = 49152 then ModeSocket
                  else 0) in
      or (or (or (or (and st 511) kind)
        (if and st 1024 \<noteq> 0 then ModeSetgid else 0))
        (if and st 2048 \<noteq> 0 then ModeSetuid else 0))
        (if and st 512 \<noteq> 0 then ModeSticky else 0))"

definition suid_roots :: "string list" where
  "suid_roots = [''/usr'', ''/bin'', ''/sbin'', ''/opt'', ''/tmp'', ''/var/tmp'', ''/dev/shm'']"

definition suid_entry :: "host_fs \<Rightarrow> string \<times> 32 word \<Rightarrow> (string \<times> string) list \<Rightarrow> (string \<times> string) list" where
  "suid_entry h e out =
     (case e of (p, st) \<Rightarrow>
       let mode = go_file_mode st in
       if and mode ModeDir \<noteq> 0 then out
       else if and mode 2048 \<noteq> 0 \<or> and mode 1024 \<noteq> 0 then AList.update p (fs_hash h p) out
       else out)"

definition collectSUID :: "host_fs \<Rightarrow> (string \<times> string) list" where
  "collectSUID h = fold (suid_entry h) (concat (map (fs_walk h) suid_roots)) []"

definition listFiles :: "host_fs \<Rightarrow> string \<Rightarrow> string list \<Rightarrow> string list" where
  "listFiles h d sfxs = concat (map (\<lambda>n. concat (map (\<lambda>sfx. if go_has_suffix n sfx then [n] else []) sfxs)) (dir_of h d))"

definition listCron :: "host_fs \<Rightarrow> string list" where
  "listCron h = concat (map (\<lambda>d. map (path_join d) (dir_of h d))
     [''/etc/cron.d'', ''/var/spool/cron'', ''/var/spool/cron/crontabs''])"

definition listModules :: "host_fs \<Rightarrow> string list" where
  "listModules h = concat (map (\<lambda>l. case go_cut l CHR '' '' of None \<Rightarrow> [] | Some (name, _) \<Rightarrow> [name])
     (lines_of h ''/proc/modules''))"

definition authorizedKeyFiles :: "host_fs \<Rightarrow> string list" where
  "authorizedKeyFiles h =
     filter (fs_exists h) (map (\<lambda>d. path_join (path_join d ''.ssh'') ''authorized_keys'') (''/root'' # fs_homes h))"

definition countLines :: "host_fs \<Rightarrow> string \<Rightarrow> nat" where
  "countLines h f = length (filter (\<lambda>l. go_trim_space l \<noteq> []) (lines_of h f))"

definition CollectSnapshot :: "string \<Rightarrow> host_fs \<Rightarrow> snapshot" where
  "CollectSnapshot time h =
     (case fold passwd_line (lines_of h ''/etc/passwd'') ([], []) of (users, uid0) \<Rightarrow>
       \<lparr>sn_time = time, sn_users = users,
        sn_shadow = fold shadow_line (lines_of h ''/etc/shadow'') [],
        sn_uid0 = sort uid0,
        sn_sudo = collectSudoers h,
        sn_suid = collectSUID h,
        sn_systemd = sort (listFiles h ''/etc/systemd/system'' [''.service'', ''.timer'']),
        sn_cron = sort (listCron h),
        sn_modules = sort (listModules h),
        sn_sshkeys = fold (\<lambda>k. AList.update k (countLines h k)) (authorizedKeyFiles h) [],
        sn_preload = fs_exists h ''/etc/ld.so.preload''\<rparr>)"

section \<open>Comparing snapshots\<close>

definition arrow :: string where
  "arrow = '' '' @ map char_of [226, 134, 146 :: nat] @ '' ''"

text \<open>The closure \<open>add\<close>: one event, at the time and on the host of the comparison.\<close>

definition add_event ::
  "int \<Rightarrow> string \<Rightarrow> severity \<Rightarrow> string \<Rightarrow> string \<Rightarrow> string \<Rightarrow> string \<Rightarrow> (string \<times> string) list \<Rightarrow> event" where
  "add_event now host sev title msg key technique kvs =
     with_fields kvs
       \<lparr>e_time = now, e_severity = sev, e_category = CatPersistence, e_title = title, e_message = msg,
        e_fields = None, e_technique = technique, e_host = host, e_key = key\<rparr>"

text \<open>The blocks of the comparison, in order.\<close>

definition diff_users :: "int \<Rightarrow> string \<Rightarrow> snapshot \<Rightarrow> snapshot \<Rightarrow> event list" where
  "diff_users now host old new =
     concat (map (\<lambda>(name, v). case map_of (sn_users old) name of
         None \<Rightarrow> [add_event now host Critical ''new user account'' (name @ '' ('' @ v @ '')'') (''user/'' @ name)
           ''T1136.001'' [(''user'', name)]]
       | Some ov \<Rightarrow>
           if ov \<noteq> v then [add_event now host High ''user account changed'' (name @ '': '' @ ov @ arrow @ v)
             (''userchg/'' @ name) ''T1098'' [(''user'', name)]]
           else []) (sn_users new))
     @ concat (map (\<lambda>(name, v). case map_of (sn_users new) name of
         None \<Rightarrow> [add_event now host Medium ''user account deleted'' name (''userdel/'' @ name) ''T1531'' []]
       | Some _ \<Rightarrow> []) (sn_users old))"

definition diff_uid0 :: "int \<Rightarrow> string \<Rightarrow> snapshot \<Rightarrow> snapshot \<Rightarrow> event list" where
  "diff_uid0 now host old new =
     concat (map (\<lambda>u. if u \<noteq> ''root'' \<and> u \<notin> set (sn_uid0 old)
       then [add_event now host Critical ''non-root account with uid 0'' u (''uid0/'' @ u) ''T1136'' []]
       else []) (sn_uid0 new))"

definition diff_shadow :: "int \<Rightarrow> string \<Rightarrow> snapshot \<Rightarrow> snapshot \<Rightarrow> event list" where
  "diff_shadow now host old new =
     concat (map (\<lambda>(user, marker).
         (case map_of (sn_shadow old) user of
            Some om \<Rightarrow>
              if om \<noteq> marker then [add_event now host High ''password hash changed'' user (''shadowchg/'' @ user) ''T1098'' []]
              else []
          | None \<Rightarrow> [])
         @ (if marker = [] \<and> (case map_of (sn_shadow old) user of None \<Rightarrow> True | Some om \<Rightarrow> om \<noteq> [])
            then [add_event now host Critical ''account without password'' user (''nopw/'' @ user) ''T1098'' []]
            else [])) (sn_shadow new))"

definition diff_suid :: "int \<Rightarrow> string \<Rightarrow> snapshot \<Rightarrow> snapshot \<Rightarrow> event list" where
  "diff_suid now host old new =
     concat (map (\<lambda>(p, v). case map_of (sn_suid old) p of
         None \<Rightarrow> [add_event now host Critical ''new SUID/SGID binary'' p (''suid/'' @ p) ''T1548.001'' [(''path'', p)]]
       | Some _ \<Rightarrow> []) (sn_suid new))
     @ concat (map (\<lambda>(p, v). case map_of (sn_suid new) p of
         None \<Rightarrow> [add_event now host Medium ''SUID/SGID binary removed'' p (''suiddel/'' @ p) ''T1562'' []]
       | Some _ \<Rightarrow> []) (sn_suid old))"

text \<open>Four blocks report the entries of a list that the old list does not have.\<close>

definition diff_list ::
  "int \<Rightarrow> string \<Rightarrow> severity \<Rightarrow> string \<Rightarrow> string \<Rightarrow> string \<Rightarrow> string list \<Rightarrow> string list \<Rightarrow> event list" where
  "diff_list now host sev title prefix technique old new =
     concat (map (\<lambda>x. if x \<notin> set old then [add_event now host sev title x (prefix @ x) technique []] else []) new)"

definition diff_keys :: "int \<Rightarrow> string \<Rightarrow> snapshot \<Rightarrow> snapshot \<Rightarrow> event list" where
  "diff_keys now host old new =
     concat (map (\<lambda>(k, n).
       if (case map_of (sn_sshkeys old) k of None \<Rightarrow> True | Some on \<Rightarrow> n > on)
       then [add_event now host Critical ''authorized_keys changed'' (k @ '': '' @ format_uint n @ '' keys'')
         (''sshkey/'' @ k) ''T1098.004'' [(''path'', k)]]
       else []) (sn_sshkeys new))"

definition diff_preload :: "int \<Rightarrow> string \<Rightarrow> snapshot \<Rightarrow> snapshot \<Rightarrow> event list" where
  "diff_preload now host old new =
     (if sn_preload new \<and> \<not> sn_preload old
      then [add_event now host Critical ''/etc/ld.so.preload appeared'' ''userspace rootkit indicator'' ''preload''
        ''T1546.012'' []]
      else [])"

definition DiffPersistence :: "int \<Rightarrow> string \<Rightarrow> snapshot \<Rightarrow> snapshot \<Rightarrow> event list" where
  "DiffPersistence now host old new =
     diff_users now host old new
     @ diff_uid0 now host old new
     @ diff_shadow now host old new
     @ diff_suid now host old new
     @ diff_list now host High ''new sudo rule'' ''sudo/'' ''T1548.003'' (sn_sudo old) (sn_sudo new)
     @ diff_list now host High ''new systemd unit'' ''systemd/'' ''T1543.002'' (sn_systemd old) (sn_systemd new)
     @ diff_list now host High ''new cron file'' ''cron/'' ''T1053.003'' (sn_cron old) (sn_cron new)
     @ diff_list now host Critical ''kernel module loaded'' ''lkm/'' ''T1547.006'' (sn_modules old) (sn_modules new)
     @ diff_keys now host old new
     @ diff_preload now host old new"

section \<open>The monitor\<close>

definition baseline_created :: "int \<Rightarrow> string \<Rightarrow> string \<Rightarrow> event" where
  "baseline_created now host path =
     \<lparr>e_time = now, e_severity = Low, e_category = CatPersistence, e_title = ''baseline created'',
      e_message = ''persistence sweep baseline written to '' @ path,
      e_fields = None, e_technique = [], e_host = host, e_key = []\<rparr>"

text \<open>
  \<open>Start\<close> on the stored base line (\<open>None\<close> if the file is missing or does not parse), with what
  writing one gives (the text of an error), the snapshot taken at start and the times and
  snapshots of the sweeps: what is sent, and what the state file holds afterwards.
\<close>

definition persistence_start ::
  "int \<Rightarrow> string \<Rightarrow> string \<Rightarrow> snapshot option \<Rightarrow> string option \<Rightarrow> snapshot \<Rightarrow> (int \<times> snapshot) list
     \<Rightarrow> event list \<times> snapshot option" where
  "persistence_start now host path stored save_error current sweeps =
     (case stored of
        None \<Rightarrow>
          (case save_error of
             Some err \<Rightarrow> ([DegradedNote now host (''persistence: cannot write baseline: '' @ err)], None)
           | None \<Rightarrow> ([baseline_created now host path], Some current))
      | Some baseline \<Rightarrow> (concat (map (\<lambda>(t, s). DiffPersistence t host baseline s) sweeps), Some baseline))"

section \<open>The changes the sweep is meant to report\<close>

text \<open>
  The specification speaks of maps and sets: a snapshot whose maps have one entry for each key
  stands for its finite maps, in whatever order they are visited.
\<close>

datatype change =
    New_User string string
  | User_Changed string string string
  | User_Deleted string
  | New_Uid0 string
  | Hash_Changed string
  | No_Password string
  | New_Suid string
  | Suid_Removed string
  | New_Sudo string
  | New_Unit string
  | New_Cron string
  | New_Module string
  | New_Keys string nat
  | Preload_Appeared

fun change_event :: "int \<Rightarrow> string \<Rightarrow> change \<Rightarrow> event" where
  "change_event t host (New_User u v) =
     add_event t host Critical ''new user account'' (u @ '' ('' @ v @ '')'') (''user/'' @ u) ''T1136.001'' [(''user'', u)]"
| "change_event t host (User_Changed u ov v) =
     add_event t host High ''user account changed'' (u @ '': '' @ ov @ arrow @ v) (''userchg/'' @ u) ''T1098'' [(''user'', u)]"
| "change_event t host (User_Deleted u) =
     add_event t host Medium ''user account deleted'' u (''userdel/'' @ u) ''T1531'' []"
| "change_event t host (New_Uid0 u) =
     add_event t host Critical ''non-root account with uid 0'' u (''uid0/'' @ u) ''T1136'' []"
| "change_event t host (Hash_Changed u) =
     add_event t host High ''password hash changed'' u (''shadowchg/'' @ u) ''T1098'' []"
| "change_event t host (No_Password u) =
     add_event t host Critical ''account without password'' u (''nopw/'' @ u) ''T1098'' []"
| "change_event t host (New_Suid p) =
     add_event t host Critical ''new SUID/SGID binary'' p (''suid/'' @ p) ''T1548.001'' [(''path'', p)]"
| "change_event t host (Suid_Removed p) =
     add_event t host Medium ''SUID/SGID binary removed'' p (''suiddel/'' @ p) ''T1562'' []"
| "change_event t host (New_Sudo r) =
     add_event t host High ''new sudo rule'' r (''sudo/'' @ r) ''T1548.003'' []"
| "change_event t host (New_Unit u) =
     add_event t host High ''new systemd unit'' u (''systemd/'' @ u) ''T1543.002'' []"
| "change_event t host (New_Cron c) =
     add_event t host High ''new cron file'' c (''cron/'' @ c) ''T1053.003'' []"
| "change_event t host (New_Module m) =
     add_event t host Critical ''kernel module loaded'' m (''lkm/'' @ m) ''T1547.006'' []"
| "change_event t host (New_Keys k n) =
     add_event t host Critical ''authorized_keys changed'' (k @ '': '' @ format_uint n @ '' keys'') (''sshkey/'' @ k)
       ''T1098.004'' [(''path'', k)]"
| "change_event t host Preload_Appeared =
     add_event t host Critical ''/etc/ld.so.preload appeared'' ''userspace rootkit indicator'' ''preload'' ''T1546.012'' []"

inductive changed :: "snapshot \<Rightarrow> snapshot \<Rightarrow> change \<Rightarrow> bool" for old new where
  new_user: "map_of (sn_users new) u = Some v \<Longrightarrow> map_of (sn_users old) u = None \<Longrightarrow> changed old new (New_User u v)"
| user_changed: "map_of (sn_users new) u = Some v \<Longrightarrow> map_of (sn_users old) u = Some ov \<Longrightarrow> ov \<noteq> v \<Longrightarrow>
    changed old new (User_Changed u ov v)"
| user_deleted: "map_of (sn_users old) u = Some ov \<Longrightarrow> map_of (sn_users new) u = None \<Longrightarrow> changed old new (User_Deleted u)"
| new_uid0: "u \<in> set (sn_uid0 new) - set (sn_uid0 old) \<Longrightarrow> u \<noteq> ''root'' \<Longrightarrow> changed old new (New_Uid0 u)"
| hash_changed: "map_of (sn_shadow new) u = Some m \<Longrightarrow> map_of (sn_shadow old) u = Some om \<Longrightarrow> om \<noteq> m \<Longrightarrow>
    changed old new (Hash_Changed u)"
| no_password: "map_of (sn_shadow new) u = Some [] \<Longrightarrow> map_of (sn_shadow old) u \<noteq> Some [] \<Longrightarrow>
    changed old new (No_Password u)"
| new_suid: "map_of (sn_suid new) p = Some v \<Longrightarrow> map_of (sn_suid old) p = None \<Longrightarrow> changed old new (New_Suid p)"
| suid_removed: "map_of (sn_suid old) p = Some v \<Longrightarrow> map_of (sn_suid new) p = None \<Longrightarrow> changed old new (Suid_Removed p)"
| new_sudo: "r \<in> set (sn_sudo new) - set (sn_sudo old) \<Longrightarrow> changed old new (New_Sudo r)"
| new_unit: "u \<in> set (sn_systemd new) - set (sn_systemd old) \<Longrightarrow> changed old new (New_Unit u)"
| new_cron: "c \<in> set (sn_cron new) - set (sn_cron old) \<Longrightarrow> changed old new (New_Cron c)"
| new_module: "m \<in> set (sn_modules new) - set (sn_modules old) \<Longrightarrow> changed old new (New_Module m)"
| new_keys: "map_of (sn_sshkeys new) k = Some n \<Longrightarrow>
    (\<And>on. map_of (sn_sshkeys old) k = Some on \<Longrightarrow> on < n) \<Longrightarrow> changed old new (New_Keys k n)"
| preload_appeared: "sn_preload new \<Longrightarrow> \<not> sn_preload old \<Longrightarrow> changed old new Preload_Appeared"

inductive_cases changed_cases: "changed old new ch"

inductive_simps changed_simps [simp]:
  "changed old new (New_User u v)" "changed old new (User_Changed u ov v)" "changed old new (User_Deleted u)"
  "changed old new (New_Uid0 u)" "changed old new (Hash_Changed u)" "changed old new (No_Password u)"
  "changed old new (New_Suid p)" "changed old new (Suid_Removed p)" "changed old new (New_Sudo r)"
  "changed old new (New_Unit u)" "changed old new (New_Cron c)" "changed old new (New_Module m)"
  "changed old new (New_Keys k n)" "changed old new Preload_Appeared"

definition wf_snapshot :: "snapshot \<Rightarrow> bool" where
  "wf_snapshot s \<longleftrightarrow> distinct (map fst (sn_users s)) \<and> distinct (map fst (sn_shadow s)) \<and>
     distinct (map fst (sn_suid s)) \<and> distinct (map fst (sn_sshkeys s))"

lemma wf_entries:
  assumes "wf_snapshot s"
  shows "(u, v) \<in> set (sn_users s) \<longleftrightarrow> map_of (sn_users s) u = Some v"
    and "(u, m) \<in> set (sn_shadow s) \<longleftrightarrow> map_of (sn_shadow s) u = Some m"
    and "(p, x) \<in> set (sn_suid s) \<longleftrightarrow> map_of (sn_suid s) p = Some x"
    and "(k, n) \<in> set (sn_sshkeys s) \<longleftrightarrow> map_of (sn_sshkeys s) k = Some n"
  using assms by (simp_all add: wf_snapshot_def)

text \<open>Each block of the comparison is the events of its kinds of change.\<close>

abbreviation reported :: "int \<Rightarrow> string \<Rightarrow> snapshot \<Rightarrow> snapshot \<Rightarrow> event \<Rightarrow> change \<Rightarrow> bool" where
  "reported now host old new ev ch \<equiv> changed old new ch \<and> ev = change_event now host ch"

lemma in_block:
  "ev \<in> set (concat (map (\<lambda>(k, v). f k v) m)) \<longleftrightarrow> (\<exists>k v. (k, v) \<in> set m \<and> ev \<in> set (f k v))"
  "ev \<in> set (if P then [e] else []) \<longleftrightarrow> P \<and> ev = e"
  "ev \<in> set (case r of None \<Rightarrow> [e] | Some x \<Rightarrow> g x) \<longleftrightarrow> r = None \<and> ev = e \<or> (\<exists>x. r = Some x \<and> ev \<in> set (g x))"
  "ev \<in> set (case r of None \<Rightarrow> [] | Some x \<Rightarrow> g x) \<longleftrightarrow> (\<exists>x. r = Some x \<and> ev \<in> set (g x))"
  "ev \<in> set [] \<longleftrightarrow> False"
  for ev e :: event
  by (auto split: option.splits)

lemma in_diff_users:
  assumes "wf_snapshot old" and "wf_snapshot new"
  shows "ev \<in> set (diff_users now host old new) \<longleftrightarrow>
    (\<exists>u v. reported now host old new ev (New_User u v)) \<or>
    (\<exists>u ov v. reported now host old new ev (User_Changed u ov v)) \<or>
    (\<exists>u. reported now host old new ev (User_Deleted u))"
  unfolding diff_users_def set_append Un_iff in_block wf_entries [OF assms(1)] wf_entries [OF assms(2)]
    changed_simps change_event.simps
  by blast

lemma in_diff_uid0:
  "ev \<in> set (diff_uid0 now host old new) \<longleftrightarrow> (\<exists>u. reported now host old new ev (New_Uid0 u))"
  unfolding diff_uid0_def by auto

lemma in_diff_shadow:
  assumes "wf_snapshot new"
  shows "ev \<in> set (diff_shadow now host old new) \<longleftrightarrow>
    (\<exists>u. reported now host old new ev (Hash_Changed u)) \<or> (\<exists>u. reported now host old new ev (No_Password u))"
proof -
  have fresh: "(case r of None \<Rightarrow> True | Some om \<Rightarrow> om \<noteq> []) \<longleftrightarrow> r \<noteq> Some []" for r :: "string option"
    by (cases r) simp_all
  show ?thesis
    unfolding diff_shadow_def fresh in_block set_append Un_iff wf_entries [OF assms] changed_simps change_event.simps
    by blast
qed

lemma in_diff_suid:
  assumes "wf_snapshot old" and "wf_snapshot new"
  shows "ev \<in> set (diff_suid now host old new) \<longleftrightarrow>
    (\<exists>p. reported now host old new ev (New_Suid p)) \<or> (\<exists>p. reported now host old new ev (Suid_Removed p))"
  unfolding diff_suid_def set_append Un_iff in_block wf_entries [OF assms(1)] wf_entries [OF assms(2)]
    changed_simps change_event.simps
  by blast

lemma in_diff_keys:
  assumes "wf_snapshot new"
  shows "ev \<in> set (diff_keys now host old new) \<longleftrightarrow> (\<exists>k n. reported now host old new ev (New_Keys k n))"
proof -
  have more: "(case r of None \<Rightarrow> True | Some on \<Rightarrow> on < n) \<longleftrightarrow> (\<forall>on. r = Some on \<longrightarrow> on < n)" for r and n :: nat
    by (cases r) simp_all
  show ?thesis
    unfolding diff_keys_def more in_block wf_entries [OF assms] changed_simps change_event.simps
    by (simp only: conj_assoc)
qed

lemma in_diff_list:
  "ev \<in> set (diff_list now host High ''new sudo rule'' ''sudo/'' ''T1548.003'' (sn_sudo old) (sn_sudo new)) \<longleftrightarrow>
    (\<exists>r. reported now host old new ev (New_Sudo r))"
  "ev \<in> set (diff_list now host High ''new systemd unit'' ''systemd/'' ''T1543.002'' (sn_systemd old) (sn_systemd new)) \<longleftrightarrow>
    (\<exists>u. reported now host old new ev (New_Unit u))"
  "ev \<in> set (diff_list now host High ''new cron file'' ''cron/'' ''T1053.003'' (sn_cron old) (sn_cron new)) \<longleftrightarrow>
    (\<exists>c. reported now host old new ev (New_Cron c))"
  "ev \<in> set (diff_list now host Critical ''kernel module loaded'' ''lkm/'' ''T1547.006'' (sn_modules old) (sn_modules new)) \<longleftrightarrow>
    (\<exists>m. reported now host old new ev (New_Module m))"
  by (auto simp: diff_list_def)

lemma in_diff_preload:
  "ev \<in> set (diff_preload now host old new) \<longleftrightarrow> reported now host old new ev Preload_Appeared"
  by (auto simp: diff_preload_def)

lemma ex_change:
  "(\<exists>ch. P ch) \<longleftrightarrow>
    ((\<exists>u v. P (New_User u v)) \<or> (\<exists>u ov v. P (User_Changed u ov v)) \<or> (\<exists>u. P (User_Deleted u))) \<or>
    (\<exists>u. P (New_Uid0 u)) \<or> ((\<exists>u. P (Hash_Changed u)) \<or> (\<exists>u. P (No_Password u))) \<or>
    ((\<exists>p. P (New_Suid p)) \<or> (\<exists>p. P (Suid_Removed p))) \<or>
    (\<exists>r. P (New_Sudo r)) \<or> (\<exists>u. P (New_Unit u)) \<or> (\<exists>c. P (New_Cron c)) \<or> (\<exists>m. P (New_Module m)) \<or>
    (\<exists>k n. P (New_Keys k n)) \<or> P Preload_Appeared"
  (is "?L \<longleftrightarrow> ?R")
proof
  assume ?L
  then obtain ch where "P ch" ..
  then show ?R by (cases ch) blast+
qed blast

lemma diff_changes:
  assumes "wf_snapshot old" and "wf_snapshot new"
  shows "set (DiffPersistence now host old new) = change_event now host ` {ch. changed old new ch}"
proof -
  have "ev \<in> set (DiffPersistence now host old new) \<longleftrightarrow> (\<exists>ch. reported now host old new ev ch)" for ev
    unfolding ex_change DiffPersistence_def set_append Un_iff
      in_diff_users [OF assms] in_diff_uid0 in_diff_shadow [OF assms(2)] in_diff_suid [OF assms]
      in_diff_list in_diff_keys [OF assms(2)] in_diff_preload
    by (rule refl)
  then show ?thesis by blast
qed

lemma diff_silent_iff:
  assumes "wf_snapshot old" and "wf_snapshot new"
  shows "DiffPersistence now host old new = [] \<longleftrightarrow> (\<forall>ch. \<not> changed old new ch)"
proof -
  have "DiffPersistence now host old new = [] \<longleftrightarrow> change_event now host ` {ch. changed old new ch} = {}"
    unfolding diff_changes [OF assms, symmetric] by simp
  then show ?thesis by simp
qed

lemma unchanged_same: "\<not> changed s s ch"
  by (auto elim: changed_cases)

section \<open>Snapshots of a host\<close>

lemma fold_distinct:
  assumes "\<And>x m. distinct (map fst m) \<Longrightarrow> distinct (map fst (f x m))" and "distinct (map fst m)"
  shows "distinct (map fst (fold f xs m))"
  using assms(2) by (induction xs arbitrary: m) (simp_all add: assms(1))

lemma passwd_distinct:
  "distinct (map fst (fst st)) \<Longrightarrow> distinct (map fst (fst (fold passwd_line ls st)))"
proof (induction ls arbitrary: st)
  case (Cons l ls)
  have "distinct (map fst (fst (passwd_line l st)))"
    using Cons.prems by (auto simp: passwd_line_def Let_def split_beta intro: distinct_update)
  then show ?case by (simp add: Cons.IH)
qed simp

lemma wf_CollectSnapshot: "wf_snapshot (CollectSnapshot time h)"
proof -
  have u: "distinct (map fst (fst (fold passwd_line (lines_of h ''/etc/passwd'') ([], []))))"
    by (rule passwd_distinct) simp
  have "distinct (map fst (fold shadow_line (lines_of h ''/etc/shadow'') []))"
    by (rule fold_distinct) (auto simp: shadow_line_def Let_def intro: distinct_update)
  moreover have "distinct (map fst (collectSUID h))"
    unfolding collectSUID_def
    by (rule fold_distinct) (auto simp: suid_entry_def Let_def split_beta intro: distinct_update)
  moreover have "distinct (map fst (fold (\<lambda>k. AList.update k (countLines h k)) (authorizedKeyFiles h) []))"
    by (rule fold_distinct) (auto intro: distinct_update)
  ultimately show ?thesis
    using u by (simp add: wf_snapshot_def CollectSnapshot_def split_beta)
qed

text \<open>No bit of a Go file mode is where the sweep looks for the set-uid and set-gid bits.\<close>

lemma and_or_eq_0:
  "and a c = 0 \<Longrightarrow> and b c = 0 \<Longrightarrow> and (or a b) c = 0" for a b c :: "32 word"
  by (simp add: bit.conj_disj_distrib2)

lemma go_file_mode_low:
  "and (go_file_mode st) 2048 = 0" "and (go_file_mode st) 1024 = 0"
  unfolding go_file_mode_def Let_def
  by (intro and_or_eq_0; simp add: ModeDir_def ModeSymlink_def ModeDevice_def ModeNamedPipe_def ModeSocket_def
      ModeSetuid_def ModeSetgid_def ModeCharDevice_def ModeSticky_def and.assoc and.left_commute)+

lemma suid_entry_none: "suid_entry h e out = out"
  by (simp add: suid_entry_def go_file_mode_low Let_def split_beta)

lemma collectSUID_empty: "collectSUID h = []"
proof -
  have "fold (suid_entry h) es [] = []" for es
    by (induction es) (simp_all add: suid_entry_none)
  then show ?thesis by (simp add: collectSUID_def)
qed

text \<open>Two shadow files that differ in hashes of equal length give one map.\<close>

type_synonym shadow_fields = "string \<times> string \<times> string"

definition shadow_text :: "shadow_fields \<Rightarrow> string" where
  "shadow_text e = (case e of (u, hash, rest) \<Rightarrow> u @ CHR '':'' # hash @ CHR '':'' # rest)"

definition rehashed :: "shadow_fields \<Rightarrow> shadow_fields \<Rightarrow> bool" where
  "rehashed e e' = (case (e, e') of ((u, hash, _), (u', hash', _)) \<Rightarrow>
     u' = u \<and> CHR '':'' \<notin> set u \<union> set hash \<union> set hash' \<and>
     (hash' = hash \<or> go_has_prefix hash ''$'' \<and> go_has_prefix hash' ''$'' \<and> length hash' = length hash))"

lemma shadow_marker_dollar:
  "go_has_prefix hash ''$'' \<Longrightarrow> shadow_marker hash = '':'' @ format_uint (length hash)"
  by (cases hash) (auto simp: shadow_marker_def)

lemma rehashed_line:
  assumes "rehashed e e'"
  shows "shadow_line (shadow_text e) m = shadow_line (shadow_text e') m"
proof -
  obtain u hash rest hash' rest' where e: "e = (u, hash, rest)" "e' = (u, hash', rest')"
    using assms by (auto simp: rehashed_def split: prod.splits)
  have c: "CHR '':'' \<notin> set u" "CHR '':'' \<notin> set hash" "CHR '':'' \<notin> set hash'"
    and h: "hash' = hash \<or> go_has_prefix hash ''$'' \<and> go_has_prefix hash' ''$'' \<and> length hash' = length hash"
    using assms by (auto simp: rehashed_def e)
  have line: "shadow_line (shadow_text (u, x, r)) m = AList.update u (shadow_marker x) m"
    if "CHR '':'' \<notin> set x" for x r
    using that c(1) by (simp add: shadow_line_def shadow_text_def go_split_simps Let_def)
  have "shadow_marker hash' = shadow_marker hash"
    using h shadow_marker_dollar by metis
  then show ?thesis by (simp add: e line c(2,3))
qed

lemma rehashed_file:
  "list_all2 rehashed es es' \<Longrightarrow> fold shadow_line (map shadow_text es) m = fold shadow_line (map shadow_text es') m"
  by (induction es es' arbitrary: m rule: list_all2_induct) (simp_all add: rehashed_line)

lemma CollectSnapshot_shadow:
  assumes "fold shadow_line ls [] = fold shadow_line (lines_of h ''/etc/shadow'') []"
  shows "CollectSnapshot time' (h\<lparr>fs_lines := (fs_lines h)(''/etc/shadow'' \<mapsto> ls)\<rparr>) =
    (CollectSnapshot time h)\<lparr>sn_time := time'\<rparr>"
proof -
  let ?h = "h\<lparr>fs_lines := (fs_lines h)(''/etc/shadow'' \<mapsto> ls)\<rparr>"
  have other: "lines_of ?h f = (if f = ''/etc/shadow'' then ls else lines_of h f)" for f
    by (simp add: lines_of_def)
  have dirs: "dir_of ?h d = dir_of h d" for d by (simp add: dir_of_def)
  have sudo_dir: "path_join ''/etc/sudoers.d'' n \<noteq> ''/etc/shadow''" for n
    by (simp add: path_join_def)
  have keys: "countLines ?h k = countLines h k" if "k \<in> set (authorizedKeyFiles h)" for k
  proof -
    have "last k = CHR ''s''"
      using that unfolding authorizedKeyFiles_def path_join_def set_filter set_map by auto
    then have "k \<noteq> ''/etc/shadow''" by auto
    then show ?thesis by (simp add: countLines_def other)
  qed
  have "fold (\<lambda>k. AList.update k (countLines ?h k)) (authorizedKeyFiles h) m =
      fold (\<lambda>k. AList.update k (countLines h k)) (authorizedKeyFiles h) m" for m
    by (rule fold_cong) (simp_all add: keys)
  moreover have "authorizedKeyFiles ?h = authorizedKeyFiles h"
    by (simp add: authorizedKeyFiles_def)
  moreover have "collectSudoers ?h = collectSudoers h"
    by (simp add: collectSudoers_def other dirs sudo_dir comp_def)
  ultimately show ?thesis
    using assms by (simp add: CollectSnapshot_def other collectSUID_empty listFiles_def listCron_def listModules_def
      dirs split_beta)
qed

section \<open>Properties\<close>

text \<open>
  C28 (refinement). The comparison of two snapshots sends exactly the events of the changes the
  specification names, for all the sections of a snapshot, whatever order its maps are visited
  in, and sends nothing exactly when there is no such change.
\<close>

theorem sweep_reports_changes:
  assumes "wf_snapshot old" and "wf_snapshot new"
  shows "set (DiffPersistence now host old new) = change_event now host ` {ch. changed old new ch} \<and>
    (DiffPersistence now host old new = [] \<longleftrightarrow> {ch. changed old new ch} = {})"
  using diff_changes [OF assms, of now host] diff_silent_iff [OF assms, of now host] by simp

definition empty_snapshot :: snapshot where
  "empty_snapshot = \<lparr>sn_time = [], sn_users = [], sn_shadow = [], sn_uid0 = [], sn_sudo = [], sn_suid = [],
     sn_systemd = [], sn_cron = [], sn_modules = [], sn_sshkeys = [], sn_preload = False\<rparr>"

theorem sweep_reports_changes_witness:
  "change_event 5 [] (New_User ''eve'' ''0:0:/bin/sh'') \<in>
     set (DiffPersistence 5 [] empty_snapshot (empty_snapshot\<lparr>sn_users := [(''eve'', ''0:0:/bin/sh'')]\<rparr>))"
proof -
  let ?new = "empty_snapshot\<lparr>sn_users := [(''eve'', ''0:0:/bin/sh'')]\<rparr>"
  have "wf_snapshot empty_snapshot" "wf_snapshot ?new" "changed empty_snapshot ?new (New_User ''eve'' ''0:0:/bin/sh'')"
    by (simp_all add: wf_snapshot_def empty_snapshot_def)
  then show ?thesis
    using sweep_reports_changes [of empty_snapshot ?new 5 "[]"] by blast
qed

text \<open>
  C29 (safety). The sweep never sees a set-uid or set-gid program: it tests bits 11 and 10 of Go's
  file mode, which are 0 for every file, so the map of such programs is empty on every host
  and none is ever reported as new or as removed.
\<close>

theorem suid_programs_never_seen:
  "collectSUID h = [] \<and>
   ''new SUID/SGID binary'' \<notin> e_title ` set (DiffPersistence now host (CollectSnapshot t h) (CollectSnapshot t' h')) \<and>
   ''SUID/SGID binary removed'' \<notin> e_title ` set (DiffPersistence now host (CollectSnapshot t h) (CollectSnapshot t' h'))"
proof -
  let ?old = "CollectSnapshot t h" and ?new = "CollectSnapshot t' h'"
  have none: "sn_suid (CollectSnapshot t h) = []" for t h
    by (simp add: CollectSnapshot_def collectSUID_empty split_beta)
  have "e_title (change_event now host ch) \<noteq> ''new SUID/SGID binary'' \<and>
      e_title (change_event now host ch) \<noteq> ''SUID/SGID binary removed''" if "changed ?old ?new ch" for ch
    using that by (cases ch) (simp_all add: none add_event_def)
  then show ?thesis
    unfolding diff_changes [OF wf_CollectSnapshot wf_CollectSnapshot] by (fastforce simp: collectSUID_empty)
qed

text \<open>
  A changed password is missed when the new hash is as long as the old one: the
  marker of a hash that begins with a dollar is a colon and the length of the hash.
\<close>

theorem password_change_missed:
  assumes "fs_lines h ''/etc/shadow'' = Some (map shadow_text es)" and "list_all2 rehashed es es'"
  shows "DiffPersistence now host (CollectSnapshot t h)
    (CollectSnapshot t' (h\<lparr>fs_lines := (fs_lines h)(''/etc/shadow'' \<mapsto> map shadow_text es')\<rparr>)) = []"
proof -
  have "fold shadow_line (map shadow_text es') [] = fold shadow_line (lines_of h ''/etc/shadow'') []"
    using assms by (simp add: lines_of_def rehashed_file)
  note same = CollectSnapshot_shadow [OF this, of t' t]
  have "wf_snapshot (s\<lparr>sn_time := t'\<rparr>)" if "wf_snapshot s" for s
    using that by (simp add: wf_snapshot_def)
  moreover have "\<not> changed s (s\<lparr>sn_time := t'\<rparr>) ch" for s ch
    by (auto elim: changed_cases)
  ultimately show ?thesis
    unfolding same using diff_silent_iff wf_CollectSnapshot by blast
qed

definition bare_host :: host_fs where
  "bare_host = \<lparr>fs_lines = Map.empty, fs_dir = Map.empty, fs_walk = \<lambda>_. [], fs_homes = [], fs_exists = \<lambda>_. False,
     fs_hash = \<lambda>_. []\<rparr>"

theorem password_change_missed_witness:
  "DiffPersistence 5 [] (CollectSnapshot [] (bare_host\<lparr>fs_lines := [''/etc/shadow'' \<mapsto> [''root:$6$a$hunter2:1:'']]\<rparr>))
     (CollectSnapshot [] (bare_host\<lparr>fs_lines := [''/etc/shadow'' \<mapsto> [''root:$6$b$letmein:2:'']]\<rparr>)) = []"
  using password_change_missed [of "bare_host\<lparr>fs_lines := [''/etc/shadow'' \<mapsto> [''root:$6$a$hunter2:1:'']]\<rparr>"
      "[(''root'', ''$6$a$hunter2'', ''1:'')]" "[(''root'', ''$6$b$letmein'', ''2:'')]" 5 "[]" "[]" "[]"]
  by (simp add: shadow_text_def rehashed_def)

text \<open>
  Two runs of the monitor on one state directory. The first finds no base line:
  it writes one, sends one event and never sweeps, whatever happens on the host meanwhile.
  The next run sends at each sweep every change since that base line, and leaves it as it is.
\<close>

theorem monitor_runs:
  "let base = CollectSnapshot t0 h0;
       (evs1, stored) = persistence_start now1 host path None None base sweeps1;
       (evs2, stored') = persistence_start now2 host path stored err current
          (map (\<lambda>(t, time, h). (t, CollectSnapshot time h)) sweeps2) in
   evs1 = [baseline_created now1 host path] \<and> stored = Some base \<and> stored' = Some base \<and>
   set evs2 = {change_event t host ch | t time h ch. (t, time, h) \<in> set sweeps2 \<and> changed base (CollectSnapshot time h) ch}"
proof -
  let ?evs = "concat (map (\<lambda>(t, s). DiffPersistence t host (CollectSnapshot t0 h0) s)
    (map (\<lambda>(t, time, h). (t, CollectSnapshot time h)) sweeps2))"
  have "set ?evs = (\<Union>(t, time, h) \<in> set sweeps2.
      set (DiffPersistence t host (CollectSnapshot t0 h0) (CollectSnapshot time h)))"
    by (auto simp: split_beta)
  also have "\<dots> = {change_event t host ch | t time h ch.
      (t, time, h) \<in> set sweeps2 \<and> changed (CollectSnapshot t0 h0) (CollectSnapshot time h) ch}"
    unfolding diff_changes [OF wf_CollectSnapshot wf_CollectSnapshot] by fast
  finally have "set ?evs = {change_event t host ch | t time h ch.
      (t, time, h) \<in> set sweeps2 \<and> changed (CollectSnapshot t0 h0) (CollectSnapshot time h) ch}" .
  then show ?thesis by (simp only: persistence_start_def option.case prod.case Let_def)
qed

end
