(* ===== verification/File_Monitor.thy ===== *)
theory File_Monitor
  imports Config Monitor_Base
begin

text \<open>
  \<^verbatim>\<open>internal/monitors/file_linux.go\<close>: the monitor that watches files with inotify. The state
  is the two maps and the set of excluded paths; a parameter answers what the code asks the
  system while it handles a buffer: what a path is, the directories under it, the matches of a
  pattern, the watch descriptor of a directory (\<open>None\<close> if it cannot be watched), and hashes.
\<close>

section \<open>State\<close>

record fim =
  fm_watches :: "u32 \<rightharpoonup> string"
  fm_targets :: "string \<rightharpoonup> string set"
  fm_exclude :: "string set"

record fim_env =
  fe_now :: int
  fe_host :: string
  fe_stat :: "string \<Rightarrow> (bool \<times> int) option"
  fe_dirs :: "string \<Rightarrow> string list"
  fe_glob :: "string \<Rightarrow> string list"
  fe_add :: "string \<Rightarrow> u32 option"
  fe_hash :: "string \<Rightarrow> string"

text \<open>\<^verbatim>\<open>os.Stat\<close> gives whether the path is a directory, and its size.\<close>

definition is_dir :: "fim_env \<Rightarrow> string \<Rightarrow> bool option" where
  "is_dir env p = map_option fst (fe_stat env p)"

definition fileSize :: "fim_env \<Rightarrow> string \<Rightarrow> int" where
  "fileSize env p = (case fe_stat env p of None \<Rightarrow> -1 | Some (_, n) \<Rightarrow> n)"

definition hashFor :: "fim_env \<Rightarrow> string \<Rightarrow> string" where
  "hashFor env p =
     (case fe_stat env p of
        None \<Rightarrow> []
      | Some (dir, n) \<Rightarrow> if \<not> dir \<and> n \<le> 4 * 2 ^ 20 then fe_hash env p else [])"

text \<open>The bits of an event's mask (the kernel's \<^verbatim>\<open>inotify.h\<close>).\<close>

definition IN_MODIFY :: u32 where "IN_MODIFY = 0x2"
definition IN_ATTRIB :: u32 where "IN_ATTRIB = 0x4"
definition IN_MOVED_FROM :: u32 where "IN_MOVED_FROM = 0x40"
definition IN_MOVED_TO :: u32 where "IN_MOVED_TO = 0x80"
definition IN_CREATE :: u32 where "IN_CREATE = 0x100"
definition IN_DELETE :: u32 where "IN_DELETE = 0x200"
definition IN_Q_OVERFLOW :: u32 where "IN_Q_OVERFLOW = 0x4000"
definition IN_ISDIR :: u32 where "IN_ISDIR = 0x40000000"

lemmas inotify_bits = IN_MODIFY_def IN_ATTRIB_def IN_MOVED_FROM_def IN_MOVED_TO_def IN_CREATE_def
  IN_DELETE_def IN_Q_OVERFLOW_def IN_ISDIR_def

definition has_bit :: "u32 \<Rightarrow> u32 \<Rightarrow> bool" where
  "has_bit bits b \<longleftrightarrow> bits AND b \<noteq> 0"

section \<open>Watches\<close>

definition watchDir :: "fim_env \<Rightarrow> string \<Rightarrow> string list \<Rightarrow> fim \<Rightarrow> fim \<times> nat" where
  "watchDir env dir names m =
     (case fe_add env dir of
        None \<Rightarrow> (m, 0)
      | Some wd \<Rightarrow>
          let s = (case fm_targets m dir of None \<Rightarrow> {} | Some s \<Rightarrow> s) in
          (m\<lparr>fm_watches := (fm_watches m)(wd \<mapsto> dir),
             fm_targets := (fm_targets m)(dir \<mapsto> s \<union> set names)\<rparr>, 1))"

fun watch_dirs :: "fim_env \<Rightarrow> string list \<Rightarrow> fim \<Rightarrow> fim \<times> nat" where
  "watch_dirs env [] m = (m, 0)"
| "watch_dirs env (d # ds) m =
     (case watchDir env d [] m of (m, k) \<Rightarrow> case watch_dirs env ds m of (m, n) \<Rightarrow> (m, k + n))"

definition watchTree :: "fim_env \<Rightarrow> string \<Rightarrow> fim \<Rightarrow> fim \<times> nat" where
  "watchTree env root m = watch_dirs env (fe_dirs env root) m"

definition watch_candidate :: "fim_env \<Rightarrow> bool \<Rightarrow> string \<Rightarrow> fim \<Rightarrow> fim \<times> nat" where
  "watch_candidate env recursive p m =
     (case is_dir env p of
        None \<Rightarrow>
          if recursive then (m, 0)
          else if is_dir env (path_dir p) = Some True then watchDir env (path_dir p) [path_base p] m
          else (m, 0)
      | Some True \<Rightarrow> if recursive then watchTree env p m else watchDir env p [] m
      | Some False \<Rightarrow> watchDir env (path_dir p) [path_base p] m)"

fun watch_candidates :: "fim_env \<Rightarrow> bool \<Rightarrow> string list \<Rightarrow> fim \<Rightarrow> fim \<times> nat" where
  "watch_candidates env recursive [] m = (m, 0)"
| "watch_candidates env recursive (p # ps) m =
     (case watch_candidate env recursive p m of (m, k) \<Rightarrow>
        case watch_candidates env recursive ps m of (m, n) \<Rightarrow> (m, k + n))"

definition addWatchPattern :: "fim_env \<Rightarrow> string \<Rightarrow> fim \<Rightarrow> fim \<times> nat" where
  "addWatchPattern env pat m =
     (let recursive = go_has_suffix pat ''/'';
          pat = (if recursive then take (length pat - 1) pat else pat);
          candidates = (if list_ex (\<lambda>c. c \<in> set ''*?['') pat then fe_glob env pat else [pat]) in
      watch_candidates env recursive candidates m)"

fun add_patterns :: "fim_env \<Rightarrow> string list \<Rightarrow> fim \<Rightarrow> fim \<times> nat" where
  "add_patterns env [] m = (m, 0)"
| "add_patterns env (pat # pats) m =
     (case addWatchPattern env pat m of (m, k) \<Rightarrow>
        case add_patterns env pats m of (m, n) \<Rightarrow> (m, k + n))"

section \<open>Events\<close>

definition fileEvent :: "fim_env \<Rightarrow> u32 \<Rightarrow> string \<Rightarrow> event option" where
  "fileEvent env bits path =
     map_option (\<lambda>(op, title, sev).
         with_fields [(''path'', path), (''op'', op), (''size'', itoa (fileSize env path)), (''sha256'', hashFor env path)]
           (empty_event\<lparr>e_time := fe_now env, e_severity := sev, e_category := CatFile, e_title := title,
              e_host := fe_host env\<rparr>))
       (if has_bit bits IN_CREATE \<or> has_bit bits IN_MOVED_TO then Some (''create'', ''file created'', Low)
        else if has_bit bits IN_MOVED_FROM \<or> has_bit bits IN_DELETE then Some (''delete'', ''file deleted'', Low)
        else if has_bit bits IN_ATTRIB then Some (''attrib'', ''file attributes changed'', Info)
        else if has_bit bits IN_MODIFY then Some (''modify'', ''file modified'', Info)
        else None)"

definition overflow_event :: "fim_env \<Rightarrow> event" where
  "overflow_event env =
     empty_event\<lparr>e_time := fe_now env, e_severity := High, e_category := CatFile, e_title := ''inotify queue overflow'',
       e_message := ''events were lost; elmer may have missed file changes'', e_host := fe_host env\<rparr>"

text \<open>The body of the loop of \<open>consume_inotify\<close> after one event has been cut out of the buffer.\<close>

definition handle_inotify :: "fim_env \<Rightarrow> u32 \<Rightarrow> u32 \<Rightarrow> string \<Rightarrow> fim \<Rightarrow> event list \<times> fim" where
  "handle_inotify env wd bits name m =
     (let dir = (case fm_watches m wd of None \<Rightarrow> [] | Some d \<Rightarrow> d) in
      if has_bit bits IN_Q_OVERFLOW then ([overflow_event env], m)
      else if dir = [] \<or> name = [] then ([], m)
      else if (case fm_targets m dir of None \<Rightarrow> False | Some names \<Rightarrow> names \<noteq> {} \<and> name \<notin> names) then ([], m)
      else
        let path = path_join2 dir name in
        if path \<in> fm_exclude m then ([], m)
        else
          let m = (if has_bit bits IN_ISDIR \<and> has_bit bits (IN_CREATE OR IN_MOVED_TO)
                   then fst (watchTree env path m) else m) in
          (case fileEvent env bits path of None \<Rightarrow> [] | Some ev \<Rightarrow> [ev], m))"

definition le32 :: "u8 list \<Rightarrow> nat \<Rightarrow> u32" where
  "le32 b off = dec Little (take 4 (drop off b))"

definition trim_nul :: "u8 list \<Rightarrow> u8 list" where
  "trim_nul s = rev (dropWhile (\<lambda>c. c = 0) (rev s))"

function consume_inotify :: "fim_env \<Rightarrow> u8 list \<Rightarrow> nat \<Rightarrow> fim \<Rightarrow> event list \<times> fim" where
  "consume_inotify env b off m =
     (if off + 16 \<le> length b then
        let wd = le32 b off; bits = le32 b (off + 4); nameLen = unat (le32 b (off + 12));
            name = (if nameLen > 0 \<and> off + 16 + nameLen \<le> length b
                    then str_of (trim_nul (take nameLen (drop (off + 16) b))) else []) in
        case handle_inotify env wd bits name m of (evs, m) \<Rightarrow>
          case consume_inotify env b (off + 16 + nameLen) m of (evs', m) \<Rightarrow> (evs @ evs', m)
      else ([], m))"
  by pat_completeness auto
termination
  by (relation "measure (\<lambda>(env, b, off, m). length b - off)") auto

declare consume_inotify.simps [simp del]

section \<open>The monitor\<close>

definition NewFileMonitor :: "(string \<Rightarrow> string option) \<Rightarrow> (string \<Rightarrow> string option) \<Rightarrow> config \<Rightarrow> fim" where
  "NewFileMonitor absolute readlink cfg =
     \<lparr>fm_watches = Map.empty, fm_targets = Map.empty,
      fm_exclude = set (List.map_filter absolute (fc_exclude_paths (cf_fim cfg))) \<union>
        set (filter (\<lambda>l. go_has_prefix l ''/'') (List.map_filter readlink [''/proc/self/fd/1'', ''/proc/self/fd/2'']))\<rparr>"

text \<open>\<open>Start\<close>: the watches of all the configured paths, then the buffers that are read, in order.\<close>

fun consume_all :: "fim_env \<Rightarrow> u8 list list \<Rightarrow> fim \<Rightarrow> event list \<times> fim" where
  "consume_all env [] m = ([], m)"
| "consume_all env (b # bs) m =
     (case consume_inotify env b 0 m of (evs, m) \<Rightarrow> case consume_all env bs m of (evs', m) \<Rightarrow> (evs @ evs', m))"

definition file_start :: "fim_env \<Rightarrow> string list \<Rightarrow> u8 list list \<Rightarrow> fim \<Rightarrow> event list" where
  "file_start env paths bufs m =
     (case add_patterns env paths m of (m, added) \<Rightarrow>
        if added = 0 then [DegradedNote (fe_now env) (fe_host env) ''fim: no watchable paths found (check config fim.paths)'']
        else fst (consume_all env bufs m))"

section \<open>Cutting a buffer into events\<close>

text \<open>An event as the kernel writes it: its name is padded with NULs.\<close>

record inotify_event =
  ie_wd :: u32
  ie_mask :: u32
  ie_cookie :: u32
  ie_name :: "u8 list"
  ie_pad :: nat

definition encode_inotify :: "inotify_event \<Rightarrow> u8 list" where
  "encode_inotify e =
     enc Little 4 (ie_wd e) @ enc Little 4 (ie_mask e) @ enc Little 4 (ie_cookie e)
       @ enc Little 4 (word_of_nat (length (ie_name e) + ie_pad e) :: u32) @ ie_name e @ replicate (ie_pad e) 0"

definition valid_inotify :: "inotify_event \<Rightarrow> bool" where
  "valid_inotify e \<longleftrightarrow> 0 \<notin> set (ie_name e) \<and> length (ie_name e) + ie_pad e < 2 ^ 32"

fun handle_all :: "fim_env \<Rightarrow> inotify_event list \<Rightarrow> fim \<Rightarrow> event list \<times> fim" where
  "handle_all env [] m = ([], m)"
| "handle_all env (e # es) m =
     (case handle_inotify env (ie_wd e) (ie_mask e) (str_of (ie_name e)) m of (evs, m) \<Rightarrow>
        case handle_all env es m of (evs', m) \<Rightarrow> (evs @ evs', m))"

lemma trim_nul_padded: "0 \<notin> set s \<Longrightarrow> trim_nul (s @ replicate n 0) = s"
proof -
  assume "0 \<notin> set s"
  then have "dropWhile (\<lambda>c. c = 0) (rev s) = rev s"
    by (cases "rev s") (auto simp: dropWhile_eq_self_iff)
  moreover have "dropWhile (\<lambda>c :: u8. c = 0) (replicate n 0 @ rev s) = dropWhile (\<lambda>c. c = 0) (rev s)"
    by (induction n) simp_all
  ultimately show ?thesis by (simp add: trim_nul_def)
qed

lemma length_encode_inotify: "length (encode_inotify e) = 16 + length (ie_name e) + ie_pad e"
  by (simp add: encode_inotify_def)

lemma le32_field:
  assumes "drop off b = pre @ enc Little 4 (w :: u32) @ rest"
  shows "le32 b (off + length pre) = w"
proof -
  have "drop (off + length pre) b = drop (length pre) (drop off b)"
    by (simp add: add.commute)
  also have "\<dots> = enc Little 4 w @ rest"
    unfolding assms by simp
  finally show ?thesis by (simp add: le32_def)
qed

lemma unat_u32: "n < 2 ^ 32 \<Longrightarrow> unat (word_of_nat n :: u32) = n"
  by (simp add: unat_of_nat)

lemma consume_event:
  assumes "valid_inotify e" and "drop off b = encode_inotify e @ rest"
  shows "consume_inotify env b off m =
    (case handle_inotify env (ie_wd e) (ie_mask e) (str_of (ie_name e)) m of (evs, m) \<Rightarrow>
       case consume_inotify env b (off + length (encode_inotify e)) m of (evs', m) \<Rightarrow> (evs @ evs', m))"
proof -
  let ?n = "length (ie_name e) + ie_pad e"
  have n: "unat (word_of_nat ?n :: u32) = ?n"
    using assms(1) unfolding valid_inotify_def by (intro unat_u32) simp
  note d = assms(2) [unfolded encode_inotify_def append_assoc]
  have wd: "le32 b off = ie_wd e"
    using le32_field [of off b "[]"] d by simp
  have mk: "le32 b (off + 4) = ie_mask e"
    using le32_field [of off b "enc Little 4 (ie_wd e)"] d by simp
  have len: "le32 b (off + 12) = word_of_nat ?n"
    using le32_field [of off b "enc Little 4 (ie_wd e) @ enc Little 4 (ie_mask e) @ enc Little 4 (ie_cookie e)"] d by simp
  have room: "length b = off + 16 + ?n + length rest"
    using arg_cong [OF assms(2), of length] by (simp add: length_encode_inotify)
  have "drop (off + 16) b = drop 16 (drop off b)" by (simp add: add.commute)
  also have "\<dots> = ie_name e @ replicate (ie_pad e) 0 @ rest" by (simp add: d)
  finally have "take ?n (drop (off + 16) b) = ie_name e @ replicate (ie_pad e) 0" by simp
  then have name: "trim_nul (take ?n (drop (off + 16) b)) = ie_name e"
    using assms(1) by (simp add: trim_nul_padded valid_inotify_def)
  show ?thesis
    by (subst consume_inotify.simps) (simp add: wd mk len n room name length_encode_inotify Let_def add.assoc
        del: of_nat_add)
qed

lemma consume_events:
  assumes "list_all valid_inotify es" and "drop off b = concat (map encode_inotify es)"
  shows "consume_inotify env b off m = handle_all env es m"
  using assms
proof (induction es arbitrary: off m)
  case Nil
  then show ?case by (subst consume_inotify.simps) simp
next
  case (Cons e es)
  have d: "drop off b = encode_inotify e @ concat (map encode_inotify es)" using Cons.prems(2) by simp
  have "drop (off + length (encode_inotify e)) b = drop (length (encode_inotify e)) (drop off b)"
    by (simp add: add.commute)
  also have "\<dots> = concat (map encode_inotify es)"
    unfolding d by simp
  finally have rest: "drop (off + length (encode_inotify e)) b = concat (map encode_inotify es)" .
  have "valid_inotify e" "list_all valid_inotify es" using Cons.prems(1) by simp_all
  then show ?case
    using consume_event [OF _ d] Cons.IH [OF _ rest] by (simp only: handle_all.simps)
qed

section \<open>What is watched\<close>

text \<open>The calls of \<open>watchDir\<close> that the paths lead to: a directory and the names asked for in it.\<close>

definition candidate_requests :: "fim_env \<Rightarrow> bool \<Rightarrow> string \<Rightarrow> (string \<times> string list) list" where
  "candidate_requests env recursive p =
     (case is_dir env p of
        None \<Rightarrow>
          if \<not> recursive \<and> is_dir env (path_dir p) = Some True then [(path_dir p, [path_base p])] else []
      | Some True \<Rightarrow> if recursive then map (\<lambda>d. (d, [])) (fe_dirs env p) else [(p, [])]
      | Some False \<Rightarrow> [(path_dir p, [path_base p])])"

definition pattern_requests :: "fim_env \<Rightarrow> string \<Rightarrow> (string \<times> string list) list" where
  "pattern_requests env pat =
     (let recursive = go_has_suffix pat ''/'';
          pat = (if recursive then take (length pat - 1) pat else pat) in
      concat (map (candidate_requests env recursive)
        (if list_ex (\<lambda>c. c \<in> set ''*?['') pat then fe_glob env pat else [pat])))"

definition requests :: "fim_env \<Rightarrow> string list \<Rightarrow> (string \<times> string list) list" where
  "requests env pats = concat (map (pattern_requests env) pats)"

definition requested_names :: "fim_env \<Rightarrow> string list \<Rightarrow> string \<Rightarrow> string set" where
  "requested_names env pats d = (\<Union>(d', ns) \<in> set (requests env pats). if d' = d then set ns else {})"

definition ask :: "fim_env \<Rightarrow> string \<times> string list \<Rightarrow> fim \<Rightarrow> fim" where
  "ask env r m = fst (watchDir env (fst r) (snd r) m)"

lemma watch_dirs_asks: "fst (watch_dirs env ds m) = fold (ask env) (map (\<lambda>d. (d, [])) ds) m"
  by (induction ds arbitrary: m) (simp_all add: ask_def split_beta)

lemma watch_candidate_asks:
  "fst (watch_candidate env recursive p m) = fold (ask env) (candidate_requests env recursive p) m"
  by (simp add: watch_candidate_def candidate_requests_def watchTree_def watch_dirs_asks ask_def
      split: option.split bool.split)

lemma watch_candidates_asks:
  "fst (watch_candidates env recursive ps m) = fold (ask env) (concat (map (candidate_requests env recursive) ps)) m"
  by (induction ps arbitrary: m) (simp_all add: split_beta watch_candidate_asks)

lemma add_patterns_asks: "fst (add_patterns env pats m) = fold (ask env) (requests env pats) m"
proof (induction pats arbitrary: m)
  case (Cons pat pats)
  have "fst (addWatchPattern env pat m) = fold (ask env) (pattern_requests env pat) m"
    by (simp add: addWatchPattern_def pattern_requests_def Let_def watch_candidates_asks)
  with Cons show ?case by (simp add: requests_def split_beta)
qed (simp add: requests_def)

lemma ask_simps:
  "fm_exclude (ask env r m) = fm_exclude m"
  "fe_add env (fst r) = None \<Longrightarrow> ask env r m = m"
  "fe_add env (fst r) = Some wd \<Longrightarrow> fm_watches (ask env r m) = (fm_watches m)(wd \<mapsto> fst r)"
  "fe_add env (fst r) = Some wd \<Longrightarrow> fm_targets (ask env r m) =
     (fm_targets m)(fst r \<mapsto> (case fm_targets m (fst r) of None \<Rightarrow> {} | Some s \<Rightarrow> s) \<union> set (snd r))"
  by (simp_all add: ask_def watchDir_def Let_def split: option.split)

lemma asks_exclude: "fm_exclude (fold (ask env) rs m) = fm_exclude m"
  by (induction rs arbitrary: m) (simp_all add: ask_simps)

text \<open>Once a directory has been asked for, its names are those of all the calls together.\<close>

lemma asks_targets:
  assumes "fe_add env d = Some wd"
  shows "fm_targets (fold (ask env) rs m) d =
    (if d \<in> fst ` set rs \<or> fm_targets m d \<noteq> None
     then Some ((case fm_targets m d of None \<Rightarrow> {} | Some s \<Rightarrow> s) \<union> (\<Union>(d', ns) \<in> set rs. if d' = d then set ns else {}))
     else None)"
proof (induction rs arbitrary: m)
  case Nil
  then show ?case by (cases "fm_targets m d") simp_all
next
  case (Cons r rs)
  show ?case
  proof (cases "fst r = d")
    case True
    then show ?thesis
      using assms by (cases r) (auto simp: Cons.IH ask_simps(4) split: option.split)
  next
    case False
    then have "fm_targets (ask env r m) d = fm_targets m d"
      by (cases "fe_add env (fst r)") (simp_all add: ask_simps)
    with False show ?thesis by (cases r) (auto simp: Cons.IH)
  qed
qed

lemma asks_watches:
  assumes "fe_add env d = Some wd" and "\<And>d'. fe_add env d' = Some wd \<Longrightarrow> d' = d"
    and "d \<in> fst ` set rs \<or> fm_watches m wd = Some d"
  shows "fm_watches (fold (ask env) rs m) wd = Some d"
  using assms(3)
proof (induction rs arbitrary: m)
  case (Cons r rs)
  have "fm_watches (ask env r m) wd = Some d" if r: "fst r = d \<or> fm_watches m wd = Some d"
  proof (cases "fe_add env (fst r) = Some wd")
    case True
    then have "fst r = d" by (rule assms(2))
    with True show ?thesis by (simp add: ask_simps(3))
  next
    case False
    then have "fst r \<noteq> d" using assms(1) by auto
    with r False show ?thesis by (cases "fe_add env (fst r)") (simp_all add: ask_simps(2,3))
  qed
  then have "d \<in> fst ` set rs \<or> fm_watches (ask env r m) wd = Some d"
    using Cons.prems by auto
  then show ?case by (simp add: Cons.IH)
qed simp

section \<open>What is excluded\<close>

definition quiet_on :: "string set \<Rightarrow> event list \<Rightarrow> bool" where
  "quiet_on ex evs \<longleftrightarrow> (\<lambda>ev. field_of ev ''path'') ` set evs \<inter> ex \<subseteq> {[]}"

lemma quiet_on_simps [simp]:
  "quiet_on ex []" "quiet_on ex (as @ bs) \<longleftrightarrow> quiet_on ex as \<and> quiet_on ex bs"
  by (auto simp: quiet_on_def)

lemma watch_dirs_exclude: "fm_exclude (fst (watch_dirs env ds m)) = fm_exclude m"
  by (simp add: watch_dirs_asks asks_exclude)

lemma fileEvent_path: "fileEvent env bits path = Some ev \<Longrightarrow> field_of ev ''path'' = path"
  by (auto simp: fileEvent_def)

lemma overflow_no_path: "field_of (overflow_event env) ''path'' = []"
  by (simp add: overflow_event_def empty_event_def field_of_def)

lemma handle_quiet:
  "handle_inotify env wd bits name m = (evs, m') \<Longrightarrow> fm_exclude m' = fm_exclude m \<and> quiet_on (fm_exclude m) evs"
  by (auto simp: handle_inotify_def Let_def watchTree_def watch_dirs_exclude quiet_on_def
      overflow_no_path dest: fileEvent_path split: if_splits option.splits)

lemma consume_quiet:
  "consume_inotify env b off m = (evs, m') \<Longrightarrow> fm_exclude m' = fm_exclude m \<and> quiet_on (fm_exclude m) evs"
proof (induction env b off m arbitrary: evs m' rule: consume_inotify.induct)
  case (1 env b off m)
  show ?case
  proof (cases "off + 16 \<le> length b")
    case True
    obtain evs1 m1 where h: "handle_inotify env (le32 b off) (le32 b (off + 4))
        (if unat (le32 b (off + 12)) > 0 \<and> off + 16 + unat (le32 b (off + 12)) \<le> length b
         then str_of (trim_nul (take (unat (le32 b (off + 12))) (drop (off + 16) b))) else []) m = (evs1, m1)"
      by fastforce
    obtain evs2 m2 where c: "consume_inotify env b (off + 16 + unat (le32 b (off + 12))) m1 = (evs2, m2)"
      by fastforce
    have "evs = evs1 @ evs2" "m' = m2"
      using "1.prems" True by (subst (asm) consume_inotify.simps; simp add: h c Let_def)+
    then show ?thesis
      using handle_quiet [OF h] "1.IH" [OF True refl refl refl refl h [symmetric] c] by simp
  next
    case False
    with "1.prems" show ?thesis by (subst (asm) consume_inotify.simps) simp
  qed
qed

lemma consume_all_quiet: "quiet_on (fm_exclude m) (fst (consume_all env bufs m))"
proof (induction bufs arbitrary: m)
  case (Cons b bufs)
  obtain evs m1 where c: "consume_inotify env b 0 m = (evs, m1)" by fastforce
  with consume_quiet [OF c] Cons [of m1] show ?case by (simp add: split_beta)
qed simp

section \<open>Properties\<close>

definition etc_env :: fim_env where
  "etc_env = \<lparr>fe_now = 5, fe_host = [], fe_stat = (\<lambda>p. Some (p = ''/etc'', 0)),
     fe_dirs = (\<lambda>d. [d]), fe_glob = (\<lambda>_. []), fe_add = (\<lambda>d. if d = ''/etc'' then Some 1 else None),
     fe_hash = (\<lambda>_. [])\<rparr>"


text \<open>
  C33 (roundtrip). A buffer of inotify events as the kernel writes them is cut into exactly
  those events, in their order, whatever padding their names have.
\<close>

theorem consume_inverts_encoding:
  assumes "list_all valid_inotify es"
  shows "consume_inotify env (concat (map encode_inotify es)) 0 m = handle_all env es m"
  by (rule consume_events [OF assms]) simp

theorem consume_inverts_encoding_witness:
  "consume_inotify etc_env (concat (map encode_inotify
       [\<lparr>ie_wd = 1, ie_mask = IN_CREATE, ie_cookie = 0, ie_name = [101, 118, 105, 108], ie_pad = 12\<rparr>])) 0
       (NewFileMonitor Some (\<lambda>_. None) zero_config) =
     handle_all etc_env [\<lparr>ie_wd = 1, ie_mask = IN_CREATE, ie_cookie = 0, ie_name = [101, 118, 105, 108], ie_pad = 12\<rparr>]
       (NewFileMonitor Some (\<lambda>_. None) zero_config)"
  by (rule consume_inverts_encoding) (simp add: valid_inotify_def)

text \<open>
  C32 (functional). What a watched directory reports after the paths of the configuration have
  been added, in any order: if no path names a file of it, everything; if one does, only the
  files so named, even when another path asks for the whole directory.
\<close>

theorem watched_names:
  assumes "d \<in> fst ` set (requests env paths)" and "fe_add env d = Some wd"
    and "\<And>d'. fe_add env d' = Some wd \<Longrightarrow> d' = d"
    and "d \<noteq> []" and "name \<noteq> []" and "\<not> has_bit bits IN_Q_OVERFLOW"
  shows "fst (handle_inotify env wd bits name (fst (add_patterns env paths (NewFileMonitor absolute readlink cfg)))) =
    (if (requested_names env paths d = {} \<or> name \<in> requested_names env paths d) \<and>
        path_join2 d name \<notin> fm_exclude (NewFileMonitor absolute readlink cfg)
     then (case fileEvent env bits (path_join2 d name) of None \<Rightarrow> [] | Some ev \<Rightarrow> [ev]) else [])"
proof -
  let ?init = "NewFileMonitor absolute readlink cfg"
  let ?st = "fold (ask env) (requests env paths) ?init"
  have w: "fm_watches ?st wd = Some d"
    using assms(1) by (intro asks_watches [OF assms(2,3)]) simp_all
  have "fm_targets ?init = Map.empty" by (simp add: NewFileMonitor_def)
  then have t: "fm_targets ?st d = Some (requested_names env paths d)"
    using assms(1) by (simp add: asks_targets [OF assms(2)] requested_names_def)
  show ?thesis
    unfolding add_patterns_asks handle_inotify_def
    using assms(4-6) by (simp add: w t asks_exclude Let_def)
qed

theorem watched_names_witness:
  "fst (handle_inotify etc_env 1 IN_CREATE ''evil''
     (fst (add_patterns etc_env [''/etc/'', ''/etc/passwd''] (NewFileMonitor Some (\<lambda>_. None) zero_config)))) = []"
proof -
  have r: "requests etc_env [''/etc/'', ''/etc/passwd''] = [(''/etc'', []), (''/etc'', [''passwd''])]"
    by code_simp
  have names: "requested_names etc_env [''/etc/'', ''/etc/passwd''] ''/etc'' = {''passwd''}"
    by (simp add: r requested_names_def)
  have bit: "\<not> has_bit IN_CREATE IN_Q_OVERFLOW" by (simp add: has_bit_def inotify_bits)
  have add: "fe_add etc_env d = (if d = ''/etc'' then Some 1 else None)" for d
    by (simp add: etc_env_def)
  show ?thesis
    by (subst watched_names [of "''/etc''"]) (simp_all add: r names bit add split: if_splits)
qed

text \<open>
  No event is ever sent for an excluded path, such as the monitor's own output,
  whatever is watched and whatever bytes are read from inotify.
\<close>

theorem excluded_never_reported:
  "(\<lambda>ev. field_of ev ''path'') ` set (file_start env paths bufs m) \<inter> fm_exclude m \<subseteq> {[]}"
proof -
  obtain m1 added where a: "add_patterns env paths m = (m1, added)" by fastforce
  then have "fm_exclude m1 = fm_exclude m"
    using add_patterns_asks [of env paths m] by (simp add: asks_exclude)
  then have "quiet_on (fm_exclude m) (file_start env paths bufs m)"
    using consume_all_quiet [of m1 env bufs]
    by (simp add: file_start_def a quiet_on_def DegradedNote_def field_of_def)
  then show ?thesis by (simp add: quiet_on_def)
qed

end
