(* ===== verification/Process_Monitor.thy ===== *)
theory Process_Monitor
  imports Monitor_Base Util Config "HOL-Library.AList"
begin

text \<open>
  \<^verbatim>\<open>internal/monitors/process_linux.go\<close>: the process monitor that runs when the eBPF programs
  do not: the netlink process connector, whose datagrams it decodes by hand, and polling of
  \<^verbatim>\<open>/proc\<close>. What \<^verbatim>\<open>/proc\<close> has on a process is a parameter.
\<close>

section \<open>Processes\<close>

record proc_view =
  pv_exe :: "int \<Rightarrow> string"
  pv_cmdline :: "int \<Rightarrow> string option"
  pv_status :: "int \<Rightarrow> string option"

text \<open>\<^verbatim>\<open>util.ReadCmdline\<close>: the arguments, which the file ends with NULs, joined by blanks.\<close>

definition ReadCmdline :: "proc_view \<Rightarrow> int \<Rightarrow> string" where
  "ReadCmdline pv pid =
     (case pv_cmdline pv pid of
        None \<Rightarrow> []
      | Some b \<Rightarrow>
          if b = [] then []
          else go_join (go_split (rev (dropWhile (\<lambda>c. c = CHR 0x00) (rev b))) CHR 0x00) '' '')"

record status =
  st_uid :: int
  st_gid :: int
  st_ppid :: int
  st_comm :: string

definition status_line :: "string \<Rightarrow> status \<Rightarrow> status" where
  "status_line line st =
     (if go_has_prefix line ''Name:'' then st\<lparr>st_comm := go_trim_space (drop 5 line)\<rparr>
      else if go_has_prefix line ''PPid:'' then st\<lparr>st_ppid := fst (atoi (go_trim_space (drop 5 line)))\<rparr>
      else if go_has_prefix line ''Uid:'' then
        (case string_fields (drop 4 line) of [] \<Rightarrow> st | f # _ \<Rightarrow> st\<lparr>st_uid := fst (atoi f)\<rparr>)
      else if go_has_prefix line ''Gid:'' then
        (case string_fields (drop 4 line) of [] \<Rightarrow> st | f # _ \<Rightarrow> st\<lparr>st_gid := fst (atoi f)\<rparr>)
      else st)"

definition parseStatus :: "string \<Rightarrow> status" where
  "parseStatus s =
     fold status_line (go_split s (CHR 0x0A)) \<lparr>st_uid = 0, st_gid = 0, st_ppid = 0, st_comm = []\<rparr>"

definition emitExec :: "int \<Rightarrow> string \<Rightarrow> proc_view \<Rightarrow> int \<Rightarrow> event list" where
  "emitExec now host pv pid =
     (let exe = pv_exe pv pid; cmdline = ReadCmdline pv pid in
      case pv_status pv pid of
        None \<Rightarrow> []
      | Some text_of \<Rightarrow>
          let st = parseStatus text_of in
          if exe = [] \<and> cmdline = [] then []
          else
            [with_fields
              ([(''pid'', itoa pid)]
                @ (if st_ppid st > 0 then [(''ppid'', itoa (st_ppid st))] else [])
                @ [(''uid'', itoa (st_uid st)), (''gid'', itoa (st_gid st)), (''comm'', st_comm st)]
                @ (if exe \<noteq> [] then [(''exe'', exe)] else [])
                @ (if cmdline \<noteq> [] then [(''cmdline'', cmdline)] else []))
              (empty_event\<lparr>e_time := now, e_severity := Info, e_category := CatProcess, e_title := ''exec'',
                 e_host := host\<rparr>)])"

section \<open>The netlink process connector\<close>

definition cnIdxProc :: u32 where "cnIdxProc = 1"
definition cnValProc :: u32 where "cnValProc = 1"
definition procCnMcastListen :: u32 where "procCnMcastListen = 1"
definition procEventExec :: u32 where "procEventExec = 4"
definition procEventUID :: u32 where "procEventUID = 8"

text \<open>The request of \<open>subscribeProcConnector\<close>, from a buffer of zeros.\<close>

definition subscribe_request :: "u8 list" where
  "subscribe_request =
     enc Little 4 (44 :: u32) @ enc Little 2 (2 :: u16) @ enc Little 2 (0 :: u16) @ enc Little 4 (0 :: u32)
       @ enc Little 4 (0 :: u32)
       @ enc Little 4 cnIdxProc @ enc Little 4 cnValProc @ enc Little 4 (0 :: u32) @ enc Little 4 (0 :: u32)
       @ enc Little 4 (4 :: u32) @ enc Little 4 procCnMcastListen @ replicate 4 0"

text \<open>\<^verbatim>\<open>binary.LittleEndian.Uint32(b[off:])\<close>, which panics unless four bytes are left.\<close>

definition uint32_at :: "u8 list \<Rightarrow> nat \<Rightarrow> u32 go" where
  "uint32_at b off = (if off + 4 \<le> length b then Ret (dec Little (take 4 (drop off b))) else Panic)"

definition setuid_event :: "int \<Rightarrow> string \<Rightarrow> int \<Rightarrow> u32 \<Rightarrow> event" where
  "setuid_event now host pid ruid =
     \<lparr>e_time = now, e_severity = High, e_category = CatProcess, e_title = ''setuid escalation to root'',
      e_message = ''pid '' @ itoa pid @ '' raised euid from '' @ format_uint (unat ruid) @ '' to 0'',
      e_fields = Some [''pid'' \<mapsto> itoa pid, ''uid'' \<mapsto> ''0''], e_technique = ''T1548.001'', e_host = host,
      e_key = ''setuid/'' @ itoa pid\<rparr>"

definition parseNetlink :: "int \<Rightarrow> string \<Rightarrow> proc_view \<Rightarrow> u8 list \<Rightarrow> event list go" where
  "parseNetlink now host pv b =
     (let hdr = 16 + 24 in
      if length b < hdr + 16 then Ret []
      else
        case uint32_at b hdr of
          Panic \<Rightarrow> Panic
        | Ret what \<Rightarrow>
            let p = hdr + 4 + 8 in
            if what = procEventExec then
              (case uint32_at b p of Panic \<Rightarrow> Panic | Ret pid \<Rightarrow> Ret (emitExec now host pv (sint pid)))
            else if what = procEventUID then
              (case uint32_at b p of Panic \<Rightarrow> Panic
               | Ret pid \<Rightarrow>
                   (case uint32_at b (p + 4) of Panic \<Rightarrow> Panic
                    | Ret ruid \<Rightarrow>
                        (case uint32_at b (p + 8) of Panic \<Rightarrow> Panic
                         | Ret euid \<Rightarrow>
                             Ret (if euid = 0 \<and> ruid \<noteq> 0 then [setuid_event now host (sint pid) ruid] else []))))
            else Ret [])"

section \<open>Polling\<close>

type_synonym proc_key = "string \<times> string"

text \<open>
  A scan of the names in \<^verbatim>\<open>/proc\<close>, in their order; a map is the list of its entries in the
  order in which the loop of \<open>runPolling\<close> visits them.
\<close>

definition scan_entry :: "proc_view \<Rightarrow> string \<Rightarrow> (int \<times> proc_key) list \<Rightarrow> (int \<times> proc_key) list" where
  "scan_entry pv name out =
     (case atoi name of (pid, ok) \<Rightarrow>
        if \<not> ok then out
        else if pv_exe pv pid = [] then out
        else AList.update pid (pv_exe pv pid, ReadCmdline pv pid) out)"

definition scanProcs :: "proc_view \<Rightarrow> string list \<Rightarrow> (int \<times> proc_key) list" where
  "scanProcs pv names = fold (scan_entry pv) names []"

definition poll_tick ::
  "int \<Rightarrow> string \<Rightarrow> proc_view \<Rightarrow> (int \<times> proc_key) list \<Rightarrow> (int \<times> proc_key) list \<Rightarrow> event list" where
  "poll_tick now host pv cur prev =
     concat (map (\<lambda>(pid, k). if map_of prev pid \<noteq> Some k then emitExec now host pv pid else []) cur)"

text \<open>The ticks, each with its time, the view of \<^verbatim>\<open>/proc\<close> and the names in it.\<close>

fun poll_loop :: "string \<Rightarrow> (int \<times> proc_view \<times> string list) list \<Rightarrow> (int \<times> proc_key) list \<Rightarrow> event list list" where
  "poll_loop host [] prev = []"
| "poll_loop host ((now, pv, names) # ticks) prev =
     (let cur = scanProcs pv names in poll_tick now host pv cur prev # poll_loop host ticks cur)"

definition runPolling ::
  "string \<Rightarrow> proc_view \<times> string list \<Rightarrow> (int \<times> proc_view \<times> string list) list \<Rightarrow> event list list" where
  "runPolling host start ticks = poll_loop host ticks (case start of (pv, names) \<Rightarrow> scanProcs pv names)"

section \<open>The monitor\<close>

text \<open>
  The loop of \<open>runNetlink\<close> over the datagrams, each with the time and the view of \<^verbatim>\<open>/proc\<close> when
  it is handled; \<open>Start\<close> falls back to polling when the connector cannot be used or fails.
\<close>

fun netlink_loop :: "string \<Rightarrow> (int \<times> proc_view \<times> u8 list) list \<Rightarrow> event list go" where
  "netlink_loop host [] = Ret []"
| "netlink_loop host ((now, pv, b) # bs) =
     (case parseNetlink now host pv b of
        Panic \<Rightarrow> Panic
      | Ret evs \<Rightarrow>
          (case netlink_loop host bs of Panic \<Rightarrow> Panic | Ret evs' \<Rightarrow> Ret (evs @ evs')))"

definition process_start ::
  "bool \<Rightarrow> config \<Rightarrow> string \<Rightarrow> int \<Rightarrow> (int \<times> proc_view \<times> u8 list) list \<times> string option
     \<Rightarrow> proc_view \<times> string list \<Rightarrow> (int \<times> proc_view \<times> string list) list \<Rightarrow> event list go" where
  "process_start ebpfActive cfg host now netlink start ticks =
     (if ebpfActive then Ret []
      else
        case netlink_loop host (fst netlink) of
          Panic \<Rightarrow> Panic
        | Ret evs \<Rightarrow>
            Ret (case snd netlink of
                None \<Rightarrow> evs
              | Some err \<Rightarrow>
                  evs @ DegradedNote now host
                      (''process events degraded: netlink proc connector unavailable, ''
                        @ ''falling back to /proc polling at '' @ duration_string (cf_poll_interval cfg))
                    # concat (runPolling host start ticks)))"

section \<open>Datagrams\<close>

text \<open>
  What the kernel sends (\<^verbatim>\<open>linux/netlink.h\<close>, \<^verbatim>\<open>linux/connector.h\<close>, \<^verbatim>\<open>linux/cn_proc.h\<close>): a netlink
  header of 16 bytes; a connector header of 20 bytes, whose last two fields have 16 bits; the
  event: its kind, the CPU it happened on, a time stamp and the data of that kind.
\<close>

definition kernel_datagram :: "u8 list \<Rightarrow> u32 \<Rightarrow> u32 \<Rightarrow> u16 \<Rightarrow> u16 \<Rightarrow> u32 \<Rightarrow> u32 \<Rightarrow> u64 \<Rightarrow> u8 list \<Rightarrow> u8 list" where
  "kernel_datagram nlh sq ack len flags kind cpu ts data =
     nlh @ (enc Little 4 cnIdxProc @ enc Little 4 cnValProc @ enc Little 4 sq @ enc Little 4 ack
       @ enc Little 2 len @ enc Little 2 flags) @ enc Little 4 kind @ enc Little 4 cpu @ enc Little 8 ts @ data"

lemma uint32_at_field: "length pre = off \<Longrightarrow> uint32_at (pre @ enc Little 4 (w :: u32) @ post) off = Ret w"
  by (simp add: uint32_at_def)

lemma parseNetlink_fields:
  fixes what a b c :: u32
  assumes "length pre = 40" and "length mid = 8"
  shows "parseNetlink now host pv (pre @ enc Little 4 what @ mid @ enc Little 4 a @ enc Little 4 b @ enc Little 4 c @ post) =
    Ret (if what = procEventExec then emitExec now host pv (sint a)
         else if what = procEventUID \<and> c = 0 \<and> b \<noteq> 0 then [setuid_event now host (sint a) b] else [])"
  (is "parseNetlink _ _ _ ?b = _")
proof -
  have w: "uint32_at ?b 40 = Ret what"
    using assms by (intro uint32_at_field)
  have a: "uint32_at ?b 52 = Ret a"
    using assms uint32_at_field [of "pre @ enc Little 4 what @ mid" 52 a "enc Little 4 b @ enc Little 4 c @ post"] by simp
  have b: "uint32_at ?b 56 = Ret b"
    using assms uint32_at_field [of "pre @ enc Little 4 what @ mid @ enc Little 4 a" 56 b "enc Little 4 c @ post"] by simp
  have c: "uint32_at ?b 60 = Ret c"
    using assms uint32_at_field [of "pre @ enc Little 4 what @ mid @ enc Little 4 a @ enc Little 4 b" 60 c post] by simp
  have "\<not> length ?b < 56" using assms by simp
  then show ?thesis
    by (simp only: parseNetlink_def Let_def numeral_plus_numeral add_num_simps if_False w a b c go.case) simp
qed

section \<open>Scans\<close>

text \<open>The map of a scan: each number in \<^verbatim>\<open>/proc\<close> that has an executable.\<close>

definition scan_map :: "proc_view \<Rightarrow> string list \<Rightarrow> int \<rightharpoonup> proc_key" where
  "scan_map pv names pid =
     (if pv_exe pv pid \<noteq> [] \<and> (\<exists>name \<in> set names. atoi name = (pid, True))
      then Some (pv_exe pv pid, ReadCmdline pv pid) else None)"

lemma scan_entry_map:
  "map_of (scan_entry pv name out) =
     (\<lambda>pid. if pv_exe pv pid \<noteq> [] \<and> atoi name = (pid, True) then Some (pv_exe pv pid, ReadCmdline pv pid)
       else map_of out pid)"
  by (cases "atoi name") (auto simp: scan_entry_def update_conv' fun_eq_iff)

lemma scanProcs_map: "map_of (scanProcs pv names) = scan_map pv names"
proof -
  have "map_of (fold (scan_entry pv) names out) = map_of out ++ scan_map pv names" for out
  proof (induction names arbitrary: out)
    case Nil
    then show ?case by (simp add: scan_map_def fun_eq_iff map_add_def)
  next
    case (Cons name names)
    show ?case
      by (auto simp: Cons.IH scan_entry_map scan_map_def map_add_def fun_eq_iff split: option.splits if_splits)
  qed
  then show ?thesis by (simp add: scanProcs_def)
qed

lemma scanProcs_distinct: "distinct (map fst (scanProcs pv names))"
proof -
  have "distinct (map fst out) \<Longrightarrow> distinct (map fst (fold (scan_entry pv) names out))" for out
    by (induction names arbitrary: out) (simp_all add: scan_entry_def split_beta distinct_update)
  then show ?thesis by (simp add: scanProcs_def)
qed

lemma poll_tick_reports:
  assumes "distinct (map fst cur)"
  shows "set (poll_tick now host pv cur prev) =
    (\<Union>pid \<in> {pid. map_of cur pid \<noteq> None \<and> map_of cur pid \<noteq> map_of prev pid}. set (emitExec now host pv pid))"
proof -
  have "set (poll_tick now host pv cur prev) =
      (\<Union>(pid, k) \<in> set cur. if map_of prev pid \<noteq> Some k then set (emitExec now host pv pid) else {})"
    unfolding poll_tick_def by (auto split: if_splits)
  also have "\<dots> = (\<Union>pid \<in> {pid. map_of cur pid \<noteq> None \<and> map_of cur pid \<noteq> map_of prev pid}. set (emitExec now host pv pid))"
  proof -
    have "(\<Union>(pid, k) \<in> set cur. if map_of prev pid \<noteq> Some k then f pid else {}) =
        (\<Union>pid \<in> {pid. map_of cur pid \<noteq> None \<and> map_of cur pid \<noteq> map_of prev pid}. f pid)" for f :: "int \<Rightarrow> event set"
      using map_of_eq_Some_iff [OF assms] by (fastforce split: if_splits)
    then show ?thesis .
  qed
  finally show ?thesis .
qed

interpretation proc_poll: poll_monitor
  "\<lambda>(now, pv, names). scanProcs pv names"
  "\<lambda>(now, pv, names) prev. poll_tick now host pv (scanProcs pv names) prev"
  "poll_loop host"
  for host
  by unfold_locales (auto simp: Let_def)

section \<open>The status file\<close>

definition tab :: char where "tab = CHR 0x09"
definition newline :: char where "newline = CHR 0x0A"

text \<open>The other lines of the file, and the four that are read, as the kernel prints them.\<close>

definition other_line :: "string \<Rightarrow> bool" where
  "other_line l \<longleftrightarrow> newline \<notin> set l \<and>
     \<not> go_has_prefix l ''Name:'' \<and> \<not> go_has_prefix l ''PPid:'' \<and> \<not> go_has_prefix l ''Uid:'' \<and> \<not> go_has_prefix l ''Gid:''"

definition ids_line :: "string \<Rightarrow> nat list \<Rightarrow> string" where
  "ids_line label ids = label @ concat (map (\<lambda>i. tab # format_uint i) ids)"

definition status_text :: "string \<Rightarrow> nat \<Rightarrow> nat list \<Rightarrow> nat list \<Rightarrow> string list \<Rightarrow> string list \<Rightarrow> string list \<Rightarrow> string" where
  "status_text comm ppid uids gids ls1 ls2 ls3 =
     go_join ([''Name:'' @ tab # comm] @ ls1 @ [ids_line ''PPid:'' [ppid]] @ ls2
       @ [ids_line ''Uid:'' uids, ids_line ''Gid:'' gids] @ ls3) [newline]"

lemma skip_other_lines: "list_all other_line ls \<Longrightarrow> fold status_line ls st = st"
  by (induction ls) (simp_all add: other_line_def status_line_def)

lemma decimal_plain: "c \<in> set (format_uint n) \<Longrightarrow> \<not> is_space c"
  using format_base_digits [of 10 c n] digit_value_plain by (auto simp: format_uint_def digit_value_digit)

lemma trim_word:
  assumes "\<And>c. c \<in> set w \<Longrightarrow> \<not> is_space c"
  shows "go_trim_space (tab # w) = w"
proof -
  have "is_space tab" by (simp add: is_space_def tab_def)
  moreover have "dropWhile is_space w = w" "dropWhile is_space (rev w) = rev w"
    using assms by (auto simp: dropWhile_eq_self_iff hd_in_set intro!: assms) (simp add: hd_rev)
  ultimately show ?thesis by (simp add: go_trim_space_def)
qed

lemma first_id: "\<exists>fs. string_fields (concat (map (\<lambda>i. tab # format_uint i) (i # is))) = format_uint i # fs"
proof -
  have sp: "is_space tab" by (simp add: is_space_def tab_def)
  have plain: "list_all (\<lambda>c. \<not> is_space c) (format_uint i)"
    using decimal_plain by (simp add: list_all_iff)
  have ne: "format_uint i \<noteq> []" by (simp add: format_uint_def format_base_nonempty)
  show ?thesis
    using ne sp by (cases "is") (simp_all add: string_fields_def fields_from_word [OF plain, of "[]" "[]", simplified]
        fields_from_word [OF plain])
qed

lemma status_line_read:
  "go_trim_space (tab # comm) = comm \<Longrightarrow> status_line (''Name:'' @ tab # comm) st = st\<lparr>st_comm := comm\<rparr>"
  "p < 2 ^ 63 \<Longrightarrow> status_line (ids_line ''PPid:'' [p]) st = st\<lparr>st_ppid := int p\<rparr>"
  "i < 2 ^ 63 \<Longrightarrow> status_line (ids_line ''Uid:'' (i # is)) st = st\<lparr>st_uid := int i\<rparr>"
  "i < 2 ^ 63 \<Longrightarrow> status_line (ids_line ''Gid:'' (i # is)) st = st\<lparr>st_gid := int i\<rparr>"
proof -
  show "status_line (''Name:'' @ tab # comm) st = st\<lparr>st_comm := comm\<rparr>" if "go_trim_space (tab # comm) = comm"
    using that by (simp add: status_line_def)
  show "status_line (ids_line ''PPid:'' [p]) st = st\<lparr>st_ppid := int p\<rparr>" if "p < 2 ^ 63"
    using that trim_word [of "format_uint p"] decimal_plain
    by (simp add: status_line_def ids_line_def atoi_format_uint)
  obtain fs where f: "string_fields (concat (map (\<lambda>i. tab # format_uint i) (i # is))) = format_uint i # fs"
    using first_id by blast
  show "status_line (ids_line ''Uid:'' (i # is)) st = st\<lparr>st_uid := int i\<rparr>" if "i < 2 ^ 63"
    using that f by (simp add: status_line_def ids_line_def atoi_format_uint)
  show "status_line (ids_line ''Gid:'' (i # is)) st = st\<lparr>st_gid := int i\<rparr>" if "i < 2 ^ 63"
    using that f by (simp add: status_line_def ids_line_def atoi_format_uint)
qed

lemma newline_free_ids: "newline \<notin> set label \<Longrightarrow> newline \<notin> set (ids_line label ids)"
proof -
  have "is_space newline" by (simp add: is_space_def newline_def)
  then have "newline \<notin> set (format_uint i)" for i using decimal_plain by blast
  moreover have "newline \<noteq> tab" by (simp add: newline_def tab_def)
  moreover assume "newline \<notin> set label"
  ultimately show ?thesis by (auto simp: ids_line_def)
qed

section \<open>Properties\<close>

text \<open>
  C26 (safety). The decoder of the netlink connector takes the connector's header for 24 bytes
  where the kernel has 20, so what it takes for the kind of an event is the number of the CPU:
  an event of any kind is an exec on CPU 4, a change of user ids on CPU 8 (judged by the thread
  group and the real id instead of the real and the effective id) and nothing on any other CPU.
\<close>

theorem netlink_reads_cpu:
  assumes "length nlh = 16"
  shows "parseNetlink now host pv
      (kernel_datagram nlh sq ack len flags kind cpu ts (enc Little 4 pid @ enc Little 4 tgid @ enc Little 4 ruid @ rest)) =
    Ret (if cpu = 4 then emitExec now host pv (sint (pid :: u32))
         else if cpu = 8 \<and> (ruid :: u32) = 0 \<and> (tgid :: u32) \<noteq> 0 then [setuid_event now host (sint pid) tgid] else [])"
proof -
  let ?pre = "nlh @ (enc Little 4 cnIdxProc @ enc Little 4 cnValProc @ enc Little 4 sq @ enc Little 4 ack
    @ enc Little 2 len @ enc Little 2 flags) @ enc Little 4 kind"
  have "length ?pre = 40" "length (enc Little 8 ts) = 8" using assms by simp_all
  from parseNetlink_fields [OF this, of now host pv cpu pid tgid ruid rest]
  show ?thesis by (simp add: kernel_datagram_def procEventExec_def procEventUID_def)
qed

definition shell_view :: proc_view where
  "shell_view = \<lparr>pv_exe = (\<lambda>_. ''/bin/sh''), pv_cmdline = (\<lambda>_. None), pv_status = (\<lambda>_. Some [])\<rparr>"

text \<open>An exec on CPU 0 is not reported.\<close>

theorem netlink_reads_cpu_witness:
  "parseNetlink 5 [] shell_view
     (kernel_datagram (replicate 16 0) 1 0 40 0 procEventExec 0 7
       (enc Little 4 (77 :: u32) @ enc Little 4 (77 :: u32) @ enc Little 4 (0 :: u32) @ replicate 12 0)) = Ret []"
  by (subst netlink_reads_cpu) simp_all

text \<open>
  A tick of the polling loop reports exactly the processes whose executable or
  arguments are not those of the scan before, whatever the order in which its map is visited.
\<close>

theorem poll_reports_changes:
  assumes "i < length ticks" and "ticks ! i = (now, pv, names)"
  shows "set (runPolling host start ticks ! i) =
    (\<Union>pid \<in> {pid. scan_map pv names pid \<noteq> None \<and>
        scan_map pv names pid \<noteq> (case (if i = 0 then start else snd (ticks ! (i - 1))) of (pv', names') \<Rightarrow> scan_map pv' names' pid)}.
      set (emitExec now host pv pid))"
proof -
  obtain pv' names' where t: "(if i = 0 then start else snd (ticks ! (i - 1))) = (pv', names')" by fastforce
  then have "(if i = 0 then (case start of (pv, names) \<Rightarrow> scanProcs pv names)
      else case ticks ! (i - 1) of (_, pv', names') \<Rightarrow> scanProcs pv' names') = scanProcs pv' names'"
    by (auto simp: split_beta split: if_splits)
  then show ?thesis
    unfolding runPolling_def proc_poll.run_nth [OF assms(1)] assms(2) prod.case t
    by (simp only: prod.case poll_tick_reports [OF scanProcs_distinct] scanProcs_map)
qed

theorem poll_reports_changes_witness:
  "set (runPolling [] (shell_view, [''1'']) [(5, shell_view, [''1'']), (6, shell_view, [''1''])] ! 1) = {}"
  by (subst poll_reports_changes [of 1 _ 6 shell_view "[''1'']"]) simp_all

text \<open>
  From the text of a status file the parser reads back the command name, the
  parent and the real user and group ids, whatever the other lines and the other ids are.
\<close>

theorem parseStatus_reads_back:
  assumes "newline \<notin> set comm" and "go_trim_space (tab # comm) = comm"
    and "list_all other_line (ls1 @ ls2 @ ls3)" and "ppid < 2 ^ 63" and "u < 2 ^ 63" and "g < 2 ^ 63"
  shows "parseStatus (status_text comm ppid (u # uids) (g # gids) ls1 ls2 ls3) =
    \<lparr>st_uid = int u, st_gid = int g, st_ppid = int ppid, st_comm = comm\<rparr>"
proof -
  let ?lines = "[''Name:'' @ tab # comm] @ ls1 @ [ids_line ''PPid:'' [ppid]] @ ls2
       @ [ids_line ''Uid:'' (u # uids), ids_line ''Gid:'' (g # gids)] @ ls3"
  have "newline \<notin> set ''Name:''" "newline \<notin> set ''PPid:''" "newline \<notin> set ''Uid:''" "newline \<notin> set ''Gid:''" "newline \<noteq> tab"
    by (simp_all add: newline_def tab_def)
  then have "list_all (\<lambda>l. newline \<notin> set l) ?lines"
    using assms(1,3) newline_free_ids by (auto simp: list_all_iff other_line_def)
  then have "go_split (status_text comm ppid (u # uids) (g # gids) ls1 ls2 ls3) newline = ?lines"
    unfolding status_text_def by (intro go_split_join) simp_all
  moreover have "list_all other_line ls1" "list_all other_line ls2" "list_all other_line ls3"
    using assms(3) by simp_all
  ultimately show ?thesis
    using assms(2,4-6)
    by (simp add: parseStatus_def newline_def [symmetric] status_line_read skip_other_lines
        del: append.simps)
qed

theorem parseStatus_reads_back_witness:
  "parseStatus (status_text ''sshd'' 1 [0, 1000, 0, 0] [0, 0] [''Umask:'' @ tab # ''0022''] [] [''Threads:'' @ tab # ''1'']) =
     \<lparr>st_uid = 0, st_gid = 0, st_ppid = 1, st_comm = ''sshd''\<rparr>"
proof -
  have "newline \<notin> set ''sshd'' \<and> go_trim_space (tab # ''sshd'') = ''sshd'' \<and>
      list_all other_line [''Umask:'' @ tab # ''0022'', ''Threads:'' @ tab # ''1'']"
    by code_simp
  then show ?thesis by (subst parseStatus_reads_back) simp_all
qed

end
