(* ===== verification/Auth_Monitor.thy ===== *)
theory Auth_Monitor
  imports Go_Regexp Monitor_Base Detect_Correct
begin

text \<open>
  \<^verbatim>\<open>internal/monitors/auth_linux.go\<close>: the parser of the lines of the authentication log, with
  the code's regular expressions. The networks of the monitor are \<open>None\<close> if one does not parse.
\<close>

section \<open>The patterns\<close>

fun seqs :: "re list \<Rightarrow> re" where
  "seqs [] = Empty"
| "seqs [r] = r"
| "seqs (r # s # rs) = Seq r (seqs (s # rs))"

definition reSSHFail :: re where
  "reSSHFail = seqs
     [Lit ''Failed '', Group 1 (Alt (Lit ''password'') (Lit ''publickey'')), Lit '' for '',
      Alt (Lit ''invalid user '') Empty, Group 2 (Plus Not_Space), Lit '' from '', Group 3 (Plus Not_Space),
      Lit '' port '', Group 4 (Plus Digit_Char)]"

definition reSSHOK :: re where
  "reSSHOK = seqs
     [Lit ''Accepted '',
      Group 1 (Alt (Lit ''password'') (Alt (Lit ''publickey'') (Lit ''keyboard-interactive/pam''))), Lit '' for '',
      Group 2 (Plus Not_Space), Lit '' from '', Group 3 (Plus Not_Space), Lit '' port '', Group 4 (Plus Digit_Char)]"

definition reSudo :: re where
  "reSudo = seqs
     [Lit ''sudo:'', Plus Space, Group 1 (Plus Not_Space), Plus Space, Lit '':'', Star No_Newline, Lit ''COMMAND='',
      Group 2 (Star No_Newline), End_Of_Text]"

definition reNewUser :: re where
  "reNewUser = seqs
     [Alt (Lit ''useradd'') (Lit ''adduser''), Lit ''['', Plus Digit_Char, Lit '']: new user: name='',
      Group 1 (Plus Not_Space), Lit '','']"

definition reSu :: re where
  "reSu = seqs
     [Lit ''su['', Plus Digit_Char, Lit '']: Successful su for '', Group 1 (Plus Not_Space), Lit '' by '',
      Group 2 (Plus Not_Space)]"

section \<open>The parser\<close>

text \<open>\<^verbatim>\<open>strings.SplitN(s, sep, 2)\<close>: the text before and after the first separator, if there is one.\<close>

fun cut_at :: "string \<Rightarrow> string \<Rightarrow> (string \<times> string) option" where
  "cut_at [] sep = None"
| "cut_at (c # s) sep =
     (if go_has_prefix (c # s) sep then Some ([], drop (length sep) (c # s))
      else map_option (\<lambda>(a, b). (c # a, b)) (cut_at s sep))"

definition trimPrefix :: "string \<Rightarrow> string" where
  "trimPrefix line =
     (case cut_at line '': '' of
        Some (a, b) \<Rightarrow> if length a < 80 then b else line
      | None \<Rightarrow> line)"

text \<open>The host that \<^verbatim>\<open>net.SplitHostPort\<close> returns, or \<open>None\<close> for an error.\<close>

definition split_host :: "string \<Rightarrow> string option" where
  "split_host s =
     (case last_index_byte s colon of
        None \<Rightarrow> None
      | Some i \<Rightarrow>
          if hd s = CHR ''['' then
            (case index_byte s CHR '']'' of
               None \<Rightarrow> None
             | Some e \<Rightarrow>
                 if e + 1 \<noteq> i then None
                 else if CHR ''['' \<in> set (drop 1 s) \<or> CHR '']'' \<in> set (drop (e + 1) s) then None
                 else Some (take (e - 1) (drop 1 s)))
          else if colon \<in> set (take i s) \<or> CHR ''['' \<in> set s \<or> CHR '']'' \<in> set s then None
          else Some (take i s))"

definition hostOnly :: "string \<Rightarrow> string" where
  "hostOnly s = (case split_host s of Some h \<Rightarrow> h | None \<Rightarrow> s)"

definition authEvent :: "string \<Rightarrow> int \<Rightarrow> string \<Rightarrow> severity \<Rightarrow> string \<Rightarrow> event" where
  "authEvent host now title sev line =
     empty_event\<lparr>e_time := now, e_severity := sev, e_category := CatAuth, e_title := title,
       e_message := trimPrefix line, e_host := host\<rparr>"

definition parseLine :: "ip_ctx option \<Rightarrow> string \<Rightarrow> int \<Rightarrow> string \<Rightarrow> event option" where
  "parseLine ipc host now line =
     (case FindSubmatch reSSHFail line of
        Some g \<Rightarrow>
          Some (with_fields [(''user'', group g 2), (''src_ip'', hostOnly (group g 3)), (''auth'', ''fail'')]
            (authEvent host now ''SSH auth failure'' Medium line))
      | None \<Rightarrow>
     (case FindSubmatch reSSHOK line of
        Some g \<Rightarrow>
          let sev = (case (ipc, parse_ip (hostOnly (group g 3))) of
              (Some nets, Some a) \<Rightarrow> if Internal nets (Some a) then Info else High
            | _ \<Rightarrow> Info) in
          Some (with_fields [(''user'', group g 2), (''src_ip'', hostOnly (group g 3)), (''auth'', ''ok'')]
            (authEvent host now ''SSH login'' sev line))
      | None \<Rightarrow>
     (case FindSubmatch reSudo line of
        Some g \<Rightarrow>
          Some (with_fields [(''user'', group g 1), (''command'', group g 2)]
            (authEvent host now ''sudo command'' Info line))
      | None \<Rightarrow>
     (case FindSubmatch reNewUser line of
        Some g \<Rightarrow>
          Some ((with_fields [(''user'', group g 1)] (authEvent host now ''user account created'' Critical line))
            \<lparr>e_key := ''newuser/'' @ group g 1\<rparr>)
      | None \<Rightarrow>
     (case FindSubmatch reSu line of
        Some g \<Rightarrow>
          Some (with_fields [(''user'', group g 1), (''as'', group g 2)]
            (authEvent host now ''su (switch user)'' Medium line))
      | None \<Rightarrow> None)))))"

section \<open>A line that reports a failed login\<close>

definition word_text :: "string \<Rightarrow> bool" where
  "word_text w \<longleftrightarrow> w \<noteq> [] \<and> list_all (in_cls Not_Space) w"

definition number_text :: "string \<Rightarrow> bool" where
  "number_text w \<longleftrightarrow> w \<noteq> [] \<and> list_all (in_cls Digit_Char) w"

text \<open>What \<^verbatim>\<open>sshd\<close> logs for a user name that does not exist, with anything before and after.\<close>

definition failed_line :: "string \<Rightarrow> string \<Rightarrow> string \<Rightarrow> string \<Rightarrow> string \<Rightarrow> string" where
  "failed_line pre user ip port rest =
     pre @ ''Failed '' @ ''password for invalid user '' @ user @ '' from '' @ ip @ '' port '' @ port @ rest"

definition failed_form :: "string \<Rightarrow> string \<Rightarrow> string \<Rightarrow> string \<Rightarrow> string \<Rightarrow> bool" where
  "failed_form pre user ip port rest \<longleftrightarrow>
     list_all (\<lambda>i. \<not> go_has_prefix (drop i (pre @ ''Failed '')) ''Failed '') [0..<length pre] \<and>
     word_text user \<and> word_text ip \<and> colon \<notin> set ip \<and> number_text port \<and>
     (rest = [] \<or> \<not> in_cls Digit_Char (hd rest))"

lemma group_word_match:
  assumes "word_text w" and "\<not> in_cls Not_Space x" and "k (x # t) ((n, w) # cs) = Some r"
  shows "re_match (Group n (Plus Not_Space)) (w @ x # t) cs k = Some r"
  using assms by (intro group_plus_match) (auto simp: word_text_def list_all_iff)

lemma match_port:
  assumes "number_text port" and "rest = [] \<or> \<not> in_cls Digit_Char (hd rest)"
  shows "re_match (seqs [Lit '' port '', Group 4 (Plus Digit_Char)]) ('' port '' @ port @ rest) cs (\<lambda>_ cs. Some cs) =
    Some ((4, port) # cs)"
  unfolding seqs.simps re_match.simps(5) lit_match
  using assms by (intro group_plus_match) (auto simp: number_text_def list_all_iff)

lemma match_source:
  assumes "word_text ip" and "number_text port" and "rest = [] \<or> \<not> in_cls Digit_Char (hd rest)"
  shows "re_match (seqs [Lit '' from '', Group 3 (Plus Not_Space), Lit '' port '', Group 4 (Plus Digit_Char)])
      ('' from '' @ ip @ '' port '' @ port @ rest) cs (\<lambda>_ cs. Some cs) = Some ((4, port) # (3, ip) # cs)"
proof -
  have "re_match (Group 3 (Plus Not_Space)) (ip @ CHR '' '' # ''port '' @ port @ rest) cs
      (\<lambda>s cs. re_match (seqs [Lit '' port '', Group 4 (Plus Digit_Char)]) s cs (\<lambda>_ cs. Some cs)) =
    Some ((4, port) # (3, ip) # cs)"
    using match_port [OF assms(2,3)] by (intro group_word_match [OF assms(1)]) simp_all
  then show ?thesis
    unfolding seqs.simps re_match.simps(5) lit_match by simp
qed

lemma match_user:
  assumes "word_text user" and "word_text ip" and "number_text port" and "rest = [] \<or> \<not> in_cls Digit_Char (hd rest)"
  shows "re_match (seqs [Group 2 (Plus Not_Space), Lit '' from '', Group 3 (Plus Not_Space), Lit '' port '',
        Group 4 (Plus Digit_Char)])
      (user @ '' from '' @ ip @ '' port '' @ port @ rest) cs (\<lambda>_ cs. Some cs) =
    Some ((4, port) # (3, ip) # (2, user) # cs)"
proof -
  have "re_match (Group 2 (Plus Not_Space)) (user @ CHR '' '' # ''from '' @ ip @ '' port '' @ port @ rest) cs
      (\<lambda>s cs. re_match (seqs [Lit '' from '', Group 3 (Plus Not_Space), Lit '' port '', Group 4 (Plus Digit_Char)])
        s cs (\<lambda>_ cs. Some cs)) =
    Some ((4, port) # (3, ip) # (2, user) # cs)"
    using match_source [OF assms(2-4)] by (intro group_word_match [OF assms(1)]) simp_all
  then show ?thesis
    unfolding seqs.simps(3) re_match.simps(5) by simp
qed

lemma match_method:
  assumes "\<And>cs. re_match t u cs k = Some (f cs)"
  shows "re_match (Seq (Lit ''Failed '') (Seq (Group 1 (Alt (Lit ''password'') (Lit ''publickey'')))
      (Seq (Lit '' for '') (Seq (Alt (Lit ''invalid user '') Empty) t))))
    (''Failed '' @ ''password for invalid user '' @ u) [] k = Some (f [(1, ''password'')])"
  by (simp add: assms)

lemma FindSubmatch_here: "re_match r s [] (\<lambda>_ cs. Some cs) = Some cs \<Longrightarrow> FindSubmatch r s = Some cs"
  by (subst FindSubmatch.simps) simp

lemma match_failed:
  assumes "failed_form pre user ip port rest"
  shows "FindSubmatch reSSHFail (failed_line pre user ip port rest) =
    Some [(4, port), (3, ip), (2, user), (1, ''password'')]"
proof -
  note form = assms [unfolded failed_form_def]
  have skip: "FindSubmatch reSSHFail (pre @ ''Failed '' @ s) = FindSubmatch reSSHFail (''Failed '' @ s)" for s
    unfolding reSSHFail_def seqs.simps using form by (intro FindSubmatch_skip) (simp add: list_all_iff)
  have "re_match reSSHFail
      (''Failed '' @ ''password for invalid user '' @ user @ '' from '' @ ip @ '' port '' @ port @ rest) [] (\<lambda>_ cs. Some cs) =
    Some [(4, port), (3, ip), (2, user), (1, ''password'')]"
    unfolding reSSHFail_def seqs.simps
    using form by (intro match_method match_user [unfolded seqs.simps]) simp_all
  then show ?thesis
    unfolding failed_line_def skip by (rule FindSubmatch_here)
qed

lemma hostOnly_no_port: "colon \<notin> set s \<Longrightarrow> hostOnly s = s"
  by (simp add: hostOnly_def split_host_def last_index_byte_def last_index_from_None [THEN iffD2])

lemma parseLine_failed:
  assumes "failed_form pre user ip port rest"
  shows "parseLine ipc host now (failed_line pre user ip port rest) =
    Some (with_fields [(''user'', user), (''src_ip'', ip), (''auth'', ''fail'')]
      (authEvent host now ''SSH auth failure'' Medium (failed_line pre user ip port rest)))"
  using assms by (simp add: parseLine_def match_failed group_def hostOnly_no_port failed_form_def)

section \<open>Attempts\<close>

text \<open>A failed login: its time and the parts of its line.\<close>

record attempt =
  at_time :: int
  at_pre :: string
  at_user :: string
  at_ip :: string
  at_port :: string
  at_rest :: string

definition attempt_line :: "attempt \<Rightarrow> string" where
  "attempt_line a = failed_line (at_pre a) (at_user a) (at_ip a) (at_port a) (at_rest a)"

definition attempt_form :: "attempt \<Rightarrow> bool" where
  "attempt_form a \<longleftrightarrow> failed_form (at_pre a) (at_user a) (at_ip a) (at_port a) (at_rest a)"

definition attempt_event :: "ip_ctx option \<Rightarrow> string \<Rightarrow> attempt \<Rightarrow> event" where
  "attempt_event ipc host a = the (parseLine ipc host (at_time a) (attempt_line a))"

lemma attempt_event_fields:
  assumes "attempt_form a"
  shows "e_time (attempt_event ipc host a) = at_time a" and "field_of (attempt_event ipc host a) ''src_ip'' = at_ip a"
    and "failed_login (attempt_event ipc host a)"
  using assms
  by (simp_all add: attempt_event_def attempt_line_def attempt_form_def parseLine_failed authEvent_def failed_login_def
      failed_form_def word_text_def)

lemma logins_attempts:
  "list_all attempt_form as \<Longrightarrow> logins (map (attempt_event ipc host) as) = map (\<lambda>a. (at_ip a, at_time a)) as"
  by (induction as) (simp_all add: logins_def attempt_event_fields)

lemma window_count_distinct:
  assumes "distinct (map fst hs)"
  shows "window_count w hs key now \<le> 1"
proof -
  have "length (filter (\<lambda>(k, t). k = key \<and> t > now - w) hs) \<le> length (filter ((=) key) (map fst hs))"
    by (induction hs) auto
  also have "\<dots> = card (set (filter ((=) key) (map fst hs)))"
    using assms by (intro distinct_card [symmetric] distinct_filter)
  also have "\<dots> \<le> card {key}"
    by (intro card_mono) auto
  finally show ?thesis by (simp add: window_count_def)
qed

section \<open>Properties\<close>

lemma parseLine_patterns:
  "parseLine ipc host now line \<noteq> None \<longleftrightarrow>
    (\<exists>r \<in> {reSSHFail, reSSHOK, reSudo, reNewUser, reSu}. FindSubmatch r line \<noteq> None)"
  by (auto simp: parseLine_def Let_def split: option.split)

text \<open>
  From a failed login of an unknown user the parser takes the first source in
  the line, whatever follows: a user name that itself reads as a name, \<^verbatim>\<open>from\<close>, an address,
  \<^verbatim>\<open>port\<close> and a number decides the user, and the address the failure is counted for.
\<close>

theorem failed_login_source:
  assumes "failed_form pre user ip port rest"
  shows "parseLine ipc host now (failed_line pre user ip port rest) =
    Some (with_fields [(''user'', user), (''src_ip'', ip), (''auth'', ''fail'')]
      (empty_event\<lparr>e_time := now, e_severity := Medium, e_category := CatAuth, e_title := ''SSH auth failure'',
         e_message := trimPrefix (failed_line pre user ip port rest), e_host := host\<rparr>))"
  using parseLine_failed [OF assms] by (simp add: authEvent_def)

definition forged_attempt :: "attempt" where
  "forged_attempt = \<lparr>at_time = 5, at_pre = ''Feb 29 13:02:11 host sshd[99]: '', at_user = ''eve'', at_ip = ''10.0.0.1'',
     at_port = ''22'', at_rest = '' from 203.0.113.9 port 4444 ssh2''\<rparr>"

lemma forged_attempt_form: "attempt_form forged_attempt" "attempt_form (forged_attempt\<lparr>at_time := 6, at_ip := ''10.0.0.2''\<rparr>)"
  by code_simp+

theorem failed_login_source_witness:
  "map_option (\<lambda>ev. field_of ev ''src_ip'')
     (parseLine None [] 5 (''Feb 29 13:02:11 host sshd[99]: Failed password for invalid user eve from 10.0.0.1 port 22''
        @ '' from 203.0.113.9 port 4444 ssh2'')) = Some ''10.0.0.1''"
  using failed_login_source [OF forged_attempt_form(1) [unfolded attempt_form_def], of None "[]" 5]
  by (simp add: failed_line_def forged_attempt_def)

text \<open>
  C27 (safety). Brute force goes unnoticed if the attacker puts another address in the user name
  of every attempt: for any number of failed logins in any time, with levels of at least two
  failures, the engine returns no more than the events themselves.
\<close>

theorem forged_sources_evade:
  assumes "NewEngine compile builtin cfg = Some e" and "0 < cf_brute_force_window cfg"
    and "2 \<le> cf_brute_fire_count cfg" and "2 \<le> cf_brute_force_high_cnt cfg"
    and "list_all attempt_form as" and "sorted (map at_time as)" and "distinct (map at_ip as)" and "j < length as"
  shows "set (fst (Evaluate_run e (map (attempt_event ipc host) as)) ! j) \<subseteq>
    {ev. \<exists>e'. ev = handled e' (attempt_event ipc host (as ! j))}"
proof -
  let ?evs = "map (attempt_event ipc host) as"
  have "en_brute e = new_threshold (cf_brute_force_window cfg) (brute_levels cfg)"
    using NewEngine_fields(2) [OF assms(1)] .
  then have k: "keeps (en_brute e) (logins [])" "th_levels (en_brute e) = brute_levels cfg"
    "th_window (en_brute e) = cf_brute_force_window cfg"
    using keeps_new by (simp_all add: logins_def new_threshold_def)
  have "map e_time ?evs = map at_time as"
    using assms(5) by (simp add: list_all_iff attempt_event_fields)
  then have "sorted (map e_time ([] @ ?evs))"
    using assms(6) by (simp only: append_Nil)
  moreover have "j < length ?evs" using assms(8) by simp
  ultimately have "\<exists>found rest. fst (Evaluate_run e ?evs) ! j = found @ rest \<and>
      (rest = [] \<or> (\<exists>e'. rest = [handled e' (?evs ! j)])) \<and>
      map alert_of found = login_alert cfg ([] @ take (Suc j) ?evs) (?evs ! j)"
    by (rule Evaluate_run_alerts [OF k assms(2)])
  then obtain found rest where r: "fst (Evaluate_run e ?evs) ! j = found @ rest"
      "rest = [] \<or> (\<exists>e'. rest = [handled e' (?evs ! j)])"
      "map alert_of found = login_alert cfg (take (Suc j) ?evs) (?evs ! j)"
    unfolding append_Nil by blast
  have "list_all attempt_form (take (Suc j) as)"
    using assms(5) by (auto simp: list_all_iff dest: in_set_takeD)
  then have "map fst (logins (take (Suc j) ?evs)) = map at_ip (take (Suc j) as)"
    by (simp add: take_map logins_attempts comp_def)
  moreover have "distinct (map at_ip (take (Suc j) as))"
    using assms(7) by (metis distinct_take take_map)
  ultimately have "distinct (map fst (logins (take (Suc j) ?evs)))"
    by (simp only:)
  then have one: "window_count w (logins (take (Suc j) ?evs)) key now \<le> 1" for w key now
    by (rule window_count_distinct)
  have levels: "2 \<le> tl_count l" if "l \<in> set (brute_levels cfg)" for l
    using that assms(3,4) by (auto simp: brute_levels_def)
  have "find (\<lambda>l. int (window_count w (logins (take (Suc j) ?evs)) key now) = tl_count l) (brute_levels cfg) = None"
    for w key now
  proof -
    have "int (window_count w (logins (take (Suc j) ?evs)) key now) \<noteq> tl_count l" if "l \<in> set (brute_levels cfg)" for l
      using one [of w key now] levels [OF that] by linarith
    then show ?thesis by (auto simp: find_None_iff)
  qed
  then have "login_alert cfg (take (Suc j) ?evs) (?evs ! j) = []"
    unfolding login_alert_def by (simp only: option.case if_cancel)
  then have "found = []" using r(3) by simp
  with r(1,2) assms(8) show ?thesis by auto
qed

theorem forged_sources_evade_witness:
  "\<exists>e. NewEngine (\<lambda>_. None) [] two_strikes = Some e \<and>
    set (fst (Evaluate_run e (map (attempt_event None [])
        [forged_attempt, forged_attempt\<lparr>at_time := 6, at_ip := ''10.0.0.2''\<rparr>])) ! 1) \<subseteq>
      {ev. \<exists>e'. ev = handled e' (attempt_event None [] (forged_attempt\<lparr>at_time := 6, at_ip := ''10.0.0.2''\<rparr>))}"
proof -
  obtain e where e: "NewEngine (\<lambda>_. None) [] two_strikes = Some e"
    using NewEngine_None [of "\<lambda>_. None" "[]" two_strikes] by (auto simp: two_strikes_def zero_config_def)
  then show ?thesis
    using forged_sources_evade [OF e, of "[forged_attempt, forged_attempt\<lparr>at_time := 6, at_ip := ''10.0.0.2''\<rparr>]" 1 None "[]"]
      forged_attempt_form
    by (simp add: two_strikes_def forged_attempt_def)
qed

end
