(* ===== verification/Auth_Patterns.thy ===== *)
theory Auth_Patterns
  imports Auth_Monitor Go_Syntax
begin

text \<open>
  The five patterns of \<^verbatim>\<open>internal/monitors/auth_linux.go\<close> as texts. \<open>Auth_Monitor\<close> has them as
  expressions with captures; here the texts are read by \<open>Go_Syntax\<close>, and the two agree on what
  matches.
\<close>

section \<open>The texts\<close>

definition auth_pattern_texts :: "(string \<times> re) list" where
  "auth_pattern_texts =
     [(''Failed (password|publickey) for (?:invalid user )?('' @ backslash @ ''S+) from ('' @ backslash @
         ''S+) port ('' @ backslash @ ''d+)'', reSSHFail),
      (''Accepted (password|publickey|keyboard-interactive/pam) for ('' @ backslash @ ''S+) from ('' @ backslash @
         ''S+) port ('' @ backslash @ ''d+)'', reSSHOK),
      (''sudo:'' @ backslash @ ''s+('' @ backslash @ ''S+)'' @ backslash @ ''s+:.*COMMAND=(.*)$'', reSudo),
      (''(?:useradd|adduser)'' @ backslash @ ''['' @ backslash @ ''d+'' @ backslash @ '']: new user: name=('' @
         backslash @ ''S+),'', reNewUser),
      (''su'' @ backslash @ ''['' @ backslash @ ''d+'' @ backslash @ '']: Successful su for ('' @ backslash @
         ''S+) by ('' @ backslash @ ''S+)'', reSu)]"

definition text_matches :: "string \<Rightarrow> string \<Rightarrow> bool" where
  "text_matches p s = (case parse_rx p of None \<Rightarrow> False | Some r \<Rightarrow> rx_matches r s)"

section \<open>Expressions with captures as expressions without\<close>

fun cls_rx :: "cls \<Rightarrow> rx" where
  "cls_rx Not_Space = Cls False True [(9, 10), (12, 13), (32, 32)]"
| "cls_rx Space = Cls False False [(9, 10), (12, 13), (32, 32)]"
| "cls_rx Digit_Char = Cls False False [(48, 57)]"
| "cls_rx No_Newline = Cls False True [(10, 10)]"

primrec lit_rx :: "string \<Rightarrow> rx" where
  "lit_rx [] = Eps"
| "lit_rx (c # s) = Cat (Cls False False [(of_char c, of_char c)]) (lit_rx s)"

primrec to_rx :: "re \<Rightarrow> rx" where
  "to_rx Empty = Eps"
| "to_rx (Lit w) = lit_rx w"
| "to_rx (One c) = cls_rx c"
| "to_rx (Star c) = Rep 0 None (cls_rx c)"
| "to_rx (Seq a b) = Cat (to_rx a) (to_rx b)"
| "to_rx (Alt a b) = Or (to_rx a) (to_rx b)"
| "to_rx (Group n a) = to_rx a"
| "to_rx End_Of_Text = End_Text"

text \<open>
  A normal form: sequences are right-nested and end in the empty expression, a repetition of at
  least one is one followed by any number, and an optional expression is a choice.
\<close>

primrec app_rx :: "rx \<Rightarrow> rx \<Rightarrow> rx" where
  "app_rx Eps c = c"
| "app_rx (Cls ci neg rs) c = Cat (Cls ci neg rs) c"
| "app_rx (Cat a b) c = Cat a (app_rx b c)"
| "app_rx (Or a b) c = Cat (Or a b) c"
| "app_rx (Rep m n a) c = Cat (Rep m n a) c"
| "app_rx Begin_Text c = Cat Begin_Text c"
| "app_rx End_Text c = Cat End_Text c"
| "app_rx Word_Boundary c = Cat Word_Boundary c"

primrec norm_rx :: "rx \<Rightarrow> rx" where
  "norm_rx Eps = Eps"
| "norm_rx (Cls ci neg rs) = Cat (Cls ci neg rs) Eps"
| "norm_rx (Cat a b) = app_rx (norm_rx a) (norm_rx b)"
| "norm_rx (Or a b) = Cat (Or (norm_rx a) (norm_rx b)) Eps"
| "norm_rx (Rep m n a) =
     (if m = 1 \<and> n = None then app_rx (norm_rx a) (Cat (Rep 0 None (norm_rx a)) Eps)
      else if m = 0 \<and> n = Some 1 then Cat (Or (norm_rx a) Eps) Eps
      else Cat (Rep m n (norm_rx a)) Eps)"
| "norm_rx Begin_Text = Cat Begin_Text Eps"
| "norm_rx End_Text = Cat End_Text Eps"
| "norm_rx Word_Boundary = Cat Word_Boundary Eps"

section \<open>What the normal form matches\<close>

lemma matching_inside: "(i, j) \<in> matching r w \<Longrightarrow> i \<le> j \<and> j \<le> length w"
  using matching_onward [of r w] by (auto simp: onward_def)

lemma Eps_comp: "{(i, i) | i. i \<le> length w} O matching r w = matching r w"
  "matching r w O {(i, i) | i. i \<le> length w} = matching r w"
  by (auto dest: matching_inside intro: le_trans)

lemma Cat_Eps: "matching (Cat r Eps) w = matching r w"
  by (simp add: Eps_comp)

lemma matching_app: "matching (app_rx a b) w = matching a w O matching b w"
  by (induction a) (simp_all add: Eps_comp O_assoc)

lemma matching_plus: "matching (Rep 1 None a) w = matching a w O matching (Rep 0 None a) w"
proof (rule set_eqI, clarify)
  fix i j
  show "(i, j) \<in> matching (Rep 1 None a) w \<longleftrightarrow> (i, j) \<in> matching a w O matching (Rep 0 None a) w"
  proof
    assume "(i, j) \<in> matching (Rep 1 None a) w"
    then obtain k where "(i, j) \<in> matching a w ^^ Suc k"
      by (auto simp del: relpow.simps) (metis Suc_le_D)
    then obtain p where "(i, p) \<in> matching a w" "(p, j) \<in> matching a w ^^ k"
      by (auto simp del: relpow.simps elim: relpow_Suc_E2)
    then show "(i, j) \<in> matching a w O matching (Rep 0 None a) w"
      using matching_inside [of i p a w] by auto
  next
    assume "(i, j) \<in> matching a w O matching (Rep 0 None a) w"
    then obtain p k where p: "(i, p) \<in> matching a w" "(p, j) \<in> matching a w ^^ k" by auto
    then have "(i, j) \<in> matching a w ^^ Suc k" by (rule relpow_Suc_I2)
    moreover have "i \<le> length w" using matching_inside [OF p(1)] by simp
    ultimately show "(i, j) \<in> matching (Rep 1 None a) w"
      by (auto simp del: relpow.simps intro: exI [of _ "Suc k"])
  qed
qed

lemma matching_optional: "matching (Rep 0 (Some 1) a) w = matching a w \<union> {(i, i) | i. i \<le> length w}"
proof (rule set_eqI, clarify)
  fix i j
  have "(\<exists>k \<le> 1. (i, j) \<in> matching a w ^^ k) \<longleftrightarrow> i = j \<or> (i, j) \<in> matching a w"
    by (auto simp: le_Suc_eq)
  then show "(i, j) \<in> matching (Rep 0 (Some 1) a) w \<longleftrightarrow> (i, j) \<in> matching a w \<union> {(i, i) | i. i \<le> length w}"
    by (auto dest: matching_inside)
qed

lemma matching_norm: "matching (norm_rx r) w = matching r w"
proof (induction r)
  case (Rep m n a)
  have rep: "matching (Rep k u (norm_rx a)) w = matching (Rep k u a) w" for k u by (simp add: Rep)
  show ?case
  proof (cases "m = 1 \<and> n = None")
    case True
    then show ?thesis using matching_plus [of a w] rep [of 0 None] by (simp add: matching_app Rep Eps_comp del: matching.simps(5))
  next
    case False
    show ?thesis
    proof (cases "m = 0 \<and> n = Some 1")
      case True
      then show ?thesis using matching_optional [of a w] Eps_comp(2) [of "Or a Eps" w] Rep by (simp del: matching.simps(5))
    next
      case False
      with \<open>\<not> (m = 1 \<and> n = None)\<close> show ?thesis using rep [of m n] Eps_comp(2) [of "Rep m n a" w] by (auto simp del: matching.simps(5))
    qed
  qed
qed (simp_all only: norm_rx.simps Cat_Eps matching_app, simp_all)


text \<open>So expressions with the same normal form match in the same texts.\<close>

lemma norm_eq_matches: "norm_rx p = norm_rx q \<Longrightarrow> rx_matches p w = rx_matches q w"
  unfolding rx_matches_iff by (metis matching_norm)

section \<open>The two semantics agree\<close>

lemma cls_rx_char: "matching (cls_rx c) w = {(i, Suc i) | i. i < length w \<and> in_cls c (w ! i)}"
proof -
  have "cls_match False neg rs x = (in_ranges rs (int (of_char x)) \<noteq> neg)" for neg rs x
    by (simp add: cls_match_def of_nat_of_char)
  moreover have "(9 \<le> n \<and> n \<le> 10 \<or> 12 \<le> n \<and> n \<le> 13 \<or> n = 32) = (n \<in> {9, 10, 12, 13, 32})" for n :: nat
    by auto
  ultimately show ?thesis
    by (cases c) (auto simp: in_ranges_def)
qed

lemma lit_rx_matching: "(i, j) \<in> matching (lit_rx u) w \<longleftrightarrow> i \<le> length w \<and> j = i + length u \<and> go_has_prefix (drop i w) u"
proof (induction u arbitrary: i)
  case (Cons c u)
  show ?case
  proof (cases "i < length w")
    case True
    then have "drop i w = w ! i # drop (Suc i) w" by (simp add: Cons_nth_drop_Suc)
    then show ?thesis using True Cons.IH [of "Suc i"] by (auto simp: go_has_prefix_iff cls_match_def in_ranges_def)
  qed (auto simp: go_has_prefix_iff)
qed (auto simp: go_has_prefix_iff)

text \<open>Where a match of an expression with captures ends, as a position.\<close>

lemma star_matching:
  "i \<le> length w \<Longrightarrow> spans (Star c) (drop i w) t \<longleftrightarrow> (\<exists>j. (i, j) \<in> matching (Rep 0 None (cls_rx c)) w \<and> t = drop j w)"
proof
  have up: "spans (Star c) s t \<Longrightarrow> s = drop i w \<Longrightarrow> i \<le> length w \<Longrightarrow>
      \<exists>j k. (i, j) \<in> matching (cls_rx c) w ^^ k \<and> t = drop j w" for s t i
  proof (induction "Star c" s t arbitrary: i rule: spans.induct)
    case (stop s)
    then show ?case by (intro exI [of _ i] exI [of _ 0]) simp
  next
    case (more x s t)
    then have i: "i < length w" "w ! i = x" "s = drop (Suc i) w"
      by (metis drop_all list.discI not_le, metis list.sel(1) nth_via_drop, metis list.sel(3) tl_drop drop_Suc)
    with more(3) [of "Suc i"] obtain j k where "(Suc i, j) \<in> matching (cls_rx c) w ^^ k" "t = drop j w" by auto
    moreover have "(i, Suc i) \<in> matching (cls_rx c) w" using i more by (simp add: cls_rx_char)
    ultimately show ?case by (blast intro: relpow_Suc_I2)
  qed
  assume "i \<le> length w" "spans (Star c) (drop i w) t"
  with up [of "drop i w" t i] show "\<exists>j. (i, j) \<in> matching (Rep 0 None (cls_rx c)) w \<and> t = drop j w" by auto
next
  have down: "(i, j) \<in> matching (cls_rx c) w ^^ k \<Longrightarrow> spans (Star c) (drop i w) (drop j w)" for i j k
  proof (induction k arbitrary: i)
    case 0
    then show ?case by (simp add: spans.stop)
  next
    case (Suc k)
    then obtain p where "(i, p) \<in> matching (cls_rx c) w" "(p, j) \<in> matching (cls_rx c) w ^^ k"
      by (blast elim: relpow_Suc_E2)
    with Suc.IH have "i < length w" "in_cls c (w ! i)" "spans (Star c) (drop (Suc i) w) (drop j w)"
      by (auto simp: cls_rx_char)
    then show ?case using spans.more by (metis Cons_nth_drop_Suc)
  qed
  assume "\<exists>j. (i, j) \<in> matching (Rep 0 None (cls_rx c)) w \<and> t = drop j w"
  with down show "spans (Star c) (drop i w) t" by auto
qed

lemma spans_steps:
  "spans Empty s t \<longleftrightarrow> t = s"
  "spans (Lit u) s t \<longleftrightarrow> go_has_prefix s u \<and> t = drop (length u) s"
  "spans (Seq a b) s t \<longleftrightarrow> (\<exists>v. spans a s v \<and> spans b v t)"
  "spans (Alt a b) s t \<longleftrightarrow> spans a s t \<or> spans b s t"
  "spans (Group n a) s t \<longleftrightarrow> spans a s t"
  "spans End_Of_Text s t \<longleftrightarrow> s = [] \<and> t = []"
proof -
  have "spans (Lit u) s (drop (length u) s)" if "go_has_prefix s u"
    using that spans.lit [of u "drop (length u) s"] by (metis append_take_drop_id go_has_prefix_iff)
  then show "spans (Lit u) s t \<longleftrightarrow> go_has_prefix s u \<and> t = drop (length u) s"
    by (auto simp: go_has_prefix_iff elim!: spans_cases)
qed (auto elim: spans_cases intro: spans.intros)

lemma spans_One: "spans (One c) (drop i w) t \<longleftrightarrow> i < length w \<and> in_cls c (w ! i) \<and> t = drop (Suc i) w"
proof (cases "i < length w")
  case True
  then have "drop i w = w ! i # drop (Suc i) w" by (simp add: Cons_nth_drop_Suc)
  then show ?thesis using True by (auto intro: spans.one elim: spans_cases)
qed (auto elim: spans_cases)

lemma spans_matching:
  "i \<le> length w \<Longrightarrow> spans r (drop i w) t \<longleftrightarrow> (\<exists>j. (i, j) \<in> matching (to_rx r) w \<and> t = drop j w)"
proof (induction r arbitrary: i t)
  case (Lit u)
  then show ?case by (simp add: spans_steps lit_rx_matching add.commute [of _ i])
next
  case (One c)
  show ?case by (auto simp: spans_One cls_rx_char)
next
  case (Star c)
  then show ?case by (simp only: to_rx.simps star_matching)
next
  case (Seq a b)
  have "(\<exists>v. spans a (drop i w) v \<and> spans b v t) \<longleftrightarrow> (\<exists>p. (i, p) \<in> matching (to_rx a) w \<and> spans b (drop p w) t)"
    unfolding Seq.IH(1) [OF Seq.prems] by blast
  also have "\<dots> \<longleftrightarrow> (\<exists>p j. (i, p) \<in> matching (to_rx a) w \<and> (p, j) \<in> matching (to_rx b) w \<and> t = drop j w)"
  proof -
    have "spans b (drop p w) t \<longleftrightarrow> (\<exists>j. (p, j) \<in> matching (to_rx b) w \<and> t = drop j w)"
      if "(i, p) \<in> matching (to_rx a) w" for p
      using Seq.IH(2) matching_inside [OF that] by simp
    then show ?thesis by (simp cong: conj_cong)
  qed
  finally show ?case by (auto simp: spans_steps)
qed (auto simp: spans_steps)

lemma FindSubmatch_matches: "FindSubmatch r w \<noteq> None \<longleftrightarrow> rx_matches (to_rx r) w"
proof -
  have "(\<exists>u v t. w = u @ v \<and> spans r v t) \<longleftrightarrow> (\<exists>i \<le> length w. \<exists>t. spans r (drop i w) t)"
  proof
    assume "\<exists>u v t. w = u @ v \<and> spans r v t"
    then obtain u v t where "w = u @ v" "spans r v t" by blast
    then show "\<exists>i \<le> length w. \<exists>t. spans r (drop i w) t" by (intro exI [of _ "length u"]) auto
  next
    assume "\<exists>i \<le> length w. \<exists>t. spans r (drop i w) t"
    then obtain i t where "spans r (drop i w) t" by blast
    then show "\<exists>u v t. w = u @ v \<and> spans r v t"
      by (intro exI [of _ "take i w"] exI [of _ "drop i w"] exI [of _ t]) simp
  qed
  then have "FindSubmatch r w \<noteq> None \<longleftrightarrow> (\<exists>i \<le> length w. \<exists>t. spans r (drop i w) t)"
    unfolding FindSubmatch_iff .
  also have "\<dots> \<longleftrightarrow> (\<exists>i \<le> length w. \<exists>j. (i, j) \<in> matching (to_rx r) w)"
  proof -
    have "(\<exists>t. spans r (drop i w) t) \<longleftrightarrow> (\<exists>j. (i, j) \<in> matching (to_rx r) w)" if "i \<le> length w" for i
      using spans_matching [OF that] by blast
    then show ?thesis by (simp cong: conj_cong)
  qed
  also have "\<dots> \<longleftrightarrow> matching (to_rx r) w \<noteq> {}"
  proof -
    have "i \<le> length w" if "(i, j) \<in> matching (to_rx r) w" for i j
      using matching_inside [OF that] by simp
    then show ?thesis by auto
  qed
  finally show ?thesis by (simp add: rx_matches_iff)
qed

section \<open>The patterns read as intended\<close>

definition same_pattern :: "string \<times> re \<Rightarrow> bool" where
  "same_pattern x = (case parse_rx (fst x) of None \<Rightarrow> False | Some p \<Rightarrow> norm_rx p = norm_rx (to_rx (snd x)))"

lemma auth_patterns_same: "list_all same_pattern auth_pattern_texts"
  by code_simp

lemma same_pattern_matches:
  assumes "same_pattern (p, r)"
  shows "text_matches p w \<longleftrightarrow> FindSubmatch r w \<noteq> None"
proof -
  obtain q where "parse_rx p = Some q" "norm_rx q = norm_rx (to_rx r)"
    using assms by (auto simp: same_pattern_def split: option.splits)
  then show ?thesis
    using norm_eq_matches [of q "to_rx r" w] by (simp only: text_matches_def option.case FindSubmatch_matches)
qed

section \<open>Properties\<close>

text \<open>
  C34 (equivalence). A line becomes an event exactly if one of the five patterns of the source,
  its text read by the model of the syntax of \<^verbatim>\<open>regexp\<close>, matches somewhere in it: the
  expressions with captures that the parser is modelled with are those patterns, and the search
  through them neither misses a match nor invents one.
\<close>

theorem parseLine_reads_patterns:
  "list_all (\<lambda>(p, _). parse_rx p \<noteq> None) auth_pattern_texts \<and>
   (parseLine ipc host now line \<noteq> None \<longleftrightarrow> list_ex (\<lambda>(p, _). text_matches p line) auth_pattern_texts)"
proof -
  have same: "same_pattern (p, r)" if "(p, r) \<in> set auth_pattern_texts" for p r
    using that auth_patterns_same by (auto simp: list_all_iff)
  have "snd ` set auth_pattern_texts = {reSSHFail, reSSHOK, reSudo, reNewUser, reSu}"
    by (simp add: auth_pattern_texts_def)
  note snds = this
  have "parseLine ipc host now line \<noteq> None \<longleftrightarrow> (\<exists>x \<in> set auth_pattern_texts. FindSubmatch (snd x) line \<noteq> None)"
    unfolding parseLine_patterns snds [symmetric] by simp
  also have "\<dots> \<longleftrightarrow> (\<exists>x \<in> set auth_pattern_texts. text_matches (fst x) line)"
    using same_pattern_matches [OF same] by (metis prod.collapse)
  finally show ?thesis
    using auth_patterns_same by (force simp: list_all_iff list_ex_iff same_pattern_def split: option.splits)
qed

end
