(* ===== verification/Log_Tail.thy ===== *)
theory Log_Tail
  imports Auth_Monitor
begin

text \<open>
  How \<^verbatim>\<open>internal/monitors/auth_linux.go\<close> gets its lines: the choice of a log, and following a
  file over rotations. A pass of \<open>tailFile\<close> is a function of what the disk holds at that time:
  the file that the path names, the contents of files (which are named by numbers, in place of
  device and inode), and what opening the path finds at each try after a rotation.
\<close>

section \<open>Scanning lines\<close>

text \<open>
  \<^verbatim>\<open>bufio.Scanner\<close> over what is left of a file, with a buffer of 64 KiB that does not grow: the
  lines it delivers, and how many bytes it reads from the file. It stops at a line that fills
  the buffer. What is behind the last newline is delivered as a line.
\<close>

definition line_feed :: char where "line_feed = char_of (10 :: nat)"
definition carriage_return :: char where "carriage_return = char_of (13 :: nat)"
definition buffer_size :: nat where "buffer_size = 64 * 1024"

definition dropCR :: "string \<Rightarrow> string" where
  "dropCR l = (if l \<noteq> [] \<and> last l = carriage_return then butlast l else l)"

function scan_lines :: "string \<Rightarrow> string list \<times> nat" where
  "scan_lines s =
     (if s = [] then ([], 0)
      else
        let l = takeWhile (\<lambda>c. c \<noteq> line_feed) s; n = length l in
        if buffer_size \<le> n then ([], buffer_size)
        else if n = length s then ([dropCR l], n)
        else case scan_lines (drop (Suc n) s) of (ls, k) \<Rightarrow> (dropCR l # ls, Suc n + k))"
  by pat_completeness auto
termination
  by (relation "measure length") auto

declare scan_lines.simps [simp del]

section \<open>Following a file\<close>

record disk =
  dk_stat_ok :: bool
  dk_path :: "nat option"
  dk_reopen :: "nat option list"
  dk_content :: "nat \<Rightarrow> string"

record log_tail =
  lt_file :: nat
  lt_offset :: nat

text \<open>Twenty tries to open the path; \<open>None\<close> if none of them finds a file.\<close>

fun first_open :: "nat option list \<Rightarrow> nat option" where
  "first_open [] = None"
| "first_open (None # tries) = first_open tries"
| "first_open (Some f # tries) = Some f"

definition reopenRotated :: "nat option list \<Rightarrow> nat option" where
  "reopenRotated tries = first_open (take 20 tries)"

definition tail_pass :: "disk \<Rightarrow> log_tail \<Rightarrow> (string list \<times> log_tail) option" where
  "tail_pass d t =
     (if \<not> dk_stat_ok d then None
      else
        case (if dk_path d \<noteq> Some (lt_file t)
              then map_option (\<lambda>f. \<lparr>lt_file = f, lt_offset = 0\<rparr>) (reopenRotated (dk_reopen d))
              else Some t) of
          None \<Rightarrow> None
        | Some t \<Rightarrow>
            (case scan_lines (drop (lt_offset t) (dk_content d (lt_file t))) of
               (ls, k) \<Rightarrow> Some (ls, t\<lparr>lt_offset := lt_offset t + k\<rparr>)))"

text \<open>The lines of each pass, and the state behind the last one or \<open>None\<close> after an error.\<close>

fun tail_run :: "disk list \<Rightarrow> log_tail \<Rightarrow> string list list \<times> log_tail option" where
  "tail_run [] t = ([], Some t)"
| "tail_run (d # ds) t =
     (case tail_pass d t of
        None \<Rightarrow> ([], None)
      | Some (ls, t) \<Rightarrow> (case tail_run ds t of (rest, r) \<Rightarrow> (ls # rest, r)))"

definition open_tail :: "disk \<Rightarrow> log_tail option" where
  "open_tail d = map_option (\<lambda>f. \<lparr>lt_file = f, lt_offset = length (dk_content d f)\<rparr>) (dk_path d)"

definition sends :: "ip_ctx option \<Rightarrow> string \<Rightarrow> (nat \<Rightarrow> int) \<Rightarrow> string list \<Rightarrow> event list" where
  "sends ipc host clock ls = List.map_filter (\<lambda>(i, l). parseLine ipc host (clock i) l) (enumerate 0 ls)"

definition tailFile :: "ip_ctx option \<Rightarrow> string \<Rightarrow> (nat \<Rightarrow> int) \<Rightarrow> disk \<Rightarrow> disk list \<Rightarrow> event list option" where
  "tailFile ipc host clock d ds =
     map_option (\<lambda>t. sends ipc host clock (concat (fst (tail_run ds t)))) (open_tail d)"

definition tailJournal :: "ip_ctx option \<Rightarrow> string \<Rightarrow> (nat \<Rightarrow> int) \<Rightarrow> string \<Rightarrow> event list" where
  "tailJournal ipc host clock out = sends ipc host clock (fst (scan_lines out))"

datatype auth_source = Tail_File string | Tail_Journal | No_Log

definition choose_log :: "(string \<Rightarrow> bool option) \<Rightarrow> (string \<Rightarrow> bool) \<Rightarrow> bool \<Rightarrow> auth_source" where
  "choose_log stat_dir canRead journalctl =
     (case filter (\<lambda>p. stat_dir p = Some False \<and> canRead p) [''/var/log/auth.log'', ''/var/log/secure''] of
        p # _ \<Rightarrow> Tail_File p
      | [] \<Rightarrow> if journalctl then Tail_Journal else No_Log)"

text \<open>What \<open>Start\<close> announces, and what it sends when there is no log to read.\<close>

definition auth_caps :: "auth_source \<Rightarrow> string list" where
  "auth_caps src =
     (case src of
        Tail_File p \<Rightarrow> [''tailing '' @ p]
      | Tail_Journal \<Rightarrow> [''journalctl -f (auth)'']
      | No_Log \<Rightarrow> [])"

definition auth_note :: "int \<Rightarrow> string \<Rightarrow> auth_source \<Rightarrow> event list" where
  "auth_note now host src =
     (if src = No_Log
      then [DegradedNote now host ''no readable auth log (tried /var/log/auth.log, /var/log/secure, journalctl)'']
      else [])"

section \<open>Whole lines\<close>

definition as_lines :: "string list \<Rightarrow> string" where
  "as_lines ls = concat (map (\<lambda>l. l @ [line_feed]) ls)"

definition log_line :: "string \<Rightarrow> bool" where
  "log_line l \<longleftrightarrow> line_feed \<notin> set l \<and> length l < buffer_size"

lemma as_lines_simps [simp]:
  "as_lines [] = []"
  "as_lines (l # ls) = l @ line_feed # as_lines ls"
  by (simp_all add: as_lines_def)

lemma takeWhile_line: "line_feed \<notin> set l \<Longrightarrow> takeWhile (\<lambda>c. c \<noteq> line_feed) (l @ line_feed # s) = l"
  by (induction l) auto

lemma takeWhile_end: "line_feed \<notin> set l \<Longrightarrow> takeWhile (\<lambda>c. c \<noteq> line_feed) l = l"
  by (induction l) auto

lemma scan_line: "log_line l \<Longrightarrow> scan_lines (l @ line_feed # s) =
    (dropCR l # fst (scan_lines s), Suc (length l) + snd (scan_lines s))"
  by (subst scan_lines.simps) (simp add: takeWhile_line log_line_def Let_def split: prod.split)

lemma scan_as_lines: "list_all log_line ls \<Longrightarrow> scan_lines (as_lines ls) = (map dropCR ls, length (as_lines ls))"
  by (induction ls) (simp_all add: scan_line, simp add: scan_lines.simps)

lemma scan_rest: "log_line l \<Longrightarrow> l \<noteq> [] \<Longrightarrow> scan_lines l = ([dropCR l], length l)"
  by (subst scan_lines.simps) (simp add: takeWhile_end log_line_def Let_def)

text \<open>A file that only grows, by whole lines.\<close>

fun grows :: "nat \<Rightarrow> string \<Rightarrow> string list list \<Rightarrow> disk list \<Rightarrow> bool" where
  "grows f c [] [] = True"
| "grows f c (b # bs) (d # ds) =
     (dk_stat_ok d \<and> dk_path d = Some f \<and> dk_content d f = c @ as_lines b \<and> list_all log_line b \<and>
      grows f (c @ as_lines b) bs ds)"
| "grows f c _ _ = False"

lemma tail_pass_same:
  assumes "dk_stat_ok d" "dk_path d = Some f" "dk_content d f = c @ s"
  shows "tail_pass d \<lparr>lt_file = f, lt_offset = length c\<rparr> =
    Some (fst (scan_lines s), \<lparr>lt_file = f, lt_offset = length c + snd (scan_lines s)\<rparr>)"
  using assms by (simp add: tail_pass_def split: prod.split)

lemma tail_run_grows:
  "grows f c bs ds \<Longrightarrow> tail_run ds \<lparr>lt_file = f, lt_offset = length c\<rparr> =
    (map (map dropCR) bs, Some \<lparr>lt_file = f, lt_offset = length (c @ as_lines (concat bs))\<rparr>)"
proof (induction f c bs ds rule: grows.induct)
  case (2 f c b bs d ds)
  have cat: "length (as_lines (b @ ls)) = length (as_lines b) + length (as_lines ls)" for ls
    by (simp add: as_lines_def)
  from 2 show ?case
    using tail_pass_same [of d f c "as_lines b"] by (simp add: scan_as_lines cat)
qed simp_all

lemma tail_run_Cons:
  "tail_pass d t = Some (ls, t') \<Longrightarrow> tail_run (d # ds) t = (ls # fst (tail_run ds t'), snd (tail_run ds t'))"
  by (simp split: prod.split)

lemma tail_pass_rotated:
  assumes "dk_stat_ok d" "dk_path d \<noteq> Some (lt_file t)" "reopenRotated (dk_reopen d) = Some g"
  shows "tail_pass d t = Some (fst (scan_lines (dk_content d g)), \<lparr>lt_file = g, lt_offset = snd (scan_lines (dk_content d g))\<rparr>)"
  using assms by (simp add: tail_pass_def split: prod.split)

section \<open>Properties\<close>

text \<open>
  C35 (refinement). A log that is written in whole lines below 64 KiB, and not rotated, is
  followed exactly: whenever the passes happen, what is sent are the events of the lines that
  were appended since the start, each once and in order, without a carriage return at the end.
\<close>

theorem tail_reports_lines:
  assumes "dk_path d = Some f" and "grows f (dk_content d f) bs ds"
  shows "tailFile ipc host clock d ds = Some (sends ipc host clock (map dropCR (concat bs)))"
  using tail_run_grows [OF assms(2)] by (simp add: tailFile_def open_tail_def assms(1) map_concat)

definition log_of :: "nat \<Rightarrow> string \<Rightarrow> disk" where
  "log_of f c = \<lparr>dk_stat_ok = True, dk_path = Some f, dk_reopen = [], dk_content = (\<lambda>_. c)\<rparr>"

definition su_line :: string where
  "su_line = ''su[7]: Successful su for root by eve''"

theorem tail_reports_lines_witness:
  "tailFile None ''host'' int (log_of 1 []) [log_of 1 [], log_of 1 (as_lines [su_line])] =
     Some (sends None ''host'' int [su_line])"
proof -
  have "line_feed \<notin> set su_line" "length su_line < buffer_size" "dropCR su_line = su_line"
    by (simp_all add: su_line_def line_feed_def buffer_size_def dropCR_def carriage_return_def, code_simp+)
  then have "grows 1 (dk_content (log_of 1 []) 1) [[], [su_line]] [log_of 1 [], log_of 1 (as_lines [su_line])]"
    by (simp add: log_of_def log_line_def)
  from tail_reports_lines [OF _ this, of None "''host''" int] show ?thesis
    using \<open>dropCR su_line = su_line\<close> by (simp add: log_of_def)
qed

text \<open>
  C36 (error). Three ways in which lines are lost. After a rotation only the new file is read, from
  its start: what was appended to the old one since the last pass is never delivered. A file
  that was cut off (copied and truncated) delivers nothing until it has grown past the old
  offset. And a line that is half written when a pass comes is delivered as two lines.
\<close>

theorem lines_lost:
  "(dk_stat_ok d \<and> dk_path d \<noteq> Some (lt_file t) \<and> reopenRotated (dk_reopen d) = Some g \<and> g \<noteq> lt_file t \<longrightarrow>
      tail_pass (d\<lparr>dk_content := (dk_content d)(lt_file t := old)\<rparr>) t = tail_pass d t \<and>
      (\<forall>ls. dk_content d g = as_lines ls \<and> list_all log_line ls \<longrightarrow>
        tail_pass d t = Some (map dropCR ls, \<lparr>lt_file = g, lt_offset = length (as_lines ls)\<rparr>))) \<and>
   (dk_stat_ok d \<and> dk_path d = Some (lt_file t) \<and> length (dk_content d (lt_file t)) \<le> lt_offset t \<longrightarrow>
      tail_pass d t = Some ([], t)) \<and>
   (dk_stat_ok d \<and> dk_path d = Some f \<and> dk_content d f = c @ p \<and>
      dk_stat_ok d' \<and> dk_path d' = Some f \<and> dk_content d' f = c @ p @ as_lines [q] \<and>
      log_line p \<and> p \<noteq> [] \<and> log_line q \<longrightarrow>
      fst (tail_run [d, d'] \<lparr>lt_file = f, lt_offset = length c\<rparr>) = [[dropCR p], [dropCR q]])"
proof (intro conjI impI)
  assume "dk_stat_ok d \<and> dk_path d = Some f \<and> dk_content d f = c @ p \<and>
      dk_stat_ok d' \<and> dk_path d' = Some f \<and> dk_content d' f = c @ p @ as_lines [q] \<and>
      log_line p \<and> p \<noteq> [] \<and> log_line q"
  then have a: "dk_stat_ok d" "dk_path d = Some f" "dk_content d f = c @ p" "log_line p" "p \<noteq> []"
    and b: "dk_stat_ok d'" "dk_path d' = Some f" "dk_content d' f = (c @ p) @ as_lines [q]" "list_all log_line [q]"
    by simp_all
  show "fst (tail_run [d, d'] \<lparr>lt_file = f, lt_offset = length c\<rparr>) = [[dropCR p], [dropCR q]]"
    using tail_pass_same [OF a(1-3)] tail_pass_same [OF b(1-3)] scan_rest [OF a(4,5)] scan_as_lines [OF b(4)] by simp
qed (auto simp: tail_pass_rotated scan_as_lines, auto simp: tail_pass_def scan_lines.simps)

definition torn :: "string \<times> string" where
  "torn = (''su[7]: Successful su for ro'', ''ot by eve'')"

theorem lines_lost_witness:
  "fst (tail_run [log_of 1 (fst torn), log_of 1 (fst torn @ as_lines [snd torn])] \<lparr>lt_file = 1, lt_offset = 0\<rparr>) =
     [[fst torn], [snd torn]] \<and>
   parseLine None ''host'' 0 (fst torn) = None \<and> parseLine None ''host'' 0 (snd torn) = None \<and>
   parseLine None ''host'' 0 (fst torn @ snd torn) \<noteq> None"
proof -
  have "log_line (fst torn)" "log_line (snd torn)"
    by (simp_all add: torn_def log_line_def line_feed_def buffer_size_def, code_simp+)
  moreover have "dropCR (fst torn) = fst torn" "dropCR (snd torn) = snd torn"
    by code_simp+
  moreover have "parseLine None ''host'' 0 (fst torn) = None" "parseLine None ''host'' 0 (snd torn) = None"
    "parseLine None ''host'' 0 (fst torn @ snd torn) \<noteq> None"
    by code_simp+
  ultimately show ?thesis
    using lines_lost [of "log_of 1 (fst torn)" _ _ _ 1 "[]" "fst torn" "log_of 1 (fst torn @ as_lines [snd torn])" "snd torn"]
    by (simp add: log_of_def torn_def)
qed

end
