(* ===== verification/Startup.thy ===== *)
theory Startup
  imports App Monitor_Base
begin

text \<open>
  How the program starts: the search for the configuration and its loading
  (\<^verbatim>\<open>config.go\<close>), the choice of monitors (\<^verbatim>\<open>app_linux.go\<close>), and the commands of \<^verbatim>\<open>cli.go\<close> that
  concern alert channels. Files, the environment and the YAML decoder are parameters.
\<close>

section \<open>Configuration\<close>

datatype load_error = Read_Error | Parse_Error | Invalid_Severity

text \<open>\<open>stat p\<close> is \<open>None\<close> for an error, otherwise whether the path is a directory.\<close>

definition Discover :: "string \<Rightarrow> (string \<Rightarrow> bool option) \<Rightarrow> bool \<Rightarrow> string" where
  "Discover elmer_config stat windows =
     (let candidates = (if elmer_config \<noteq> [] then [elmer_config] else []) @ [''elmer.yaml''] @
          (if windows then [''C:'' @ backslash @ ''ProgramData'' @ backslash @ ''elmer'' @ backslash @ ''elmer.yaml'']
           else [''/etc/elmer/elmer.yaml'']) in
      case filter (\<lambda>p. stat p = Some False) candidates of [] \<Rightarrow> [] | p # _ \<Rightarrow> p)"

definition Load ::
    "(string \<Rightarrow> string option) \<Rightarrow> (string \<Rightarrow> config \<Rightarrow> config option) \<Rightarrow> bool \<Rightarrow> string \<Rightarrow> load_error + config" where
  "Load read unmarshal windows path =
     (case read path of
        None \<Rightarrow> Inl Read_Error
      | Some raw \<Rightarrow>
          (case unmarshal raw zero_config of
             None \<Rightarrow> Inl Parse_Error
           | Some cfg \<Rightarrow>
               (case ApplyDefaults windows cfg of None \<Rightarrow> Inl Invalid_Severity | Some cfg \<Rightarrow> Inr cfg)))"

definition LoadConfig ::
    "string \<Rightarrow> (string \<Rightarrow> bool option) \<Rightarrow> (string \<Rightarrow> string option) \<Rightarrow> (string \<Rightarrow> config \<Rightarrow> config option) \<Rightarrow> bool \<Rightarrow>
     string \<Rightarrow> (load_error + config) \<times> string" where
  "LoadConfig elmer_config stat read unmarshal windows path =
     (let path = (if path = [] then Discover elmer_config stat windows else path) in
      if path = [] then
        (case Default windows of None \<Rightarrow> Inl Invalid_Severity | Some cfg \<Rightarrow> Inr cfg, ''(built-in defaults)'')
      else (Load read unmarshal windows path, path))"

section \<open>Monitors\<close>

text \<open>The monitors with the flag \<^verbatim>\<open>ebpfActive\<close> they are made with.\<close>

datatype monitor = EBPF_Mon | Process_Mon bool | Auth_Mon | File_Mon | Net_Mon bool | Persistence_Mon

definition enabled :: "config \<Rightarrow> string \<Rightarrow> monitor \<Rightarrow> monitor list" where
  "enabled cfg name m = (if MonitorEnabled cfg name then [m] else [])"

text \<open>\<open>load\<close> is the result of \<^verbatim>\<open>NewEBPFMonitor\<close>: the text of its error, or \<open>None\<close> for success.\<close>

definition buildMonitors :: "string option \<Rightarrow> int \<Rightarrow> string \<Rightarrow> config \<Rightarrow> monitor list \<times> event list" where
  "buildMonitors load now host cfg =
     (let (first, active, notes) =
          (if MonitorEnabled cfg ''ebpf'' then
             (case load of
                None \<Rightarrow> ([EBPF_Mon], True, [])
              | Some err \<Rightarrow> ([], False, [DegradedNote now host
                  (''eBPF unavailable ('' @ err @ ''); falling back to netlink/polling'')]))
           else ([], False, [])) in
      (first @ enabled cfg ''process'' (Process_Mon active) @ enabled cfg ''auth'' Auth_Mon @
       enabled cfg ''fim'' File_Mon @ enabled cfg ''net'' (Net_Mon active) @
       enabled cfg ''persistence'' Persistence_Mon, notes))"

section \<open>Channels\<close>

definition alertChannels :: "config \<Rightarrow> string list" where
  "alertChannels cfg =
     (let a = cf_alerts cfg;
          out = (if dc_url (ac_discord a) \<noteq> [] then [''discord''] else []) @
            (if nc_topic (ac_ntfy a) \<noteq> [] then [''ntfy''] else []) @
            (if wc_url (ac_webhook a) \<noteq> [] then [''webhook''] else []) in
      if out = [] then [''(none configured)''] else out)"

definition test_event :: "int \<Rightarrow> string \<Rightarrow> event" where
  "test_event now host =
     \<lparr>e_time = now, e_severity = Critical, e_category = CatElmer, e_title = ''elmer test alert'',
      e_message = ''This is a synthetic alert to verify your channels. If you can read this, delivery works.'',
      e_fields = Some [''host'' \<mapsto> host], e_technique = [], e_host = host, e_key = []\<rparr>"

text \<open>What is dispatched, and how long the command then waits.\<close>

definition TestAlerts :: "int \<Rightarrow> string \<Rightarrow> config \<Rightarrow> manager \<times> int" where
  "TestAlerts now host cfg =
     (Dispatch (test_event now host) (NewManager cfg),
      dc_batch_window (ac_discord (cf_alerts cfg)) + 5 * second)"

section \<open>Facts\<close>

lemma Names_NewManager:
  "Names (NewManager cfg) = ''stdout'' #
     (if alertChannels cfg = [''(none configured)''] then [] else alertChannels cfg)"
  by (simp add: Names_def NewManager_def add_def alertChannels_def Let_def)

lemma buildMonitors_notes: "length (snd (buildMonitors load now host cfg)) \<le> 1"
  by (simp add: buildMonitors_def Let_def split: option.split)

lemma Evaluate_elmer:
  assumes "e_category ev = CatElmer"
  shows "Evaluate e ev = ([ev], e)"
  using assms by (simp add: Evaluate_eq correlated_def handled_def passThrough_def categories CatElmer_def)

lemma new_manager_queues: "d \<in> set (NewManager cfg) \<Longrightarrow> di_queue d = []"
  by (auto simp: NewManager_def add_def Let_def split: if_splits)

lemma Dispatch_fresh:
  "di_queue (Dispatch ev (NewManager cfg) ! i) = (if di_min (NewManager cfg ! i) \<le> e_severity ev then [ev] else [])"
  if "i < length (NewManager cfg)"
  using Dispatch_queues [OF that, of "[ev]"] by (simp add: newest_def queue_cap_def)

text \<open>A configuration that leaves the minimum severities of the channels to the defaults.\<close>

definition no_minimums :: "alerts_config \<Rightarrow> bool" where
  "no_minimums a \<longleftrightarrow> dc_min_severity (ac_discord a) = [] \<and> nc_min_severity (ac_ntfy a) = [] \<and>
     wc_min_severity (ac_webhook a) = []"

lemma default_minimums:
  assumes "ApplyDefaults windows c = Some cfg" and "no_minimums (cf_alerts c)"
  shows "dc_min_sev (ac_discord (cf_alerts cfg)) = High" "nc_min_sev (ac_ntfy (cf_alerts cfg)) = High"
    "wc_min_sev (ac_webhook (cf_alerts cfg)) = Medium"
proof -
  obtain a where a: "channel_severities (default_alerts (cf_alerts c)) = Some a"
    and d: "cfg = (with_defaults windows c)\<lparr>cf_fim := default_fim windows (cf_fim c), cf_alerts := a\<rparr>"
    by (rule ApplyDefaults_Some [OF assms(1)])
  have "a = \<lparr>ac_discord = (ac_discord (default_alerts (cf_alerts c)))\<lparr>dc_min_sev := High\<rparr>,
      ac_ntfy = (ac_ntfy (default_alerts (cf_alerts c)))\<lparr>nc_min_sev := High\<rparr>,
      ac_webhook = (ac_webhook (default_alerts (cf_alerts c)))\<lparr>wc_min_sev := Medium\<rparr>\<rparr>"
    using a assms(2) by (simp add: channel_severities_def default_alerts_def no_minimums_def sevOr_def Let_def)
  then show "dc_min_sev (ac_discord (cf_alerts cfg)) = High" "nc_min_sev (ac_ntfy (cf_alerts cfg)) = High"
    "wc_min_sev (ac_webhook (cf_alerts cfg)) = Medium"
    by (simp_all add: d)
qed

section \<open>Properties\<close>

text \<open>
  The channels that \<^verbatim>\<open>test-alerts\<close> names are those of the manager, besides
  standard output, and the test alert is then in the queue of every one of them.
\<close>

theorem test_alerts_reach_all:
  "Names (NewManager cfg) = ''stdout'' # filter (\<lambda>n. n \<noteq> ''(none configured)'') (alertChannels cfg) \<and>
   map di_queue (fst (TestAlerts now host cfg)) = replicate (length (NewManager cfg)) [test_event now host]"
proof -
  have "filter (\<lambda>n. n \<noteq> ''(none configured)'') (alertChannels cfg) =
      (if alertChannels cfg = [''(none configured)''] then [] else alertChannels cfg)"
    by (simp add: alertChannels_def Let_def)
  moreover have "map di_queue (fst (TestAlerts now host cfg)) = replicate (length (NewManager cfg)) [test_event now host]"
  proof (rule nth_equalityI)
    show "length (map di_queue (fst (TestAlerts now host cfg))) = length (replicate (length (NewManager cfg)) [test_event now host])"
      by (simp add: TestAlerts_def Dispatch_def)
    fix i assume "i < length (map di_queue (fst (TestAlerts now host cfg)))"
    then have "i < length (NewManager cfg)" by (simp add: TestAlerts_def Dispatch_def)
    moreover from this have "map di_queue (fst (TestAlerts now host cfg)) ! i = [test_event now host]"
      using Dispatch_fresh [of i cfg "test_event now host"]
      by (simp add: TestAlerts_def Dispatch_def test_event_def Critical_greatest)
    ultimately show "map di_queue (fst (TestAlerts now host cfg)) ! i =
        replicate (length (NewManager cfg)) [test_event now host] ! i" by simp
  qed
  ultimately show ?thesis by (simp add: Names_NewManager)
qed

text \<open>
  C25 (error). When the eBPF programs cannot be loaded, the program starts exactly the other
  monitors that the configuration enables, in this order, those of processes and of the network in
  the mode that replaces eBPF, and one note tells of it. The note is a Low event that nothing raises or suppresses, so when the configuration sets no
  minimum severities (they are then High, and Medium for the webhook) standard output is the
  only channel that hears of it.
\<close>

theorem ebpf_failure_told_to_stdout_only:
  assumes "ApplyDefaults windows c = Some cfg" and "no_minimums (cf_alerts c)"
    and "new_app compile builtin cfg = Some a" and "MonitorEnabled c ''ebpf''"
  shows "\<exists>ms note. buildMonitors (Some err) now host cfg = (ms, [note]) \<and>
    ms = (if MonitorEnabled c ''process'' then [Process_Mon False] else []) @
      (if MonitorEnabled c ''auth'' then [Auth_Mon] else []) @
      (if MonitorEnabled c ''fim'' then [File_Mon] else []) @
      (if MonitorEnabled c ''net'' then [Net_Mon False] else []) @
      (if MonitorEnabled c ''persistence'' then [Persistence_Mon] else []) \<and>
    fst (app_step note clock a) = [note] \<and> e_severity note = Low \<and>
    (\<forall>i < length (NewManager cfg). di_queue (ap_alerts (snd (app_step note clock a)) ! i) =
       (if di_d (NewManager cfg ! i) = Stdout then [note] else []))"
proof -
  let ?note = "DegradedNote now host (''eBPF unavailable ('' @ err @ ''); falling back to netlink/polling'')"
  have ms: "buildMonitors (Some err) now host cfg =
      (enabled c ''process'' (Process_Mon False) @ enabled c ''auth'' Auth_Mon @ enabled c ''fim'' File_Mon @
       enabled c ''net'' (Net_Mon False) @ enabled c ''persistence'' Persistence_Mon, [?note])"
    using assms(4) by (simp add: buildMonitors_def enabled_def MonitorEnabled_defaults [OF assms(1)])
  have n: "e_category ?note = CatElmer" "e_severity ?note = Low"
    by (simp_all add: DegradedNote_def)
  have "fst (Evaluate (ap_engine a) ?note) = [?note]" by (simp only: Evaluate_elmer [OF n(1)] fst_conv)
  note step = app_step_fresh [OF assms(3) this, of clock]
  have "(di_min (NewManager cfg ! i) \<le> Low) = (di_d (NewManager cfg ! i) = Stdout)" if "i < length (NewManager cfg)" for i
    using nth_mem [OF that] default_minimums [OF assms(1,2)]
    by (auto simp: NewManager_def add_def Let_def severity_order split: if_splits)
  then show ?thesis using n step by (auto simp: ms enabled_def Dispatch_fresh)
qed

theorem ebpf_failure_told_to_stdout_only_witness:
  "\<exists>cfg a note. Default False = Some cfg \<and> new_app (\<lambda>_. Some (\<lambda>_. False)) [] cfg = Some a \<and>
    buildMonitors (Some ''operation not permitted'') 0 ''host'' cfg =
      ([Process_Mon False, Auth_Mon, File_Mon, Net_Mon False, Persistence_Mon], [note]) \<and>
    fst (app_step note (\<lambda>_. 0) a) = [note] \<and> e_severity note = Low"
proof -
  obtain cfg where cfg: "Default False = Some cfg" using Default_Some by blast
  then have rules: "cf_rules cfg = []"
    using ApplyDefaults_fields(14) [OF cfg [unfolded Default_def]] by (simp add: zero_config_def)
  have "NewEngine (\<lambda>_. Some (\<lambda>_. False)) [] cfg \<noteq> None"
    unfolding NewEngine_None by (simp add: rules)
  then obtain a where a: "new_app (\<lambda>_. Some (\<lambda>_. False)) [] cfg = Some a" by (auto simp: new_app_def)
  have n: "no_minimums (cf_alerts zero_config)" and m: "MonitorEnabled zero_config name" for name
    by (simp_all add: no_minimums_def MonitorEnabled_def zero_config_def)
  from ebpf_failure_told_to_stdout_only [OF cfg [unfolded Default_def] n a m]
  show ?thesis using cfg a by (fastforce simp: m)
qed

text \<open>
  Loading a configuration: a file that is found is read, and an error in it stops the program;
  only when none is found do the built-in defaults apply. What \<^verbatim>\<open>ELMER_CONFIG\<close> names is passed
  over in silence if it does not exist.
\<close>

lemma LoadConfig_outcomes:
  assumes "path = []"
  shows "(\<forall>p \<in> {elmer_config, ''elmer.yaml'', ''/etc/elmer/elmer.yaml''}. p \<noteq> [] \<longrightarrow> stat p \<noteq> Some False) \<Longrightarrow>
      \<exists>cfg. LoadConfig elmer_config stat read unmarshal False path = (Inr cfg, ''(built-in defaults)'') \<and> Default False = Some cfg"
    and "stat elmer_config \<noteq> Some False \<Longrightarrow>
      LoadConfig elmer_config stat read unmarshal False path = LoadConfig [] stat read unmarshal False path"
    and "elmer_config \<noteq> [] \<Longrightarrow> stat elmer_config = Some False \<Longrightarrow>
      LoadConfig elmer_config stat read unmarshal False path = (Load read unmarshal False elmer_config, elmer_config)"
proof -
  obtain cfg where "Default False = Some cfg" using Default_Some by blast
  then show "(\<forall>p \<in> {elmer_config, ''elmer.yaml'', ''/etc/elmer/elmer.yaml''}. p \<noteq> [] \<longrightarrow> stat p \<noteq> Some False) \<Longrightarrow>
      \<exists>cfg. LoadConfig elmer_config stat read unmarshal False path = (Inr cfg, ''(built-in defaults)'') \<and> Default False = Some cfg"
    using assms by (simp add: LoadConfig_def Discover_def)
qed (use assms in \<open>simp_all add: LoadConfig_def Discover_def Let_def\<close>)

end
