(* ===== verification/Event_Queue.thy ===== *)
theory Event_Queue
  imports Startup
begin

text \<open>
  The channel between the monitors and the main loop, \<^verbatim>\<open>evch\<close> in \<^verbatim>\<open>app.go\<close>: buffered, for 1024
  events. A monitor that sends into a full channel waits. The monitors are goroutines, so their
  sends and the receipts of the main loop interleave in any order. A monitor is given by the
  events it sends, in order; for each event in the channel the model notes who sent it.
\<close>

section \<open>Steps\<close>

definition evch_cap :: nat where "evch_cap = 1024"

record event_queue =
  eq_todo :: "event list list"
  eq_buffer :: "(nat \<times> event) list"
  eq_taken :: "(nat \<times> event) list"

definition new_queue :: "event list \<Rightarrow> event list list \<Rightarrow> event_queue" where
  "new_queue initial sources = \<lparr>eq_todo = [] # sources, eq_buffer = map (Pair 0) initial, eq_taken = []\<rparr>"

inductive queue_step :: "event_queue \<Rightarrow> event_queue \<Rightarrow> bool" where
  send: "m < length (eq_todo q) \<Longrightarrow> eq_todo q ! m = ev # evs \<Longrightarrow> length (eq_buffer q) < evch_cap \<Longrightarrow>
    queue_step q (q\<lparr>eq_todo := (eq_todo q)[m := evs], eq_buffer := eq_buffer q @ [(m, ev)]\<rparr>)"
| take_event: "eq_buffer q = x # xs \<Longrightarrow>
    queue_step q (q\<lparr>eq_buffer := xs, eq_taken := eq_taken q @ [x]\<rparr>)"

text \<open>What a monitor has sent of what the main loop has taken, or of what is in the channel.\<close>

definition from_monitor :: "nat \<Rightarrow> (nat \<times> event) list \<Rightarrow> event list" where
  "from_monitor m xs = map snd (filter (\<lambda>x. fst x = m) xs)"

lemma from_monitor_simps [simp]:
  "from_monitor m [] = []"
  "from_monitor m (x # xs) = (if fst x = m then snd x # from_monitor m xs else from_monitor m xs)"
  "from_monitor m (xs @ ys) = from_monitor m xs @ from_monitor m ys"
  by (simp_all add: from_monitor_def)

definition queue_inv :: "event list list \<Rightarrow> event_queue \<Rightarrow> bool" where
  "queue_inv sources q \<longleftrightarrow>
     length (eq_todo q) = length sources \<and> length (eq_buffer q) \<le> evch_cap \<and>
     (\<forall>m < length sources. from_monitor m (eq_taken q) @ from_monitor m (eq_buffer q) @ eq_todo q ! m = sources ! m) \<and>
     (\<forall>x \<in> set (eq_taken q) \<union> set (eq_buffer q). fst x < length sources)"

lemma queue_inv_step: "queue_step q q' \<Longrightarrow> queue_inv sources q \<Longrightarrow> queue_inv sources q'"
proof (induction rule: queue_step.induct)
  case (send m q ev evs)
  then have "from_monitor i (eq_taken q) @ from_monitor i (eq_buffer q @ [(m, ev)]) @ (eq_todo q)[m := evs] ! i =
      sources ! i" if "i < length sources" for i
    using that by (cases "i = m") (auto simp: queue_inv_def)
  with send show ?case by (auto simp: queue_inv_def)
next
  case (take_event q x xs)
  then show ?case by (auto simp: queue_inv_def)
qed

lemma queue_inv_steps: "queue_step\<^sup>*\<^sup>* q q' \<Longrightarrow> queue_inv sources q \<Longrightarrow> queue_inv sources q'"
  by (induction rule: rtranclp_induct) (auto intro: queue_inv_step)

lemma queue_inv_new:
  assumes "length initial \<le> evch_cap"
  shows "queue_inv (initial # sources) (new_queue initial sources)"
proof -
  have "from_monitor m (map (Pair 0) initial) = (if m = 0 then initial else [])" for m
    by (induction initial) auto
  then show ?thesis using assms by (auto simp: queue_inv_def new_queue_def nth_Cons split: nat.splits)
qed

section \<open>Nothing waits for ever\<close>

definition work_left :: "event_queue \<Rightarrow> nat" where
  "work_left q = 2 * sum_list (map length (eq_todo q)) + length (eq_buffer q)"

lemma no_lists_left: "0 < sum_list (map length xss) \<longleftrightarrow> (\<exists>xs \<in> set xss. xs \<noteq> [])"
  by (induction xss) auto

lemma queue_progress:
  assumes "0 < work_left q"
  shows "\<exists>q'. queue_step q q'"
proof (cases "eq_buffer q")
  case (Cons x xs)
  then show ?thesis using take_event by blast
next
  case Nil
  then have "\<exists>evs \<in> set (eq_todo q). evs \<noteq> []"
    using assms by (simp add: work_left_def no_lists_left)
  then obtain m ev evs where "m < length (eq_todo q)" "eq_todo q ! m = ev # evs"
    by (metis in_set_conv_nth neq_Nil_conv)
  then show ?thesis using send [of m q ev evs] Nil by (auto simp: evch_cap_def)
qed

lemma sum_list_update_length:
  "m < length xss \<Longrightarrow> xss ! m = x # xs \<Longrightarrow>
   Suc (sum_list (map length (xss[m := xs]))) = sum_list (map length xss)"
  by (induction xss arbitrary: m) (auto simp: nth_Cons split: nat.splits)

lemma queue_step_less: "queue_step q q' \<Longrightarrow> work_left q' < work_left q"
proof (induction rule: queue_step.induct)
  case (send m q ev evs)
  then show ?case using sum_list_update_length [OF send(1,2)] by (simp add: work_left_def)
qed (simp add: work_left_def)

lemma queue_drains: "\<exists>q'. queue_step\<^sup>*\<^sup>* q q' \<and> work_left q' = 0"
proof (induction q rule: measure_induct_rule [of work_left])
  case (less q)
  show ?case
  proof (cases "work_left q = 0")
    case False
    then obtain q1 where q1: "queue_step q q1" using queue_progress by auto
    with less [OF queue_step_less [OF q1]] show ?thesis
      by (meson converse_rtranclp_into_rtranclp)
  qed auto
qed

lemma drained:
  assumes "queue_inv sources q" "work_left q = 0" "m < length sources"
  shows "from_monitor m (eq_taken q) = sources ! m"
proof -
  have "eq_buffer q = []" "sum_list (map length (eq_todo q)) = 0"
    using assms(2) by (simp_all add: work_left_def)
  moreover from this(2) have "eq_todo q ! m = []"
    using assms(1,3) sum_list_eq_0_iff [of "map length (eq_todo q)"] by (simp add: queue_inv_def)
  moreover have "from_monitor m (eq_taken q) @ from_monitor m (eq_buffer q) @ eq_todo q ! m = sources ! m"
    using assms(1,3) by (simp add: queue_inv_def)
  ultimately show ?thesis by simp
qed

section \<open>What the engine makes of an event does not depend on the order\<close>

lemma handled_after: "handled (snd (Evaluate e x)) ev = handled e ev"
proof -
  have same: "handled (e\<lparr>en_brute := b\<rparr>) ev = handled e ev" for b
    by (simp add: handled_def applyRules_def winner_def classifyNet_def Let_def cong: option.case_cong)
  have "\<exists>b. snd (Evaluate e x) = e\<lparr>en_brute := b\<rparr>"
    unfolding snd_Evaluate correlated_def correlateAuth_def
    by (auto simp: Let_def split: prod.split option.split intro: exI [of _ "en_brute e"])
  then show ?thesis using same by auto
qed

lemma app_log_member:
  assumes "(ev, clock) \<in> set evs" and "Info < e_severity (handled e ev)"
  shows "handled e ev \<in> fst ` set (app_log evs e)"
  using assms
proof (induction evs arbitrary: e)
  case (Cons x evs)
  obtain ev' clock' where x: "x = (ev', clock')" by (cases x)
  have fst_stamped: "fst ` set (stamped outs c) = set outs" for outs c
    by (simp add: stamped_def flip: set_map)
  show ?case
  proof (cases "x = (ev, clock)")
    case True
    have "handled e ev \<in> set (fst (Evaluate e ev))"
      using Cons.prems(2) by (simp add: Evaluate_eq)
    then show ?thesis using True by (simp add: image_Un fst_stamped)
  next
    case False
    then have "(ev, clock) \<in> set evs" using Cons.prems(1) by simp
    from Cons.IH [OF this, of "snd (Evaluate e ev')"] Cons.prems(2) show ?thesis
      by (simp add: x handled_after image_Un)
  qed
qed simp

section \<open>Properties\<close>

text \<open>
  C20 (liveness). However monitors and main loop interleave, the channel holds at most 1024 events,
  what the main loop has taken of a monitor is a beginning of what the monitor sends, in order,
  and the system is never stuck: every event of every monitor can still be taken, each once.
\<close>

theorem monitor_events_delivered:
  assumes "queue_step\<^sup>*\<^sup>* (new_queue (snd (buildMonitors load now host cfg)) sources) q"
  shows "length (eq_buffer q) \<le> evch_cap \<and>
    (\<forall>m < length sources. prefix (from_monitor (Suc m) (eq_taken q)) (sources ! m)) \<and>
    (\<exists>q'. queue_step\<^sup>*\<^sup>* q q' \<and> work_left q' = 0 \<and>
       from_monitor 0 (eq_taken q') = snd (buildMonitors load now host cfg) \<and>
       (\<forall>m < length sources. from_monitor (Suc m) (eq_taken q') = sources ! m) \<and>
       (\<forall>x \<in> set (eq_taken q'). fst x \<le> length sources))"
proof -
  let ?all = "snd (buildMonitors load now host cfg) # sources"
  have inv: "queue_inv ?all q"
    using queue_inv_steps [OF assms queue_inv_new] buildMonitors_notes [of load now host cfg]
    by (simp add: evch_cap_def)
  have "prefix (from_monitor (Suc m) (eq_taken q)) (sources ! m)" if "m < length sources" for m
  proof -
    have "from_monitor (Suc m) (eq_taken q) @ from_monitor (Suc m) (eq_buffer q) @ eq_todo q ! Suc m = ?all ! Suc m"
      using inv that unfolding queue_inv_def by simp
    then show ?thesis by (metis nth_Cons_Suc prefixI)
  qed
  moreover obtain q' where q': "queue_step\<^sup>*\<^sup>* q q'" "work_left q' = 0" using queue_drains by blast
  moreover have "queue_inv ?all q'" by (rule queue_inv_steps [OF q'(1) inv])
  note end_inv = this drained [OF this q'(2)]
  ultimately show ?thesis
    using inv end_inv(2) [of 0] end_inv(2) [of "Suc m" for m] end_inv(1)
    by (auto simp: queue_inv_def less_Suc_eq_le)
qed

lemma no_initial: "snd (buildMonitors None now host cfg) = []"
  by (simp add: buildMonitors_def Let_def)

theorem monitor_events_delivered_witness:
  "\<exists>q. queue_step\<^sup>*\<^sup>* (new_queue [] [[su_event], [empty_event, su_event]]) q \<and>
    from_monitor 1 (eq_taken q) = [su_event] \<and> from_monitor 2 (eq_taken q) = [empty_event, su_event]"
  using monitor_events_delivered [of None 0 "''host''" zero_config "[[su_event], [empty_event, su_event]]",
      unfolded no_initial, OF rtranclp.rtrancl_refl]
  by (force simp: less_Suc_eq numeral_2_eq_2)

text \<open>
  C19 (safety). An event of any monitor that the engine rates above Info is not lost on its way,
  whatever the other monitors send and in whatever order it all arrives: once the channel is
  drained, its alert has been dispatched, or another alert with the same key has.
\<close>

theorem rated_event_dispatched:
  assumes "new_app compile builtin cfg = Some a"
    and "queue_step\<^sup>*\<^sup>* (new_queue (snd (buildMonitors load now host cfg)) sources) q" and "work_left q = 0"
    and "m < length sources" and "ev \<in> set (sources ! m)" and "Info < e_severity (handled (ap_engine a) ev)"
  shows "\<exists>alert \<in> set (concat (fst (app_run (map (\<lambda>(i, x). (snd x, clock i)) (enumerate 0 (eq_taken q))) a))).
    alert = handled (ap_engine a) ev \<or>
    e_key (handled (ap_engine a) ev) \<noteq> [] \<and> e_key alert = e_key (handled (ap_engine a) ev)"
proof -
  let ?evs = "map (\<lambda>(i, x). (snd x, clock i)) (enumerate 0 (eq_taken q))"
  have "queue_inv (snd (buildMonitors load now host cfg) # sources) q"
    using queue_inv_steps [OF assms(2) queue_inv_new] buildMonitors_notes [of load now host cfg]
    by (simp add: evch_cap_def)
  from drained [OF this assms(3), of "Suc m"] assms(4,5) have "ev \<in> set (from_monitor (Suc m) (eq_taken q))" by simp
  then have "ev \<in> set (map snd (eq_taken q))" by (auto simp: from_monitor_def)
  then obtain i where "i < length (eq_taken q)" "ev = snd (eq_taken q ! i)" by (auto simp: in_set_conv_nth)
  then have "(i, eq_taken q ! i) \<in> set (enumerate 0 (eq_taken q))" by (auto simp: in_set_enumerate_eq)
  then have "(ev, clock i) \<in> set ?evs" using \<open>ev = snd (eq_taken q ! i)\<close> by force
  from app_log_member [OF this assms(6)] obtain j where
    j: "j < length (app_log ?evs (ap_engine a))" "fst (app_log ?evs (ap_engine a) ! j) = handled (ap_engine a) ev"
    by (force simp: in_set_conv_nth)
  from dispatched_unless_repeated [OF assms(1) j(1)] show ?thesis
    unfolding j(2) by (elim disjE conjE exE) (blast, force)
qed

lemma one_event_queue:
  "queue_step\<^sup>*\<^sup>* (new_queue [] [[ev]]) \<lparr>eq_todo = [[], []], eq_buffer = [], eq_taken = [(1, ev)]\<rparr>"
proof -
  have "queue_step (new_queue [] [[ev]]) \<lparr>eq_todo = [[], []], eq_buffer = [(1, ev)], eq_taken = []\<rparr>"
    using send [of 1 "new_queue [] [[ev]]" ev "[]"] by (simp add: new_queue_def evch_cap_def)
  moreover have "queue_step \<lparr>eq_todo = [[], []], eq_buffer = [(1, ev)], eq_taken = []\<rparr>
      \<lparr>eq_todo = [[], []], eq_buffer = [], eq_taken = [(1, ev)]\<rparr>"
    using take_event [of "\<lparr>eq_todo = [[], []], eq_buffer = [(1, ev)], eq_taken = []\<rparr>" "(1, ev)" "[]"] by simp
  ultimately show ?thesis by (rule converse_rtranclp_into_rtranclp [OF _ r_into_rtranclp])
qed

theorem rated_event_dispatched_witness:
  "\<exists>alert \<in> set (concat (fst (app_run [(su_event, \<lambda>_. 0)] quiet_app))). alert = su_event"
proof -
  have h: "handled (ap_engine quiet_app) su_event = su_event" "Info < e_severity su_event" "e_key su_event = []"
    using NewEngine_fields [OF new_app_fields(1) [OF quiet_app]]
    by (simp_all add: su_event_def empty_event_def handled_def categories severity_order applyRules_def)
  show ?thesis
    using rated_event_dispatched [OF quiet_app, of None 0 "''host''" "[[su_event]]", unfolded no_initial,
        OF one_event_queue _ _ _ , of 0 su_event "\<lambda>_ _. 0"] h
    by (simp add: work_left_def)
qed

end
